(* ===== verification/Task.thy ===== *)
theory Task
  imports Prelude "HOL-Library.Word"
begin

text \<open>
  Package \<^verbatim>\<open>executors\<close>, file \<^verbatim>\<open>task.go\<close>: the future of a submitted command. A task is a record of
  the fields of \<^verbatim>\<open>_Task\<close>; its methods are functions that return the result and the new record. Each
  method changes the status by one compare-and-swap, at which the model takes the whole method to
  happen. Instants and durations are integers of nanoseconds, read from the clock by the caller. The
  context of a task is its cancellation state, and the lazily made \<^verbatim>\<open>done\<close> channel is absent, open,
  closed, or the shared channel that is always closed; closing a closed channel panics.
\<close>

section \<open>Statuses and types\<close>

datatype task_status = TaskStatusNew | TaskStatusRunning | TaskStatusCancelling | TaskStatusDone

fun task_status_iota :: "task_status \<Rightarrow> nat" where
  "task_status_iota TaskStatusNew = 0"
| "task_status_iota TaskStatusRunning = 1"
| "task_status_iota TaskStatusCancelling = 2"
| "task_status_iota TaskStatusDone = 3"

lemma task_status_iota_inject: "task_status_iota a = task_status_iota b \<longleftrightarrow> a = b"
  by (cases a; cases b) simp_all

instantiation task_status :: linorder
begin

definition less_eq_task_status :: "task_status \<Rightarrow> task_status \<Rightarrow> bool" where
  "less_eq_task_status a b \<longleftrightarrow> task_status_iota a \<le> task_status_iota b"

definition less_task_status :: "task_status \<Rightarrow> task_status \<Rightarrow> bool" where
  "less_task_status a b \<longleftrightarrow> task_status_iota a < task_status_iota b"

instance
  by standard (auto simp: less_eq_task_status_def less_task_status_def task_status_iota_inject)

end

datatype task_type = TaskTypeOnce | TaskTypeFixedDelay | TaskTypeFixedRate

fun task_type_iota :: "task_type \<Rightarrow> int" where
  "task_type_iota TaskTypeOnce = 0"
| "task_type_iota TaskTypeFixedDelay = 1"
| "task_type_iota TaskTypeFixedRate = 2"

text \<open>The generated \<^verbatim>\<open>String\<close> of the type slices one constant string by an index table.\<close>

definition TaskType_name :: string where
  "TaskType_name = ''TaskTypeOnceTaskTypeFixedDelayTaskTypeFixedRate''"

definition TaskType_index :: "nat list" where
  "TaskType_index = [0, 12, 30, 47]"

definition TaskType_String :: "int \<Rightarrow> string" where
  "TaskType_String i =
     (if i < 0 \<or> i \<ge> int (length TaskType_index - 1) then ''_TaskType('' @ show_int i @ '')''
      else let a = TaskType_index ! nat i; b = TaskType_index ! nat (i + 1)
           in take (b - a) (drop a TaskType_name))"

datatype task_err = ContextCanceled | TaskPanic string | TaskFailed string

datatype done_chn = OpenChn | ClosedChn | SharedClosedChn

record 'v task =
  t_id :: "64 word"
  t_type :: task_type
  t_status :: task_status
  t_nextRun :: int
  t_delay :: int
  t_ctx :: "bool option"
  t_canceled :: bool
  t_err :: "task_err option"
  t_value :: "'v option"
  t_done :: "done_chn option"
  t_queueElement :: "nat option"
  t_sQueueElement :: "nat option"

section \<open>Operations\<close>

definition newTask :: "int \<Rightarrow> 64 word \<Rightarrow> task_type \<Rightarrow> int \<Rightarrow> int \<Rightarrow> 'v task" where
  "newTask now tid typ initialDelay delay =
     \<lparr>t_id = tid, t_type = typ, t_status = TaskStatusNew, t_nextRun = now + initialDelay,
      t_delay = delay, t_ctx = None, t_canceled = False, t_err = None, t_value = None,
      t_done = None, t_queueElement = None, t_sQueueElement = None\<rparr>"

definition Runnable :: "'v task \<Rightarrow> bool" where
  "Runnable t \<longleftrightarrow> t_status t = TaskStatusNew"

definition Periodic :: "'v task \<Rightarrow> bool" where
  "Periodic t \<longleftrightarrow> t_type t = TaskTypeFixedRate \<or> t_type t = TaskTypeFixedDelay"

definition Delay :: "int \<Rightarrow> 'v task \<Rightarrow> int" where
  "Delay now t = t_nextRun t - now"

definition Done :: "'v task \<Rightarrow> bool" where
  "Done t \<longleftrightarrow> t_status t = TaskStatusDone"

definition Canceled :: "'v task \<Rightarrow> bool" where
  "Canceled t = t_canceled t"

definition Err :: "'v task \<Rightarrow> task_err option" where
  "Err t = t_err t"

definition Value :: "'v task \<Rightarrow> 'v option" where
  "Value t = t_value t"

definition setRunning :: "int \<Rightarrow> 'v task \<Rightarrow> bool \<times> 'v task" where
  "setRunning now t =
     (if \<not> Runnable t \<or> Delay now t > 0 then (False, t)
      else if t_status t = TaskStatusNew then (True, t\<lparr>t_status := TaskStatusRunning\<rparr>)
      else (False, t))"

definition cancel_ctx :: "'v task \<Rightarrow> 'v task" where
  "cancel_ctx t = (if t_ctx t \<noteq> None then t\<lparr>t_ctx := Some True\<rparr> else t)"

text \<open>Closing the done channel where there is one that is not the shared closed channel.\<close>

definition close_done :: "'v task \<Rightarrow> 'v task go" where
  "close_done t =
     (case t_done t of
        None \<Rightarrow> Ret t
      | Some SharedClosedChn \<Rightarrow> Ret t
      | Some OpenChn \<Rightarrow> Ret (t\<lparr>t_done := Some ClosedChn\<rparr>)
      | Some ClosedChn \<Rightarrow> Panic ''close of closed channel'')"

text \<open>\<open>Cancel\<close> reports whether the task was cancelled; when it was, the executor is notified.\<close>

definition Cancel :: "'v task \<Rightarrow> (bool \<times> 'v task) go" where
  "Cancel t =
     (if t_status t \<ge> TaskStatusCancelling then Ret (False, t)
      else if t_status t = TaskStatusNew then
        go_bind (close_done (cancel_ctx (t\<lparr>t_status := TaskStatusDone, t_err := Some ContextCanceled,
                                            t_canceled := True\<rparr>)))
          (\<lambda>t'. Ret (True, t'))
      else if t_status t = TaskStatusRunning then
        Ret (True, cancel_ctx (t\<lparr>t_status := TaskStatusCancelling, t_canceled := True\<rparr>))
      else Ret (False, t))"

definition Await :: "'v task \<Rightarrow> done_chn \<times> 'v task" where
  "Await t =
     (case t_done t of
        Some c \<Rightarrow> (c, t)
      | None \<Rightarrow> let c = (if t_status t = TaskStatusDone then SharedClosedChn else OpenChn)
                 in (c, t\<lparr>t_done := Some c\<rparr>))"

definition configureContext :: "'v task \<Rightarrow> 'v task" where
  "configureContext t = t\<lparr>t_ctx := Some False\<rparr>"

definition configureNextRun :: "int \<Rightarrow> 'v task \<Rightarrow> 'v task go" where
  "configureNextRun now t =
     (if \<not> Periodic t then Panic ''Cannot configure next run for a task that is not periodic''
      else if t_status t \<ge> TaskStatusCancelling then
        Panic ''Cannot configure next run for a task that is done or cancelling''
      else if t_status t \<noteq> TaskStatusRunning then Panic ''Cannot configure next run''
      else (case t_type t of
              TaskTypeFixedDelay \<Rightarrow> Ret (t\<lparr>t_status := TaskStatusNew, t_nextRun := now + t_delay t\<rparr>)
            | TaskTypeFixedRate \<Rightarrow>
                Ret (t\<lparr>t_status := TaskStatusNew, t_nextRun := t_nextRun t + t_delay t\<rparr>)
            | TaskTypeOnce \<Rightarrow> Panic ''Unknown task type''))"

definition setDone :: "'v option \<Rightarrow> task_err option \<Rightarrow> 'v task \<Rightarrow> (bool \<times> 'v task) go" where
  "setDone v err t =
     (if t_status t = TaskStatusDone then Ret (False, t)
      else let t1 = cancel_ctx (t\<lparr>t_status := TaskStatusDone, t_value := v, t_err := err\<rparr>)
           in (case t_done t1 of
                 None \<Rightarrow> Ret (True, t1\<lparr>t_done := Some SharedClosedChn\<rparr>)
               | Some _ \<Rightarrow> go_bind (close_done t1) (\<lambda>t'. Ret (True, t'))))"

text \<open>The methods as calls of a client or of the executor, run in sequence.\<close>

datatype 'v task_call =
    CallSetRunning int | CallCancel | CallAwait | CallConfigureNextRun int
  | CallSetDone "'v option" "task_err option" | CallConfigureContext

fun task_exec :: "'v task_call \<Rightarrow> 'v task \<Rightarrow> (bool \<times> 'v task) go" where
  "task_exec (CallSetRunning now) t = Ret (setRunning now t)"
| "task_exec CallCancel t = Cancel t"
| "task_exec CallAwait t = Ret (True, snd (Await t))"
| "task_exec (CallConfigureNextRun now) t = go_bind (configureNextRun now t) (\<lambda>t'. Ret (True, t'))"
| "task_exec (CallSetDone v err) t = setDone v err t"
| "task_exec CallConfigureContext t = Ret (True, configureContext t)"

fun task_run :: "'v task_call list \<Rightarrow> 'v task \<Rightarrow> (bool list \<times> 'v task) go" where
  "task_run [] t = Ret ([], t)"
| "task_run (c # cs) t =
     go_bind (task_exec c t) (\<lambda>(r, t'). go_bind (task_run cs t') (\<lambda>(rs, t''). Ret (r # rs, t'')))"

section \<open>The state machine of a task\<close>

text \<open>The done channel, where a caller asked for it, is closed exactly when the task is done.\<close>

definition task_inv :: "'v task \<Rightarrow> bool" where
  "task_inv t \<longleftrightarrow> (\<forall>c. t_done t = Some c \<longrightarrow> (c \<noteq> OpenChn \<longleftrightarrow> t_status t = TaskStatusDone)) \<and>
     (t_status t = TaskStatusCancelling \<longrightarrow> t_canceled t)"

lemmas task_defs [go_defs] = newTask_def Runnable_def Periodic_def Delay_def Done_def Canceled_def
  setRunning_def cancel_ctx_def close_done_def Cancel_def Await_def configureContext_def
  configureNextRun_def setDone_def

lemma TaskStatusCancelling_le [simp]:
  "TaskStatusCancelling \<le> s \<longleftrightarrow> s = TaskStatusCancelling \<or> s = TaskStatusDone"
  by (cases s) (simp_all add: less_eq_task_status_def)

lemma newTask_inv [go_inv]: "task_inv (newTask now tid typ d0 d)"
  by (simp add: task_inv_def newTask_def)

lemma task_exec_inv [go_inv]: "task_inv t \<Longrightarrow> task_exec c t = Ret (r, t') \<Longrightarrow> task_inv t'"
  by (cases c; cases "t_status t"; cases "t_type t")
    (auto simp: task_inv_def task_defs Let_def
      split: if_splits option.splits done_chn.splits)

text \<open>Under the invariant no method closes a closed channel: only \<open>configureNextRun\<close> can panic, and
  only when the task is not a running periodic one.\<close>

lemma task_exec_no_panic:
  "task_inv t \<Longrightarrow> task_exec c t = Panic e \<Longrightarrow>
   \<exists>now. c = CallConfigureNextRun now \<and> \<not> (Periodic t \<and> t_status t = TaskStatusRunning)"
  by (cases c; cases "t_status t"; cases "t_type t")
    (auto simp: task_inv_def task_defs Let_def split: if_splits option.splits done_chn.splits)

lemma setDone_Ret:
  assumes "task_inv t"
  shows "\<exists>r t'. setDone v err t = Ret (r, t') \<and> task_inv t'"
proof (cases "setDone v err t")
  case (Panic m)
  then show ?thesis using task_exec_no_panic[OF assms, of "CallSetDone v err" m] by simp
next
  case (Ret x)
  then show ?thesis using task_exec_inv[OF assms, of "CallSetDone v err"] by (cases x) auto
qed

lemma setDone_status: "setDone v err t = Ret (r, t') \<Longrightarrow> t_status t' = TaskStatusDone"
  by (auto simp: setDone_def close_done_def cancel_ctx_def Let_def split: if_splits option.splits done_chn.splits)

lemma task_exec_final:
  "t_status t \<ge> TaskStatusCancelling \<Longrightarrow> task_exec c t = Ret (r, t') \<Longrightarrow>
   t_status t' \<ge> TaskStatusCancelling \<and> (c = CallCancel \<longrightarrow> \<not> r) \<and>
   (t_status t = TaskStatusDone \<longrightarrow> t_status t' = TaskStatusDone \<and> t_value t' = t_value t \<and> t_err t' = t_err t)"
  by (cases c; cases "t_type t")
    (auto simp: task_defs Let_def split: if_splits option.splits done_chn.splits)

lemma task_exec_cancels: "task_exec CallCancel t = Ret (True, t') \<Longrightarrow> t_status t' \<ge> TaskStatusCancelling"
  by (cases "t_status t")
    (auto simp: task_defs split: if_splits option.splits done_chn.splits)

lemma task_run_inv: "task_inv t \<Longrightarrow> task_run cs t = Ret (rs, t') \<Longrightarrow> task_inv t'"
proof (induction cs arbitrary: t rs)
  case (Cons c cs)
  then show ?case
    by (cases "task_exec c t") (auto split: prod.splits dest: task_exec_inv elim!: go_bind.elims)
qed simp

text \<open>The results of the calls of \<open>Cancel\<close> that reported true.\<close>

fun won_cancels :: "'v task_call list \<Rightarrow> bool list \<Rightarrow> nat" where
  "won_cancels (c # cs) (r # rs) = (if c = CallCancel \<and> r then 1 else 0) + won_cancels cs rs"
| "won_cancels _ _ = 0"

lemma task_run_final:
  "t_status t \<ge> TaskStatusCancelling \<Longrightarrow> task_run cs t = Ret (rs, t') \<Longrightarrow> won_cancels cs rs = 0"
proof (induction cs arbitrary: t rs)
  case (Cons c cs)
  then show ?case
    by (cases "task_exec c t")
      (fastforce split: prod.splits dest: task_exec_final elim!: go_bind.elims)+
qed simp

lemma TaskType_String_names:
  "TaskType_String (task_type_iota TaskTypeOnce) = ''TaskTypeOnce''"
  "TaskType_String (task_type_iota TaskTypeFixedDelay) = ''TaskTypeFixedDelay''"
  "TaskType_String (task_type_iota TaskTypeFixedRate) = ''TaskTypeFixedRate''"
  by (simp_all add: TaskType_String_def TaskType_index_def TaskType_name_def numeral_eq_Suc)

text \<open>C22. Whatever calls the client and the executor make on a task, and in whatever order, at most
  one call of \<open>Cancel\<close> reports true.\<close>

theorem cancel_wins_at_most_once:
  "task_run cs t = Ret (rs, t') \<Longrightarrow> won_cancels cs rs \<le> 1"
proof (induction cs arbitrary: t rs)
  case (Cons c cs)
  then obtain r u qs where e: "task_exec c t = Ret (r, u)" and q: "task_run cs u = Ret (qs, t')"
    and rs: "rs = r # qs"
    by (cases "task_exec c t") (auto split: prod.splits elim!: go_bind.elims)
  show ?case
  proof (cases "c = CallCancel \<and> r")
    case True
    then have "won_cancels cs qs = 0" using task_run_final[OF _ q] task_exec_cancels e by auto
    then show ?thesis using True rs by simp
  next
    case False
    then show ?thesis using Cons.IH[OF q] rs by auto
  qed
qed simp

theorem cancel_wins_at_most_once_witness:
  "\<exists>rs t'. task_run [CallSetRunning 5, CallCancel, CallCancel, CallSetDone None (Some ContextCanceled), CallCancel]
      (newTask 0 1 TaskTypeOnce 5 0 :: nat task) = Ret (rs, t') \<and> rs = [True, True, False, True, False] \<and>
      won_cancels [CallSetRunning 5, CallCancel, CallCancel,
        CallSetDone (None :: nat option) (Some ContextCanceled), CallCancel] rs \<le> 1"
proof -
  let ?cs = "[CallSetRunning 5, CallCancel, CallCancel,
    CallSetDone (None :: nat option) (Some ContextCanceled), CallCancel]"
  have "\<exists>rs t'. task_run ?cs (newTask 0 1 TaskTypeOnce 5 0 :: nat task) = Ret (rs, t') \<and>
      rs = [True, True, False, True, False]"
    by (simp add: task_defs)
  then show ?thesis using cancel_wins_at_most_once by metis
qed



end
