(* ===== verification/PriorityQueue.thy ===== *)
theory PriorityQueue
  imports Prelude "HOL-Library.Word" "HOL-Library.Product_Lexorder" "HOL-Library.Multiset"
begin

text \<open>
  Package \<^verbatim>\<open>queue\<close>: a priority queue over Go's \<^verbatim>\<open>container/heap\<close>. Elements live in memory and are
  shared between the queue and its callers, so they are addressed by pointers (natural numbers)
  into \<open>pq_objs\<close>; the heap itself is a slice of pointers, and every element carries its own index
  and the heap it belongs to. \<open>up\<close> and \<open>down\<close> are the sift loops of \<^verbatim>\<open>container/heap\<close>, which the
  package calls through its \<open>Less\<close>, \<open>Swap\<close>, \<open>Push\<close> and \<open>Pop\<close> methods. The sequence number is a
  \<^verbatim>\<open>uint64\<close> and wraps around.
\<close>

section \<open>Elements and the queue\<close>

record 'a element =
  el_Value :: 'a
  el_priority :: int
  el_seq :: "64 word"
  el_index :: int
  el_heap :: "nat option"

record 'a pqueue =
  pq_h :: nat
  pq_slice :: "nat list"
  pq_objs :: "nat \<Rightarrow> 'a element"
  pq_next :: nat
  pq_sequence :: "64 word"

definition NewPriorityQueue ::
    "nat \<Rightarrow> (nat \<Rightarrow> 'a element) \<Rightarrow> nat \<Rightarrow> 64 word \<Rightarrow> 'a pqueue" where
  "NewPriorityQueue h objs nxt sequence =
     \<lparr>pq_h = h, pq_slice = [], pq_objs = objs, pq_next = nxt, pq_sequence = sequence\<rparr>"

definition Priority :: "'a element \<Rightarrow> int" where
  "Priority i = el_priority i"

definition Len :: "'a pqueue \<Rightarrow> nat" where
  "Len s = length (pq_slice s)"

section \<open>The methods of the heap\<close>

definition at :: "'a pqueue \<Rightarrow> nat \<Rightarrow> 'a element" where
  "at s i = pq_objs s (pq_slice s ! i)"

definition Less :: "'a pqueue \<Rightarrow> nat \<Rightarrow> nat \<Rightarrow> bool" where
  "Less s i j =
     (if el_priority (at s i) \<noteq> el_priority (at s j)
      then el_priority (at s i) < el_priority (at s j)
      else el_seq (at s i) < el_seq (at s j))"

definition set_index :: "int \<Rightarrow> nat \<Rightarrow> 'a pqueue \<Rightarrow> 'a pqueue" where
  "set_index i p s = s\<lparr>pq_objs := (pq_objs s)(p := (pq_objs s p)\<lparr>el_index := i\<rparr>)\<rparr>"

definition Swap :: "'a pqueue \<Rightarrow> nat \<Rightarrow> nat \<Rightarrow> 'a pqueue" where
  "Swap s i j =
     (let h = (pq_slice s)[i := pq_slice s ! j, j := pq_slice s ! i]
      in set_index (int j) (h ! j) (set_index (int i) (h ! i) (s\<lparr>pq_slice := h\<rparr>)))"

definition heap_push :: "'a pqueue \<Rightarrow> nat \<Rightarrow> 'a pqueue" where
  "heap_push s p =
     s\<lparr>pq_objs := (pq_objs s)(p := (pq_objs s p)\<lparr>el_index := int (length (pq_slice s)),
                                                el_heap := Some (pq_h s)\<rparr>),
       pq_slice := pq_slice s @ [p]\<rparr>"

definition heap_pop :: "'a pqueue \<Rightarrow> nat \<times> 'a pqueue" where
  "heap_pop s =
     (let n = length (pq_slice s); x = pq_slice s ! (n - 1)
      in (x, s\<lparr>pq_slice := take (n - 1) (pq_slice s),
               pq_objs := (pq_objs s)(x := (pq_objs s x)\<lparr>el_index := -1, el_heap := None\<rparr>)\<rparr>))"

section \<open>The sift loops of container/heap\<close>

function up :: "'a pqueue \<Rightarrow> nat \<Rightarrow> 'a pqueue" where
  "up s j =
     (let i = (j - 1) div 2
      in if i = j \<or> \<not> Less s j i then s else up (Swap s i j) i)"
  by pat_completeness auto
termination
  by (relation "measure snd") auto

function down :: "'a pqueue \<Rightarrow> nat \<Rightarrow> nat \<Rightarrow> 'a pqueue \<times> nat" where
  "down s i n =
     (let j1 = 2 * i + 1
      in if j1 \<ge> n then (s, i)
         else let j = (if j1 + 1 < n \<and> Less s (j1 + 1) j1 then j1 + 1 else j1)
              in if \<not> Less s j i then (s, i) else down (Swap s i j) j n)"
  by pat_completeness auto
termination
  by (relation "measure (\<lambda>(s, i, n). n - i)") auto

declare up.simps [simp del] down.simps [simp del]

section \<open>The operations of the queue\<close>

definition Push :: "'a \<Rightarrow> int \<Rightarrow> 'a pqueue \<Rightarrow> nat \<times> 'a pqueue" where
  "Push x prio s =
     (let sq = pq_sequence s + 1;
          p = pq_next s;
          item = \<lparr>el_Value = x, el_priority = prio, el_seq = sq, el_index = 0, el_heap = None\<rparr>;
          s1 = s\<lparr>pq_sequence := sq, pq_next := Suc p, pq_objs := (pq_objs s)(p := item)\<rparr>;
          s2 = heap_push s1 p
      in (p, up s2 (Len s2 - 1)))"

definition Pop :: "'a pqueue \<Rightarrow> (nat \<times> 'a pqueue) go" where
  "Pop s =
     (if Len s = 0 then Panic ''index out of range''
      else let n = Len s - 1; s1 = fst (down (Swap s 0 n) 0 n) in Ret (heap_pop s1))"

definition Peek :: "'a pqueue \<Rightarrow> nat go" where
  "Peek s = (if Len s = 0 then Panic ''index out of range'' else Ret (pq_slice s ! 0))"

definition Remove :: "nat \<Rightarrow> 'a pqueue \<Rightarrow> bool \<times> 'a pqueue" where
  "Remove item s =
     (let e = pq_objs s item in
      if el_heap e \<noteq> Some (pq_h s) \<or> el_index e = -1 then (False, s)
      else let i = nat (el_index e); n = Len s - 1;
               s1 = (if n \<noteq> i
                     then let s0 = Swap s i n; (sd, i') = down s0 i n
                          in if i' > i then sd else up sd i
                     else s)
           in (True, snd (heap_pop s1)))"

text \<open>Draining a queue: \<open>k\<close> pops in a row, each giving the popped pointer.\<close>

fun drain :: "('s \<Rightarrow> (nat \<times> 's) go) \<Rightarrow> nat \<Rightarrow> 's \<Rightarrow> nat list \<times> 's" where
  "drain pop 0 s = ([], s)"
| "drain pop (Suc k) s =
     (case pop s of Panic _ \<Rightarrow> ([], s)
      | Ret (p, s') \<Rightarrow> (case drain pop k s' of (ps, s'') \<Rightarrow> (p # ps, s'')))"

text \<open>Pushing a list of values with their priorities, in order.\<close>

fun push_all :: "('a \<times> int) list \<Rightarrow> 'a pqueue \<Rightarrow> 'a pqueue" where
  "push_all [] s = s"
| "push_all ((x, prio) # xs) s = push_all xs (snd (Push x prio s))"

text \<open>A caller's use of the queue as a sequence of calls; a call that panics ends it.\<close>

datatype 'a pq_call = CPush 'a int | CPop | CRemove nat

fun pq_exec :: "'a pq_call \<Rightarrow> 'a pqueue \<Rightarrow> 'a pqueue go" where
  "pq_exec (CPush x prio) s = Ret (snd (Push x prio s))"
| "pq_exec CPop s = go_bind (Pop s) (\<lambda>(p, s'). Ret s')"
| "pq_exec (CRemove p) s = Ret (snd (Remove p s))"

fun pq_run :: "'a pq_call list \<Rightarrow> 'a pqueue \<Rightarrow> 'a pqueue go" where
  "pq_run [] s = Ret s"
| "pq_run (c # cs) s = go_bind (pq_exec c s) (pq_run cs)"

section \<open>Keys, well-formedness and the heap order\<close>

text \<open>The order of \<open>Less\<close> is the lexicographic order of priority and sequence number.\<close>

definition el_key :: "'a element \<Rightarrow> int \<times> 64 word" where
  "el_key e = (el_priority e, el_seq e)"

definition key_of :: "'a pqueue \<Rightarrow> nat \<Rightarrow> int \<times> 64 word" where
  "key_of s p = el_key (pq_objs s p)"

definition keys :: "'a pqueue \<Rightarrow> (int \<times> 64 word) list" where
  "keys s = map (key_of s) (pq_slice s)"

text \<open>Every slot knows its own index, and only the elements of the slice point to the heap.\<close>

definition pq_wf :: "'a pqueue \<Rightarrow> bool" where
  "pq_wf s \<longleftrightarrow>
     distinct (pq_slice s) \<and>
     (\<forall>i < length (pq_slice s). el_index (at s i) = int i \<and> el_heap (at s i) = Some (pq_h s)) \<and>
     (\<forall>p. p \<notin> set (pq_slice s) \<longrightarrow> el_heap (pq_objs s p) \<noteq> Some (pq_h s)) \<and>
     (\<forall>p \<in> set (pq_slice s). p < pq_next s)"

definition heap_ok :: "'k::linorder list \<Rightarrow> nat \<Rightarrow> bool" where
  "heap_ok ks n \<longleftrightarrow> (\<forall>k. 0 < k \<and> k < n \<longrightarrow> ks ! ((k - 1) div 2) \<le> ks ! k)"

definition pq_inv :: "'a pqueue \<Rightarrow> bool" where
  "pq_inv s \<longleftrightarrow> pq_wf s \<and> heap_ok (keys s) (Len s)"

text \<open>What the sift loops keep: everything but the order of the slice and the indices.\<close>

definition shuffled :: "'a pqueue \<Rightarrow> 'a pqueue \<Rightarrow> bool" where
  "shuffled s t \<longleftrightarrow>
     pq_h t = pq_h s \<and> pq_next t = pq_next s \<and> pq_sequence t = pq_sequence s \<and>
     mset (pq_slice t) = mset (pq_slice s) \<and>
     (\<forall>p. el_Value (pq_objs t p) = el_Value (pq_objs s p) \<and> key_of t p = key_of s p \<and>
          el_heap (pq_objs t p) = el_heap (pq_objs s p))"

subsection \<open>Order of the heap on lists of keys\<close>

text \<open>The two shapes of an almost-heap: one slot may be below its parent, or above its children.\<close>

definition near_up :: "'k::linorder list \<Rightarrow> nat \<Rightarrow> nat \<Rightarrow> bool" where
  "near_up ks j n \<longleftrightarrow>
     (\<forall>k. 0 < k \<and> k < n \<and> k \<noteq> j \<longrightarrow> ks ! ((k - 1) div 2) \<le> ks ! k) \<and>
     (\<forall>k. 0 < k \<and> k < n \<and> (k - 1) div 2 = j \<and> 0 < j \<longrightarrow> ks ! ((j - 1) div 2) \<le> ks ! k)"

definition near_down :: "'k::linorder list \<Rightarrow> nat \<Rightarrow> nat \<Rightarrow> bool" where
  "near_down ks i n \<longleftrightarrow>
     (\<forall>k. 0 < k \<and> k < n \<and> (k - 1) div 2 \<noteq> i \<and> k \<noteq> i \<longrightarrow> ks ! ((k - 1) div 2) \<le> ks ! k) \<and>
     (\<forall>k. 0 < k \<and> k < n \<and> (k - 1) div 2 = i \<and> 0 < i \<longrightarrow> ks ! ((i - 1) div 2) \<le> ks ! k)"

abbreviation swapped :: "'k list \<Rightarrow> nat \<Rightarrow> nat \<Rightarrow> 'k list" where
  "swapped ks i j \<equiv> ks[i := ks ! j, j := ks ! i]"

lemma children: "0 < k \<Longrightarrow> (k - 1) div 2 = i \<longleftrightarrow> k = 2 * i + 1 \<or> k = 2 * i + (2::nat)"
  by arith

lemma parent_less: "0 < k \<Longrightarrow> (k - 1) div 2 < (k::nat)"
  by simp

lemma near_up_swap:
  fixes ks :: "'k::linorder list"
  assumes nu: "near_up ks j n" and j: "0 < j" "j < n" and n: "n \<le> length ks"
    and less: "ks ! j < ks ! i" and i: "i = (j - 1) div 2"
  shows "near_up (swapped ks i j) i n"
proof -
  have ij: "i < j" using j(1) i by simp
  have nth: "swapped ks i j ! k = (if k = j then ks ! i else if k = i then ks ! j else ks ! k)" for k
    using nth_list_update_swap[of i ks j k] j(2) n ij by simp
  have 1: "swapped ks i j ! ((k - 1) div 2) \<le> swapped ks i j ! k"
    if k: "0 < k" "k < n" "k \<noteq> i" for k
  proof (cases "k = j")
    case True
    have "(j - 1) div 2 = i" using i by simp
    then show ?thesis unfolding True nth using less ij by simp
  next
    case False
    have up: "ks ! ((k - 1) div 2) \<le> ks ! k"
      using nu k False by (simp add: near_up_def)
    show ?thesis
    proof (cases "(k - 1) div 2 = j")
      case True
      then have "ks ! i \<le> ks ! k" using nu k(1,2) j(1) i by (simp add: near_up_def)
      then show ?thesis using True False k(3) by (simp add: nth)
    next
      case False
      then show ?thesis using up \<open>k \<noteq> j\<close> k(3) less by (auto simp: nth)
    qed
  qed
  have 2: "swapped ks i j ! ((i - 1) div 2) \<le> swapped ks i j ! k"
    if k: "0 < k" "k < n" "(k - 1) div 2 = i" "0 < i" for k
  proof -
    have ne: "(i - 1) div 2 \<noteq> i" "(i - 1) div 2 \<noteq> j" using ij k(4) by auto
    have p: "ks ! ((i - 1) div 2) \<le> ks ! i" using nu k(4) ij j(2) by (simp add: near_up_def)
    show ?thesis
    proof (cases "k = j")
      case True
      then show ?thesis using p ne by (simp add: nth)
    next
      case False
      then have "ks ! i \<le> ks ! k" using nu k by (auto simp: near_up_def)
      moreover have "k \<noteq> i" using k(1,3) by auto
      ultimately show ?thesis using p ne False by (simp add: nth)
    qed
  qed
  show ?thesis using 1 2 by (auto simp: near_up_def)
qed

lemma near_down_swap:
  fixes ks :: "'k::linorder list"
  assumes nd: "near_down ks i n" and j: "j < n" "j = 2 * i + 1 \<or> j = 2 * i + 2"
    and n: "n \<le> length ks" and less: "ks ! j < ks ! i"
    and least: "\<And>k. k < n \<Longrightarrow> k = 2 * i + 1 \<or> k = 2 * i + 2 \<Longrightarrow> ks ! j \<le> ks ! k"
  shows "near_down (swapped ks i j) j n"
proof -
  have ij: "i < j" and par: "(j - 1) div 2 = i" "0 < j" using j(2) by auto
  have nth: "swapped ks i j ! k = (if k = j then ks ! i else if k = i then ks ! j else ks ! k)" for k
    using nth_list_update_swap[of i ks j k] j(1) n ij by simp
  have 1: "swapped ks i j ! ((k - 1) div 2) \<le> swapped ks i j ! k"
    if k: "0 < k" "k < n" "(k - 1) div 2 \<noteq> j" "k \<noteq> j" for k
  proof (cases "(k - 1) div 2 = i")
    case True
    then have "k = 2 * i + 1 \<or> k = 2 * i + 2" using children k(1) by blast
    then have "ks ! j \<le> ks ! k" using least k(2) by blast
    moreover have "k \<noteq> i" using True k(1) by auto
    ultimately show ?thesis using True k(4) ij by (simp add: nth)
  next
    case False
    show ?thesis
    proof (cases "k = i")
      case True
      then have "ks ! ((i - 1) div 2) \<le> ks ! j"
        using nd par j(1) k(1) by (simp add: near_down_def)
      then show ?thesis using True False k(3) ij by (simp add: nth)
    next
      case False
      with \<open>(k - 1) div 2 \<noteq> i\<close> have "ks ! ((k - 1) div 2) \<le> ks ! k"
        using nd k by (simp add: near_down_def)
      then show ?thesis using False \<open>(k - 1) div 2 \<noteq> i\<close> k(3,4) by (simp add: nth)
    qed
  qed
  have 2: "swapped ks i j ! ((j - 1) div 2) \<le> swapped ks i j ! k"
    if k: "0 < k" "k < n" "(k - 1) div 2 = j" for k
  proof -
    have kij: "k \<noteq> i" "k \<noteq> j" using k(1,3) ij by auto
    have "(k - 1) div 2 \<noteq> i" using k(3) ij by simp
    then have "ks ! j \<le> ks ! k"
      using nd kij k by (auto simp: near_down_def)
    then show ?thesis using par kij ij by (simp add: nth)
  qed
  show ?thesis using 1 2 by (auto simp: near_down_def)
qed

lemma heap_ok_of_near_up: "near_up ks j n \<Longrightarrow> (0 < j \<Longrightarrow> ks ! ((j - 1) div 2) \<le> ks ! j) \<Longrightarrow> heap_ok ks n"
  by (auto simp: near_up_def heap_ok_def)

lemma near_down_stop:
  assumes nd: "near_down ks i n"
    and stop: "\<And>k. 0 < k \<Longrightarrow> k < n \<Longrightarrow> (k - 1) div 2 = i \<Longrightarrow> ks ! i \<le> ks ! k"
  shows "near_up ks i n"
  unfolding near_up_def
proof (intro conjI allI impI)
  fix k assume k: "0 < k \<and> k < n \<and> k \<noteq> i"
  show "ks ! ((k - 1) div 2) \<le> ks ! k"
    using nd stop[of k] k by (cases "(k - 1) div 2 = i") (simp_all add: near_down_def)
next
  fix k assume "0 < k \<and> k < n \<and> (k - 1) div 2 = i \<and> 0 < i"
  then show "ks ! ((i - 1) div 2) \<le> ks ! k" using nd by (simp add: near_down_def)
qed

lemma heap_ok_min:
  assumes h: "heap_ok ks n" and k: "k < n"
  shows "ks ! 0 \<le> ks ! k"
  using k
proof (induction k rule: less_induct)
  case (less k)
  show ?case
  proof (cases "k = 0")
    case False
    then have "ks ! 0 \<le> ks ! ((k - 1) div 2)" using less by (metis less_trans not_gr0 parent_less)
    also have "\<dots> \<le> ks ! k" using h False less.prems by (simp add: heap_ok_def)
    finally show ?thesis .
  qed simp
qed

subsection \<open>Swap and the sift loops keep the elements and their indices\<close>

lemma shuffled_refl [simp]: "shuffled s s"
  by (simp add: shuffled_def)

lemma shuffled_trans: "shuffled s t \<Longrightarrow> shuffled t u \<Longrightarrow> shuffled s u"
  by (simp add: shuffled_def)

lemma shuffled_length: "shuffled s t \<Longrightarrow> length (pq_slice t) = length (pq_slice s)"
  by (metis shuffled_def size_mset)

lemma shuffled_set: "shuffled s t \<Longrightarrow> set (pq_slice t) = set (pq_slice s)"
  by (metis shuffled_def set_mset_mset)

lemma shuffled_key_of: "shuffled s t \<Longrightarrow> key_of t p = key_of s p"
  by (simp add: shuffled_def)

lemma Swap_slice [simp]: "pq_slice (Swap s i j) = swapped (pq_slice s) i j"
  by (simp add: Swap_def set_index_def Let_def)

lemma Swap_shuffled: "i < Len s \<Longrightarrow> j < Len s \<Longrightarrow> shuffled s (Swap s i j)"
  by (simp add: shuffled_def Swap_def set_index_def Let_def key_of_def el_key_def Len_def mset_swap)

lemma Swap_Len [simp]: "Len (Swap s i j) = Len s"
  by (simp add: Len_def)

lemma keys_length [simp]: "length (keys s) = Len s"
  by (simp add: keys_def Len_def)

lemma keys_Swap: "i < Len s \<Longrightarrow> j < Len s \<Longrightarrow> keys (Swap s i j) = swapped (keys s) i j"
proof -
  assume ij: "i < Len s" "j < Len s"
  have "key_of (Swap s i j) = key_of s"
    using shuffled_key_of[OF Swap_shuffled[OF ij]] by (simp add: fun_eq_iff)
  then show ?thesis using ij by (simp add: keys_def Len_def map_update)
qed

lemma Less_keys: "i < Len s \<Longrightarrow> j < Len s \<Longrightarrow> Less s i j \<longleftrightarrow> keys s ! i < keys s ! j"
  by (auto simp: Less_def keys_def Len_def key_of_def el_key_def at_def less_prod_def')

lemma Swap_wf:
  assumes wf: "pq_wf s" and ij: "i < Len s" "j < Len s"
  shows "pq_wf (Swap s i j)"
proof -
  let ?h = "swapped (pq_slice s) i j"
  have d: "distinct ?h" using wf ij by (simp add: pq_wf_def Len_def distinct_swap)
  have len: "length ?h = Len s" by (simp add: Len_def)
  have st: "set ?h = set (pq_slice s)" using ij by (simp add: Len_def)
  have obj: "pq_objs (Swap s i j) p =
      (if p = ?h ! j then (pq_objs s p)\<lparr>el_index := int j\<rparr>
       else if p = ?h ! i then (pq_objs s p)\<lparr>el_index := int i\<rparr> else pq_objs s p)" for p
    by (simp add: Swap_def set_index_def Let_def)
  have heap: "el_heap (pq_objs (Swap s i j) p) = el_heap (pq_objs s p)" for p
    by (simp add: obj)
  have idx: "el_index (at (Swap s i j) k) = int k" if k: "k < Len s" for k
  proof -
    have e: "?h ! k = ?h ! j \<longleftrightarrow> k = j" "?h ! k = ?h ! i \<longleftrightarrow> k = i"
      using ij k by (simp_all only: nth_eq_iff_index_eq[OF d] len)
    have "?h ! k = pq_slice s ! k" if "k \<noteq> i" "k \<noteq> j" using that by simp
    then show ?thesis
      using e wf k by (auto simp: at_def obj pq_wf_def Len_def)
  qed
  have "el_heap (at (Swap s i j) k) = Some (pq_h s)" if "k < Len s" for k
  proof -
    have "?h ! k \<in> set (pq_slice s)" using that st len nth_mem by metis
    then show ?thesis
      using wf by (auto simp: at_def heap pq_wf_def in_set_conv_nth)
  qed
  moreover have "pq_h (Swap s i j) = pq_h s" "pq_next (Swap s i j) = pq_next s"
    by (simp_all add: Swap_def set_index_def Let_def)
  ultimately show ?thesis
    using d idx wf st heap unfolding pq_wf_def by (simp add: Len_def)
qed

lemma up_props:
  "pq_wf s \<Longrightarrow> j < Len s \<Longrightarrow>
   shuffled s (up s j) \<and> pq_wf (up s j) \<and> (\<forall>k > j. pq_slice (up s j) ! k = pq_slice s ! k)"
proof (induction s j rule: up.induct)
  case (1 s j)
  let ?i = "(j - 1) div 2"
  show ?case
  proof (cases "?i = j \<or> \<not> Less s j ?i")
    case True
    then show ?thesis using 1 by (simp add: up.simps[of s j])
  next
    case False
    have i: "?i < Len s" using "1.prems"(2) by linarith
    have "shuffled (Swap s ?i j) (up (Swap s ?i j) ?i) \<and> pq_wf (up (Swap s ?i j) ?i) \<and>
        (\<forall>k > ?i. pq_slice (up (Swap s ?i j) ?i) ! k = pq_slice (Swap s ?i j) ! k)"
      using 1 False i by (simp add: Swap_wf)
    then show ?thesis
      using False i "1.prems" Swap_shuffled[of ?i s j] shuffled_trans
      by (auto simp: up.simps[of s j] Let_def)
  qed
qed

lemma up_heap:
  "j < n \<Longrightarrow> n \<le> Len s \<Longrightarrow> near_up (keys s) j n \<Longrightarrow> heap_ok (keys (up s j)) n"
proof (induction s j rule: up.induct)
  case (1 s j)
  let ?i = "(j - 1) div 2"
  have i: "?i < Len s" and j: "j < Len s" using "1.prems"(1,2) by linarith+
  have less: "Less s j ?i \<longleftrightarrow> keys s ! j < keys s ! ?i" by (rule Less_keys[OF j i])
  show ?case
  proof (cases "?i = j \<or> \<not> Less s j ?i")
    case True
    have "heap_ok (keys s) n"
      by (rule heap_ok_of_near_up[OF "1.prems"(3)]) (use True less in auto)
    then show ?thesis using True by (simp add: up.simps[of s j] Let_def)
  next
    case False
    have "near_up (keys (Swap s ?i j)) ?i n"
      unfolding keys_Swap[OF i j]
      by (rule near_up_swap) (use 1 False less in auto)
    then show ?thesis
      using 1 False i by (simp add: up.simps[of s j] Let_def)
  qed
qed

text \<open>The step of \<open>down\<close>: the child it compares with is a child, and the least one.\<close>

definition min_child :: "'a pqueue \<Rightarrow> nat \<Rightarrow> nat \<Rightarrow> nat" where
  "min_child s i n = (if 2 * i + 2 < n \<and> Less s (2 * i + 2) (2 * i + 1) then 2 * i + 2 else 2 * i + 1)"

lemma down_unfold:
  "down s i n =
     (if 2 * i + 1 \<ge> n \<or> \<not> Less s (min_child s i n) i then (s, i)
      else down (Swap s i (min_child s i n)) (min_child s i n) n)"
  by (subst down.simps) (simp add: Let_def min_child_def)

lemma min_child_bounds: "2 * i + 1 < n \<Longrightarrow> i < min_child s i n \<and> min_child s i n < n"
  by (simp add: min_child_def)

lemma min_child_least:
  assumes "2 * i + 1 < n" "n \<le> Len s" "k < n" "k = 2 * i + 1 \<or> k = 2 * i + 2"
  shows "keys s ! min_child s i n \<le> keys s ! k"
  using assms Less_keys[of "2 * i + 2" s "2 * i + 1"] by (auto simp: min_child_def)

lemma down_induct [case_names step]:
  assumes "\<And>s i n. (2 * i + 1 < n \<Longrightarrow> Less s (min_child s i n) i \<Longrightarrow>
             P (Swap s i (min_child s i n)) (min_child s i n) n) \<Longrightarrow> P s i n"
  shows "P s i n"
proof (induction s i n rule: down.induct)
  case (1 s i n)
  have j: "min_child s i n =
      (if 2 * i + 1 + 1 < n \<and> Less s (2 * i + 1 + 1) (2 * i + 1) then 2 * i + 1 + 1 else 2 * i + 1)"
    by (simp add: min_child_def)
  show ?case
    by (rule assms) (rule "1.IH"[OF refl _ j], auto)
qed

lemma down_props:
  "pq_wf s \<Longrightarrow> i < n \<Longrightarrow> n \<le> Len s \<Longrightarrow>
   shuffled s (fst (down s i n)) \<and> pq_wf (fst (down s i n)) \<and>
   i \<le> snd (down s i n) \<and> (snd (down s i n) = i \<longrightarrow> fst (down s i n) = s) \<and>
   (\<forall>k. n \<le> k \<longrightarrow> pq_slice (fst (down s i n)) ! k = pq_slice s ! k)"
proof (induction s i n rule: down_induct)
  case (step s i n)
  let ?j = "min_child s i n"
  show ?case
  proof (cases "2 * i + 1 \<ge> n \<or> \<not> Less s ?j i")
    case True
    then show ?thesis using step by (simp add: down_unfold[of s i n])
  next
    case False
    then have j: "i < ?j" "?j < n" using min_child_bounds[of i n s] by auto
    have lt: "i < Len s" "?j < Len s" using j step.prems by auto
    have wf': "pq_wf (Swap s i ?j)" using step.prems lt by (simp add: Swap_wf)
    have IH: "shuffled (Swap s i ?j) (fst (down (Swap s i ?j) ?j n)) \<and>
        pq_wf (fst (down (Swap s i ?j) ?j n)) \<and> ?j \<le> snd (down (Swap s i ?j) ?j n) \<and>
        (\<forall>k. n \<le> k \<longrightarrow> pq_slice (fst (down (Swap s i ?j) ?j n)) ! k = pq_slice (Swap s i ?j) ! k)"
      using step.IH False wf' j step.prems by simp
    then have "shuffled s (fst (down (Swap s i ?j) ?j n))"
      using shuffled_trans[OF Swap_shuffled[OF lt]] by blast
    with IH False j show ?thesis by (simp add: down_unfold[of s i n])
  qed
qed

text \<open>One turn of the loop of \<open>down\<close>: it either stops at an almost-heap or moves the slot.\<close>

abbreviation down_stops :: "'a pqueue \<Rightarrow> nat \<Rightarrow> nat \<Rightarrow> bool" where
  "down_stops s i n \<equiv> 2 * i + 1 \<ge> n \<or> \<not> Less s (min_child s i n) i"

lemma down_stop_near_up:
  assumes nd: "near_down (keys s) i n" and b: "i < n" "n \<le> Len s" and stop: "down_stops s i n"
  shows "near_up (keys s) i n"
proof (rule near_down_stop[OF nd])
  fix k assume k: "0 < k" "k < n" "(k - 1) div 2 = i"
  have kc: "k = 2 * i + 1 \<or> k = 2 * i + 2" using children k(1,3) by blast
  then have c: "2 * i + 1 < n" using k(2) by auto
  then have "\<not> keys s ! min_child s i n < keys s ! i"
    using stop b min_child_bounds[OF c, of s] Less_keys[of "min_child s i n" s i] by auto
  then show "keys s ! i \<le> keys s ! k"
    using min_child_least[of i n s k] kc k(2) c b by (meson not_less order_trans)
qed

lemma down_turn:
  assumes nd: "near_down (keys s) i n" and b: "i < n" "n \<le> Len s" and go: "\<not> down_stops s i n"
  defines "j \<equiv> min_child s i n"
  shows "i < j" "j < n" "near_down (keys (Swap s i j)) j n"
    "keys (Swap s i j) ! ((j - 1) div 2) \<le> keys (Swap s i j) ! j"
proof -
  show j: "i < j" "j < n" using go min_child_bounds[of i n s] by (auto simp: j_def)
  have c: "j = 2 * i + 1 \<or> j = 2 * i + 2" by (auto simp: j_def min_child_def)
  have lt: "i < Len s" "j < Len s" using j b by auto
  have lj: "keys s ! j < keys s ! i" using go Less_keys[OF lt(2,1)] by (simp add: j_def)
  have least: "keys s ! j \<le> keys s ! k" if "k < n" "k = 2 * i + 1 \<or> k = 2 * i + 2" for k
    using min_child_least[of i n s k] that go b by (auto simp: j_def)
  show "near_down (keys (Swap s i j)) j n"
    unfolding keys_Swap[OF lt] using b
    by (intro near_down_swap[OF nd j(2) c _ lj least]) auto
  have par: "(j - 1) div 2 = i" using c by auto
  show "keys (Swap s i j) ! ((j - 1) div 2) \<le> keys (Swap s i j) ! j"
    unfolding keys_Swap[OF lt] par using lj j lt by (simp add: nth_list_update)
qed

lemma down_heap:
  "near_down (keys s) i n \<Longrightarrow> i < n \<Longrightarrow> n \<le> Len s \<Longrightarrow>
   (0 < i \<Longrightarrow> keys s ! ((i - 1) div 2) \<le> keys s ! i) \<Longrightarrow> heap_ok (keys (fst (down s i n))) n"
proof (induction s i n rule: down_induct)
  case (step s i n)
  show ?case
  proof (cases "down_stops s i n")
    case True
    have "heap_ok (keys s) n"
      using heap_ok_of_near_up[OF down_stop_near_up] step.prems True by blast
    then show ?thesis using True by (simp add: down_unfold[of s i n])
  next
    case False
    note t = down_turn[OF step.prems(1-3) False]
    have "heap_ok (keys (fst (down (Swap s i (min_child s i n)) (min_child s i n) n))) n"
      using step.IH False t step.prems(3) by simp
    then show ?thesis using False by (simp add: down_unfold[of s i n])
  qed
qed

lemma down_moved_or_near_up:
  assumes nd: "near_down (keys s) i n" and b: "i < n" "n \<le> Len s" and wf: "pq_wf s"
  shows "if snd (down s i n) > i then heap_ok (keys (fst (down s i n))) n
         else down s i n = (s, i) \<and> near_up (keys s) i n"
proof (cases "down_stops s i n")
  case True
  then show ?thesis using down_stop_near_up[OF nd b] by (simp add: down_unfold[of s i n])
next
  case False
  let ?j = "min_child s i n"
  note t = down_turn[OF nd b False]
  have "pq_wf (Swap s i ?j)" using wf t(1,2) b by (simp add: Swap_wf)
  then have "i < snd (down (Swap s i ?j) ?j n)"
    using down_props[of "Swap s i ?j" ?j n] t(1,2) b by simp
  moreover have "heap_ok (keys (fst (down (Swap s i ?j) ?j n))) n"
    using down_heap[of "Swap s i ?j" ?j n] t b by simp
  ultimately show ?thesis using False by (simp add: down_unfold[of s i n])
qed

section \<open>Correctness of the operations\<close>

lemma heap_pop_props:
  assumes wf: "pq_wf s" and n: "Len s = Suc n"
  defines "t \<equiv> snd (heap_pop s)"
  shows "fst (heap_pop s) = pq_slice s ! n" and "pq_slice t = take n (pq_slice s)"
    and "pq_wf t" and "keys t = take n (keys s)"
    and "key_of t = key_of s" and "pq_h t = pq_h s" and "pq_next t = pq_next s"
    and "pq_sequence t = pq_sequence s" and "\<And>p. el_Value (pq_objs t p) = el_Value (pq_objs s p)"
proof -
  let ?x = "pq_slice s ! n"
  have len: "length (pq_slice s) = Suc n" using n by (simp add: Len_def)
  show x: "fst (heap_pop s) = ?x" using len by (simp add: heap_pop_def Let_def)
  show sl: "pq_slice t = take n (pq_slice s)" using len by (simp add: t_def heap_pop_def Let_def)
  have obj: "pq_objs t = (pq_objs s)(?x := (pq_objs s ?x)\<lparr>el_index := -1, el_heap := None\<rparr>)"
    using len by (simp add: t_def heap_pop_def Let_def)
  show h: "pq_h t = pq_h s" and nx: "pq_next t = pq_next s" and "pq_sequence t = pq_sequence s"
    by (simp_all add: t_def heap_pop_def Let_def)
  show ko: "key_of t = key_of s" by (auto simp: fun_eq_iff key_of_def el_key_def obj)
  then show "keys t = take n (keys s)" by (simp add: keys_def sl take_map)
  show "\<And>p. el_Value (pq_objs t p) = el_Value (pq_objs s p)" by (simp add: obj)
  have d: "distinct (pq_slice s)" using wf by (simp add: pq_wf_def)
  have ne: "pq_slice s ! i \<noteq> ?x" if "i < n" for i
    using d that len by (simp add: nth_eq_iff_index_eq)
  have "set (take n (pq_slice s)) \<union> {?x} = set (pq_slice s)"
    using len by (metis Un_insert_right insert_is_Un lessI list.simps(15) set_append sup_bot.right_neutral
        take_Suc_conv_app_nth take_all_iff order_refl set_ConsD list.set(1) list.set(2))
  then have outside: "p = ?x \<or> p \<notin> set (pq_slice s)" if "p \<notin> set (take n (pq_slice s))" for p
    using that by blast
  have "el_heap (pq_objs t p) \<noteq> Some (pq_h s)" if "p \<notin> set (take n (pq_slice s))" for p
    using outside[OF that] wf by (auto simp: obj pq_wf_def)
  moreover have "el_index (at t i) = int i \<and> el_heap (at t i) = Some (pq_h s)" if "i < n" for i
    using that ne[OF that] wf len by (auto simp: at_def sl obj pq_wf_def)
  moreover have "\<forall>p \<in> set (take n (pq_slice s)). p < pq_next s"
    using wf by (auto simp: pq_wf_def dest: in_set_takeD)
  ultimately show "pq_wf t"
    using d len unfolding pq_wf_def sl h nx by simp
qed

text \<open>A queue made on memory without elements of its heap is well formed.\<close>

lemma NewPriorityQueue_inv:
  "(\<And>p. el_heap (objs p) \<noteq> Some h) \<Longrightarrow> pq_inv (NewPriorityQueue h objs nxt sq)"
  by (simp add: pq_inv_def pq_wf_def heap_ok_def NewPriorityQueue_def Len_def)

lemma Push_props:
  fixes s :: "'a pqueue" and x :: 'a and prio :: int
  assumes inv: "pq_inv s"
  defines "t \<equiv> snd (Push x prio s)"
  shows "fst (Push x prio s) = pq_next s" and "pq_inv t"
    and "mset (pq_slice t) = add_mset (pq_next s) (mset (pq_slice s))"
    and "key_of t = (key_of s)(pq_next s := (prio, pq_sequence s + 1))"
    and "pq_sequence t = pq_sequence s + 1" and "pq_next t = Suc (pq_next s)"
    and "pq_h t = pq_h s"
    and "\<And>p. el_Value (pq_objs t p) = (if p = pq_next s then x else el_Value (pq_objs s p))"
proof -
  let ?p = "pq_next s"
  define s2 where "s2 = heap_push
    (s\<lparr>pq_sequence := pq_sequence s + 1, pq_next := Suc ?p,
       pq_objs := (pq_objs s)(?p := \<lparr>el_Value = x, el_priority = prio, el_seq = pq_sequence s + 1,
                                     el_index = 0, el_heap = None\<rparr>)\<rparr>) ?p"
  have t: "t = up s2 (Len s2 - 1)" by (simp add: t_def Push_def s2_def Let_def)
  show "fst (Push x prio s) = pq_next s" by (simp add: Push_def Let_def)
  have sl: "pq_slice s2 = pq_slice s @ [?p]" by (simp add: s2_def heap_push_def)
  have len: "Len s2 = Suc (Len s)" by (simp add: sl Len_def)
  have k2: "key_of s2 = (key_of s)(?p := (prio, pq_sequence s + 1))"
    by (auto simp: fun_eq_iff s2_def heap_push_def key_of_def el_key_def)
  have wf: "pq_wf s" using inv by (simp add: pq_inv_def)
  then have fresh: "?p \<notin> set (pq_slice s)" by (auto simp: pq_wf_def)
  have ks: "keys s2 = keys s @ [(prio, pq_sequence s + 1)]"
    using fresh by (auto simp: keys_def sl k2)
  have obj: "pq_objs s2 = (pq_objs s)(?p := \<lparr>el_Value = x, el_priority = prio,
      el_seq = pq_sequence s + 1, el_index = int (Len s), el_heap = Some (pq_h s)\<rparr>)"
    by (simp add: s2_def heap_push_def Len_def)
  have h2: "pq_h s2 = pq_h s" "pq_next s2 = Suc ?p" "pq_sequence s2 = pq_sequence s + 1"
    by (simp_all add: s2_def heap_push_def)
  have wf2: "pq_wf s2"
    using wf fresh unfolding pq_wf_def
    by (auto simp: sl obj h2 at_def nth_append Len_def less_Suc_eq dest: nth_mem)
  have "near_up (keys s2) (Len s) (Suc (Len s))"
    using inv by (auto simp: near_up_def ks nth_append pq_inv_def heap_ok_def less_Suc_eq)
  then have hp: "heap_ok (keys t) (Len s2)" using up_heap[of "Len s" "Len s2" s2] len by (simp add: t)
  have up: "shuffled s2 t \<and> pq_wf t" using up_props[OF wf2, of "Len s"] len by (simp add: t)
  then have lt: "Len t = Len s2" using shuffled_length[of s2 t] by (simp add: Len_def)
  show "pq_inv t" using up hp lt by (simp add: pq_inv_def)
  show "mset (pq_slice t) = add_mset ?p (mset (pq_slice s))"
    using up by (simp add: shuffled_def sl)
  show "key_of t = (key_of s)(?p := (prio, pq_sequence s + 1))"
    using up k2 by (simp add: shuffled_def fun_eq_iff)
  show "pq_sequence t = pq_sequence s + 1" "pq_next t = Suc ?p" "pq_h t = pq_h s"
    using up h2 by (simp_all add: shuffled_def)
  show "\<And>p. el_Value (pq_objs t p) = (if p = ?p then x else el_Value (pq_objs s p))"
    using up by (simp add: shuffled_def obj)
qed

lemma heap_ok_take: "heap_ok ks n \<Longrightarrow> heap_ok (take n ks) n"
  unfolding heap_ok_def by (metis (no_types, lifting) less_trans nth_take parent_less)

text \<open>Both removals end the same way: the last slot holds the element, the rest is a heap.\<close>

lemma drop_last_slot:
  assumes sh: "shuffled s s1" and wf: "pq_wf s1" and n: "Len s = Suc n"
    and hp: "heap_ok (keys s1) n" and last: "pq_slice s1 ! n = p"
  defines "t \<equiv> snd (heap_pop s1)"
  shows "fst (heap_pop s1) = p" "pq_inv t" "mset (pq_slice s) = add_mset p (mset (pq_slice t))"
    "key_of t = key_of s" "pq_h t = pq_h s" "pq_next t = pq_next s" "pq_sequence t = pq_sequence s"
    "\<And>q. el_Value (pq_objs t q) = el_Value (pq_objs s q)"
proof -
  have n1: "Len s1 = Suc n" using shuffled_length[OF sh] n by (simp add: Len_def)
  note hpp = heap_pop_props[OF wf n1, folded t_def]
  show "fst (heap_pop s1) = p" using hpp(1) last by simp
  have lt: "Len t = n" using hpp(2) n1 by (simp add: Len_def)
  show "pq_inv t" using hpp(3,4) hp lt by (simp add: pq_inv_def heap_ok_take)
  have "pq_slice s1 = take n (pq_slice s1) @ [p]"
    using n1 last by (metis Len_def lessI order_refl take_Suc_conv_app_nth take_all)
  then have "mset (pq_slice s1) = add_mset p (mset (pq_slice t))"
    using hpp(2) by (metis mset_append union_mset_add_mset_right mset_single_iff_right
        add_mset_add_single)
  then show "mset (pq_slice s) = add_mset p (mset (pq_slice t))" using sh by (simp add: shuffled_def)
  show "key_of t = key_of s" using hpp(5) sh by (simp add: shuffled_def fun_eq_iff)
  show "pq_h t = pq_h s" "pq_next t = pq_next s" "pq_sequence t = pq_sequence s"
    using hpp(6,7,8) sh by (simp_all add: shuffled_def)
  show "\<And>q. el_Value (pq_objs t q) = el_Value (pq_objs s q)" using hpp(9) sh by (simp add: shuffled_def)
qed

lemma swapped_near_down:
  fixes ks :: "'k::linorder list"
  assumes h: "heap_ok ks (Suc n)" and n: "length ks = Suc n" and i: "i < n"
  shows "near_down (swapped ks i n) i n"
proof -
  have nth: "swapped ks i n ! k = ks ! k" if "k < n" "k \<noteq> i" for k using that by simp
  have le: "ks ! ((k - 1) div 2) \<le> ks ! k" if "0 < k" "k < n" for k
    using h that by (simp add: heap_ok_def)
  have "swapped ks i n ! ((k - 1) div 2) \<le> swapped ks i n ! k"
    if "0 < k" "k < n" "(k - 1) div 2 \<noteq> i" "k \<noteq> i" for k
    using le[of k] nth[of k] nth[of "(k - 1) div 2"] that parent_less[of k] by simp
  moreover have "swapped ks i n ! ((i - 1) div 2) \<le> swapped ks i n ! k"
    if k: "0 < k" "k < n" "(k - 1) div 2 = i" "0 < i" for k
  proof -
    have "ks ! ((i - 1) div 2) \<le> ks ! k" using le[of i] le[of k] k i by auto
    then show ?thesis using nth[of k] nth[of "(i - 1) div 2"] k i parent_less[of i] by auto
  qed
  ultimately show ?thesis unfolding near_down_def by blast
qed

lemma pq_inv_min:
  assumes inv: "pq_inv s" and q: "q \<in> set (pq_slice s)"
  shows "key_of s (pq_slice s ! 0) \<le> key_of s q"
proof -
  obtain k where k: "k < Len s" "q = pq_slice s ! k" using q by (auto simp: in_set_conv_nth Len_def)
  have "keys s ! 0 \<le> keys s ! k" using inv heap_ok_min k(1) by (auto simp: pq_inv_def)
  moreover have "0 < length (pq_slice s)" using k(1) by (auto simp: Len_def)
  ultimately show ?thesis using k by (simp add: keys_def Len_def)
qed

lemma Pop_props:
  assumes inv: "pq_inv s" and pop: "Pop s = Ret (p, t)"
  shows "p = pq_slice s ! 0" "pq_inv t" "mset (pq_slice s) = add_mset p (mset (pq_slice t))"
    "key_of t = key_of s" "pq_h t = pq_h s" "pq_next t = pq_next s" "pq_sequence t = pq_sequence s"
    "\<And>q. el_Value (pq_objs t q) = el_Value (pq_objs s q)"
    "\<And>q. q \<in> set (pq_slice s) \<Longrightarrow> key_of s p \<le> key_of s q"
proof -
  from pop obtain n where n: "Len s = Suc n" by (cases "Len s") (auto simp: Pop_def)
  define s0 where "s0 = Swap s 0 n"
  define s1 where "s1 = fst (down s0 0 n)"
  have pt: "(p, t) = heap_pop s1" using pop n by (simp add: Pop_def Let_def s0_def s1_def)
  have wf: "pq_wf s" and hp: "heap_ok (keys s) (Suc n)" using inv n by (simp_all add: pq_inv_def)
  have wf0: "pq_wf s0" and sh0: "shuffled s s0" using wf n by (simp_all add: s0_def Swap_wf Swap_shuffled)
  have len: "length (pq_slice s) = Suc n" using n by (simp add: Len_def)
  have sl: "pq_slice s0 ! n = pq_slice s ! 0" using len by (simp add: s0_def)
  have main: "shuffled s0 s1 \<and> pq_wf s1 \<and> heap_ok (keys s1) n \<and> pq_slice s1 ! n = pq_slice s0 ! n"
  proof (cases "n = 0")
    case True
    then have "s1 = s0" by (simp add: s1_def down_unfold[of s0 0 0])
    then show ?thesis using wf0 True by (simp add: heap_ok_def)
  next
    case False
    have "keys s0 = swapped (keys s) 0 n" using keys_Swap[of 0 s n] n by (simp add: s0_def)
    then have "near_down (keys s0) 0 n" using swapped_near_down[OF hp, of 0] n False by simp
    then show ?thesis
      using down_heap[of s0 0 n] down_props[OF wf0, of 0 n] False n by (simp add: s1_def s0_def)
  qed
  have "pq_slice s1 ! n = pq_slice s ! 0" using main sl by simp
  note d = drop_last_slot[OF shuffled_trans[OF sh0] _ n _ this, of, OF conjunct1[OF main]]
  have p1: "p = fst (heap_pop s1)" and t1: "t = snd (heap_pop s1)" using pt by (metis fst_conv snd_conv)+
  show "p = pq_slice s ! 0" using d(1) main p1 by simp
  then show "pq_inv t" "mset (pq_slice s) = add_mset p (mset (pq_slice t))"
    "key_of t = key_of s" "pq_h t = pq_h s" "pq_next t = pq_next s" "pq_sequence t = pq_sequence s"
    "\<And>q. el_Value (pq_objs t q) = el_Value (pq_objs s q)"
    "\<And>q. q \<in> set (pq_slice s) \<Longrightarrow> key_of s p \<le> key_of s q"
    using d(2-) main t1 pq_inv_min[OF inv] by simp_all
qed

lemma Remove_props:
  assumes inv: "pq_inv s" and mem: "p \<in> set (pq_slice s)"
  defines "t \<equiv> snd (Remove p s)"
  shows "fst (Remove p s)" "pq_inv t" "mset (pq_slice s) = add_mset p (mset (pq_slice t))"
    "key_of t = key_of s" "pq_h t = pq_h s" "pq_next t = pq_next s" "pq_sequence t = pq_sequence s"
    "\<And>q. el_Value (pq_objs t q) = el_Value (pq_objs s q)"
proof -
  have wf: "pq_wf s" and hp: "heap_ok (keys s) (Len s)" using inv by (simp_all add: pq_inv_def)
  obtain i where i: "i < Len s" "p = pq_slice s ! i" using mem by (auto simp: in_set_conv_nth Len_def)
  obtain n where n: "Len s = Suc n" using i by (cases "Len s") auto
  have obj: "el_index (pq_objs s p) = int i" "el_heap (pq_objs s p) = Some (pq_h s)"
    using wf i by (simp_all add: pq_wf_def at_def Len_def)
  define s1 where "s1 = (if n \<noteq> i then let s0 = Swap s i n; (sd, i') = down s0 i n
                         in if i' > i then sd else up sd i else s)"
  have rem: "Remove p s = (True, snd (heap_pop s1))"
    using obj n by (simp add: Remove_def Let_def s1_def)
  have main: "shuffled s s1 \<and> pq_wf s1 \<and> heap_ok (keys s1) n \<and> pq_slice s1 ! n = p"
  proof (cases "n = i")
    case True
    then show ?thesis using wf hp n i by (auto simp: s1_def heap_ok_def)
  next
    case False
    then have lt: "i < n" using i(1) n by simp
    let ?s0 = "Swap s i n"
    have wf0: "pq_wf ?s0" and sh0: "shuffled s ?s0" and ks0: "keys ?s0 = swapped (keys s) i n"
      using wf lt n by (simp_all add: Swap_wf Swap_shuffled keys_Swap)
    have sl0: "pq_slice ?s0 ! n = p" using lt n i(2) by (simp add: Len_def)
    have nd: "near_down (keys ?s0) i n" using swapped_near_down[OF hp[unfolded n] _ lt] n ks0 by simp
    have len0: "n \<le> Len ?s0" using n by simp
    note cs = down_moved_or_near_up[OF nd lt len0 wf0]
    note dp = down_props[OF wf0 lt len0]
    show ?thesis
    proof (cases "snd (down ?s0 i n) > i")
      case True
      then have "s1 = fst (down ?s0 i n)" using False by (simp add: s1_def Let_def case_prod_beta)
      then show ?thesis using cs dp True sl0 shuffled_trans[OF sh0] by auto
    next
      case False
      then have d: "down ?s0 i n = (?s0, i)" and nu: "near_up (keys ?s0) i n" using cs by auto
      have "s1 = up ?s0 i" using \<open>n \<noteq> i\<close> d by (simp add: s1_def Let_def)
      then show ?thesis
        using up_heap[OF lt len0 nu] up_props[OF wf0, of i] lt n sl0 shuffled_trans[OF sh0] by auto
    qed
  qed
  note d = drop_last_slot[OF conjunct1[OF main] _ n]
  have t1: "t = snd (heap_pop s1)" using rem by (simp add: t_def)
  show "fst (Remove p s)" using rem by simp
  show "pq_inv t" "mset (pq_slice s) = add_mset p (mset (pq_slice t))"
    "key_of t = key_of s" "pq_h t = pq_h s" "pq_next t = pq_next s" "pq_sequence t = pq_sequence s"
    "\<And>q. el_Value (pq_objs t q) = el_Value (pq_objs s q)"
    using d(2-) main t1 by simp_all
qed

lemma Remove_not_member:
  "pq_inv s \<Longrightarrow> p \<notin> set (pq_slice s) \<Longrightarrow> Remove p s = (False, s)"
  by (simp add: Remove_def pq_inv_def pq_wf_def Let_def)

lemma Pop_Ret: "pq_slice s \<noteq> [] \<Longrightarrow> \<exists>p t. Pop s = Ret (p, t)"
  by (simp add: Pop_def Len_def Let_def)

lemma Pop_Panic: "Pop s = Panic e \<longleftrightarrow> pq_slice s = [] \<and> e = ''index out of range''"
  by (auto simp: Pop_def Len_def Let_def)

section \<open>The contract of a priority queue and its clients\<close>

text \<open>What a client of the queue relies on, with the queue seen as a multiset of pointers.\<close>

locale prio_queue =
  fixes inv :: "'s \<Rightarrow> bool"
    and elems :: "'s \<Rightarrow> nat multiset"
    and key :: "'s \<Rightarrow> nat \<Rightarrow> 'k::linorder"
    and pop :: "'s \<Rightarrow> (nat \<times> 's) go"
  assumes pop_total: "inv s \<Longrightarrow> elems s \<noteq> {#} \<Longrightarrow> \<exists>p t. pop s = Ret (p, t)"
    and pop_inv: "inv s \<Longrightarrow> pop s = Ret (p, t) \<Longrightarrow> inv t"
    and pop_elems: "inv s \<Longrightarrow> pop s = Ret (p, t) \<Longrightarrow> elems s = add_mset p (elems t)"
    and pop_key: "inv s \<Longrightarrow> pop s = Ret (p, t) \<Longrightarrow> key t = key s"
    and pop_min: "inv s \<Longrightarrow> pop s = Ret (p, t) \<Longrightarrow> q \<in># elems s \<Longrightarrow> key s p \<le> key s q"
begin

lemma drain_sorted:
  "inv s \<Longrightarrow> size (elems s) = k \<Longrightarrow> drain pop k s = (ps, t) \<Longrightarrow>
   mset ps = elems s \<and> sorted (map (key s) ps) \<and> elems t = {#} \<and> inv t"
proof (induction k arbitrary: s ps t)
  case 0
  then show ?case by simp
next
  case (Suc k)
  from Suc.prems(2) have "elems s \<noteq> {#}" by auto
  then obtain p u where pop: "pop s = Ret (p, u)" using pop_total Suc.prems(1) by blast
  obtain qs v where d: "drain pop k u = (qs, v)" by fastforce
  have e: "elems s = add_mset p (elems u)" using pop_elems Suc.prems(1) pop by blast
  then have "size (elems u) = k" using Suc.prems(2) by simp
  then have IH: "mset qs = elems u" "sorted (map (key u) qs)" "elems v = {#}" "inv v"
    using Suc.IH[OF pop_inv[OF Suc.prems(1) pop] _ d] by auto
  have "key s p \<le> key s q" if "q \<in> set qs" for q
  proof -
    have "q \<in># elems u" using that IH(1) by (metis set_mset_mset)
    then show ?thesis using pop_min[OF Suc.prems(1) pop] e by simp
  qed
  moreover have "ps = p # qs" "t = v" using Suc.prems(3) pop d by auto
  ultimately show ?case using IH e pop_key[OF Suc.prems(1) pop] by simp
qed

end

interpretation pqueue: prio_queue pq_inv "\<lambda>s. mset (pq_slice s)" key_of Pop
proof unfold_locales
  fix s :: "'a pqueue"
  assume "pq_inv s" "mset (pq_slice s) \<noteq> {#}"
  then show "\<exists>p t. Pop s = Ret (p, t)" using Pop_Ret by auto
qed (use Pop_props in auto)

text \<open>\<open>Remove\<close> of any element, member or not, keeps the queue well formed and adds nothing.\<close>

lemma Remove_any:
  assumes "pq_inv s"
  shows "pq_inv (snd (Remove p s))" "set (pq_slice (snd (Remove p s))) \<subseteq> set (pq_slice s)"
    "el_Value (pq_objs (snd (Remove p s)) q) = el_Value (pq_objs s q)"
proof (atomize (full), cases "p \<in> set (pq_slice s)")
  case True
  note r = Remove_props[OF assms True]
  from r(3) have "set (pq_slice (snd (Remove p s))) \<subseteq> set (pq_slice s)"
    by (metis set_mset_add_mset_insert set_mset_mset subset_insertI)
  then show "pq_inv (snd (Remove p s)) \<and> set (pq_slice (snd (Remove p s))) \<subseteq> set (pq_slice s) \<and>
    el_Value (pq_objs (snd (Remove p s)) q) = el_Value (pq_objs s q)" using r by simp
qed (simp_all add: assms Remove_not_member[OF assms])

lemma pq_exec_inv [go_inv]: "pq_inv s \<Longrightarrow> pq_exec c s = Ret t \<Longrightarrow> pq_inv t"
proof (cases c)
  case (CRemove p)
  assume "pq_inv s" "pq_exec c s = Ret t"
  with CRemove show ?thesis
    by (cases "p \<in> set (pq_slice s)") (auto simp: Remove_props(2) Remove_not_member)
next
  case CPop
  assume "pq_inv s" "pq_exec c s = Ret t"
  with CPop show ?thesis by (cases "Pop s") (auto simp: Pop_props(2))
qed (auto simp: Push_props(2))

lemma pq_run_inv [go_inv]: "pq_inv s \<Longrightarrow> pq_run cs s = Ret t \<Longrightarrow> pq_inv t"
proof (induction cs arbitrary: s)
  case (Cons c cs)
  then show ?case by (cases "pq_exec c s") (auto intro: pq_exec_inv)
qed simp

subsection \<open>Draining gives the stable order of insertion\<close>

text \<open>Sorting by priority is stable, so a list in the order of the second key comes out in the
  lexicographic order of both.\<close>

lemma sorted_insort_key_lex:
  assumes "sorted (map (\<lambda>x. (f x, g x)) ys)" "\<forall>y \<in> set ys. g x \<le> g y"
  shows "sorted (map (\<lambda>x. (f x, g x)) (insort_key f x ys))"
  using assms
  by (induction ys) (auto simp: set_insort_key less_eq_prod_def intro: order.strict_implies_order)

lemma sorted_sort_key_lex:
  "sorted (map g xs) \<Longrightarrow> sorted (map (\<lambda>x. (f x, g x)) (sort_key f xs))"
  by (induction xs) (auto intro!: sorted_insort_key_lex)

lemma sorted_key_unique:
  assumes "mset xs = mset ys" "sorted (map k xs)" "sorted (map k ys)" "inj_on k (set xs)"
  shows "xs = ys"
  using sort_key_inj_key_eq[of xs ys k] sort_key_inj_key_eq[of xs xs k] assms by simp

lemma sort_key_map: "map g (sort_key (\<lambda>x. f (g x)) xs) = sort_key f (map g xs)"
proof (induction xs)
  case (Cons a xs)
  have "map g (insort_key (\<lambda>x. f (g x)) a ys) = insort_key f (g a) (map g ys)" for ys
    by (induction ys) auto
  with Cons show ?case by simp
qed simp

lemma unat_seq: "unat (sq :: 64 word) + m < 2 ^ 64 \<Longrightarrow> unat (sq + of_nat m) = unat sq + m"
  by (simp add: unat_word_ariths unat_of_nat)

lemma push_all_props:
  "pq_inv s \<Longrightarrow>
   pq_inv (push_all xs s) \<and>
   mset (pq_slice (push_all xs s)) = mset (pq_slice s) + mset [pq_next s ..< pq_next s + length xs] \<and>
   (\<forall>i < length xs. key_of (push_all xs s) (pq_next s + i) = (snd (xs ! i), pq_sequence s + of_nat (Suc i)) \<and>
      el_Value (pq_objs (push_all xs s) (pq_next s + i)) = fst (xs ! i)) \<and>
   (\<forall>p < pq_next s. key_of (push_all xs s) p = key_of s p \<and>
      el_Value (pq_objs (push_all xs s) p) = el_Value (pq_objs s p))"
proof (induction xs arbitrary: s)
  case Nil
  then show ?case by simp
next
  case (Cons a xs)
  obtain x prio where a: "a = (x, prio)" by fastforce
  let ?t = "snd (Push x prio s)"
  note pp = Push_props[OF Cons.prems, of x prio]
  note IH = Cons.IH[OF pp(2)]
  have upt: "mset [pq_next s ..< pq_next s + length (a # xs)] =
      add_mset (pq_next s) (mset [Suc (pq_next s) ..< Suc (pq_next s) + length xs])"
    by (simp add: upt_rec[of "pq_next s"] Suc_le_eq)
  have later: "key_of (push_all (a # xs) s) (pq_next s + i) = (snd ((a # xs) ! i), pq_sequence s + of_nat (Suc i)) \<and>
      el_Value (pq_objs (push_all (a # xs) s) (pq_next s + i)) = fst ((a # xs) ! i)"
    if "i < length (a # xs)" for i
  proof (cases i)
    case 0
    then show ?thesis using IH pp by (simp add: a)
  next
    case (Suc k)
    then show ?thesis using IH pp that by (simp add: a algebra_simps)
  qed
  show ?case using IH pp upt later by (simp add: a)
qed

text \<open>C20. Any sequence of pushes, pops and removals of any pointers keeps the heap in order, every
  element's index equal to its slot, and the elements outside the queue detached from it.\<close>

theorem queue_calls_keep_invariant:
  assumes "\<And>p. el_heap (objs p) \<noteq> Some h"
    and "pq_run calls (NewPriorityQueue h objs nxt sq) = Ret s"
  shows "pq_wf s \<and> heap_ok (keys s) (Len s)"
  using pq_run_inv[OF NewPriorityQueue_inv[OF assms(1)] assms(2)] by (simp add: pq_inv_def)

abbreviation mem0 :: "nat \<Rightarrow> nat element" where
  "mem0 \<equiv> \<lambda>_. \<lparr>el_Value = 0, el_priority = 0, el_seq = 0, el_index = -1, el_heap = None\<rparr>"

theorem queue_calls_keep_invariant_witness:
  "\<exists>s. pq_run [CPush 7 5, CPush 8 3, CPop, CPush 9 1, CRemove 0] (NewPriorityQueue 0 mem0 0 0) = Ret s \<and>
     pq_slice s = [2] \<and> pq_wf s \<and> heap_ok (keys s) (Len s)"
proof -
  have "(case pq_run [CPush 7 5, CPush 8 3, CPop, CPush 9 1, CRemove 0] (NewPriorityQueue 0 mem0 0 0) of
      Ret s \<Rightarrow> pq_slice s | Panic _ \<Rightarrow> []) = [2]"
    by code_simp
  then obtain s where "pq_run [CPush 7 5, CPush 8 3, CPop, CPush 9 1, CRemove 0]
      (NewPriorityQueue 0 mem0 0 0) = Ret s" "pq_slice s = [2]"
    by (auto split: go.splits)
  moreover have "\<And>p. el_heap (mem0 p) \<noteq> Some 0" by simp
  ultimately show ?thesis using queue_calls_keep_invariant[of mem0 0] by blast
qed

text \<open>C9. Draining a queue into which values were pushed gives them back sorted by priority, and
  values of the same priority in the order of their insertion, as long as the 64-bit sequence
  counter does not wrap.\<close>

theorem drain_is_stable_sort:
  assumes inv: "pq_inv q" and empty: "pq_slice q = []"
    and nowrap: "unat (pq_sequence q) + length xs < 2 ^ 64"
    and dr: "drain Pop (length xs) (push_all xs q) = (ps, t)"
  shows "map (\<lambda>p. (el_Value (pq_objs (push_all xs q) p), Priority (pq_objs (push_all xs q) p))) ps
         = sort_key snd xs \<and> pq_slice t = []"
proof (intro conjI)
  let ?s = "push_all xs q" and ?nx = "pq_next q" and ?n = "length xs"
  let ?ptrs = "[?nx ..< ?nx + ?n]"
  note pa = push_all_props[OF inv, of xs]
  have mset: "mset (pq_slice ?s) = mset ?ptrs" using pa empty by simp
  have size: "size (mset (pq_slice ?s)) = ?n" unfolding mset by simp
  have d: "mset ps = mset ?ptrs" "sorted (map (key_of ?s) ps)" "mset (pq_slice t) = {#}"
    using pqueue.drain_sorted[OF _ size dr] pa mset by auto
  have seq: "snd (key_of ?s (?nx + i)) = pq_sequence q + of_nat (Suc i)" if "i < ?n" for i
    using pa that by simp
  have useq: "unat (snd (key_of ?s p)) = unat (pq_sequence q) + Suc (p - ?nx)"
    if "p \<in> set ?ptrs" for p
    using seq[of "p - ?nx"] unat_seq[of "pq_sequence q" "Suc (p - ?nx)"] that nowrap
    by (simp add: less_diff_conv2)
  have "sorted (map (\<lambda>p. snd (key_of ?s p)) ?ptrs)"
    using useq by (auto simp: sorted_iff_nth_mono word_le_nat_alt)
  then have "sorted (map (key_of ?s) (sort_key (\<lambda>p. fst (key_of ?s p)) ?ptrs))"
    using sorted_sort_key_lex[of "\<lambda>p. snd (key_of ?s p)" ?ptrs "\<lambda>p. fst (key_of ?s p)"] by simp
  moreover have "inj_on (key_of ?s) (set ps)"
  proof (rule inj_onI)
    fix p r assume pr: "p \<in> set ps" "r \<in> set ps" and eq: "key_of ?s p = key_of ?s r"
    have "p \<in> set ?ptrs" "r \<in> set ?ptrs" using pr d(1) by (metis mset_eq_setD)+
    then show "p = r" using useq[of p] useq[of r] eq by (auto simp: le_diff_conv2)
  qed
  ultimately have ps: "ps = sort_key (\<lambda>p. fst (key_of ?s p)) ?ptrs"
    using sorted_key_unique[OF _ d(2)] d(1) by simp
  let ?f = "\<lambda>p. (el_Value (pq_objs ?s p), Priority (pq_objs ?s p))"
  have "map ?f ?ptrs = xs"
  proof (rule nth_equalityI)
    fix i assume "i < length (map ?f ?ptrs)"
    then have i: "i < ?n" by simp
    then have "key_of ?s (?nx + i) = (snd (xs ! i), pq_sequence q + of_nat (Suc i))"
      "el_Value (pq_objs ?s (?nx + i)) = fst (xs ! i)" using pa by blast+
    then show "map ?f ?ptrs ! i = xs ! i" using i by (simp add: Priority_def key_of_def el_key_def)
  qed simp
  then show "map ?f ps = sort_key snd xs"
    using sort_key_map[of ?f snd ?ptrs] unfolding ps by (simp add: Priority_def key_of_def el_key_def)
  show "pq_slice t = []" using d(3) by simp
qed

theorem drain_is_stable_sort_witness:
  "let q = NewPriorityQueue 0 mem0 0 0; s = push_all [(10, 2), (11, 1), (12, 2), (13, 1)] q;
       r = drain Pop 4 s
   in map (\<lambda>p. (el_Value (pq_objs s p), Priority (pq_objs s p))) (fst r)
        = [(11, 1), (13, 1), (10, 2), (12, 2)] \<and> pq_slice (snd r) = []"
proof -
  let ?q = "NewPriorityQueue 0 mem0 0 0" and ?xs = "[(10::nat, 2::int), (11, 1), (12, 2), (13, 1)]"
  have inv: "pq_inv ?q" by (rule NewPriorityQueue_inv) simp
  have e: "pq_slice ?q = []" and n: "unat (pq_sequence ?q) + length ?xs < 2 ^ 64"
    by (simp_all add: NewPriorityQueue_def)
  obtain ps t where d: "drain Pop (length ?xs) (push_all ?xs ?q) = (ps, t)" by fastforce
  have "sort_key snd ?xs = [(11, 1), (13, 1), (10, 2), (12, 2)]" by simp
  moreover have "drain Pop 4 (push_all ?xs ?q) = (ps, t)"
    using d by (simp add: numeral_eq_Suc del: push_all.simps drain.simps)
  ultimately show ?thesis
    using drain_is_stable_sort[OF inv e n d] by (simp only: Let_def fst_conv snd_conv)
qed

text \<open>\<open>Remove\<close> of an element of the queue reports true and takes exactly that element out, from
  then on \<open>Remove\<close> of the same pointer reports false and changes nothing.\<close>

lemma remove_takes_out_once:
  assumes inv: "pq_inv s" and mem: "p \<in> set (pq_slice s)"
  shows "fst (Remove p s) \<and> mset (pq_slice (snd (Remove p s))) = mset (pq_slice s) - {#p#} \<and>
     pq_inv (snd (Remove p s)) \<and> Remove p (snd (Remove p s)) = (False, snd (Remove p s))"
proof (intro conjI)
  let ?t = "snd (Remove p s)"
  note rp = Remove_props[OF inv mem]
  show "fst (Remove p s)" and "pq_inv ?t" by (fact rp)+
  show m: "mset (pq_slice ?t) = mset (pq_slice s) - {#p#}" using rp(3) by simp
  have "distinct (pq_slice s)" using inv by (simp add: pq_inv_def pq_wf_def)
  then have "p \<notin> set (pq_slice ?t)"
    using rp(3) by (metis distinct.simps(2) mset.simps(2) mset_eq_imp_distinct_iff)
  then show "Remove p ?t = (False, ?t)" using Remove_not_member rp(2) by blast
qed

lemma remove_takes_out_once_witness:
  "let s = push_all [(10, 2), (11, 1), (12, 0)] (NewPriorityQueue 0 mem0 0 0); t = snd (Remove 1 s)
   in 1 \<in> set (pq_slice s) \<and> fst (Remove 1 s) \<and> mset (pq_slice t) = {#0, 2#} \<and> \<not> fst (Remove 1 t)"
proof -
  let ?s = "push_all [(10::nat, 2::int), (11, 1), (12, 0)] (NewPriorityQueue 0 mem0 0 0)"
  have inv: "pq_inv (NewPriorityQueue 0 mem0 0 0)" by (rule NewPriorityQueue_inv) simp
  have inv': "pq_inv ?s" and ms: "mset (pq_slice ?s) = {#0, 1, 2#}"
    using push_all_props[OF inv, of "[(10, 2), (11, 1), (12, 0)]"]
    by (simp_all add: NewPriorityQueue_def upt_rec)
  then have mem: "1 \<in> set (pq_slice ?s)" by (metis insert_iff set_mset_add_mset_insert set_mset_mset)
  show ?thesis using remove_takes_out_once[OF inv' mem] mem ms by (simp add: Let_def)
qed

end
