(* ===== verification/Executor.thy ===== *)
theory Executor
  imports Task PriorityQueue
begin

text \<open>
  Package \<^verbatim>\<open>executors\<close>, file \<^verbatim>\<open>executors_default.go\<close>. The state of \<^verbatim>\<open>DefaultExecutor\<close> is a record;
  tasks and list elements are addressed by pointers. One function models each method the event loop
  calls, and \<open>handle\<close> one turn of the loop for an event. A turn either continues, returns from the
  loop, or crashes with a panic. The goroutines the executor starts are the multiset of the tasks
  they run. The queue is Go's \<^verbatim>\<open>container/list\<close>: its \<^verbatim>\<open>Init\<close> drops the elements without
  detaching them, so those elements are kept as orphans, and removing an orphan (which would corrupt
  the links of the list) is a crash of the model.
\<close>

section \<open>State\<close>

datatype exec_status =
  ExecutorStatusRunning | ExecutorStatusShuttingDown | ExecutorStatusWaitingTermination
| ExecutorStatusTerminated

fun exec_status_iota :: "exec_status \<Rightarrow> nat" where
  "exec_status_iota ExecutorStatusRunning = 0"
| "exec_status_iota ExecutorStatusShuttingDown = 1"
| "exec_status_iota ExecutorStatusWaitingTermination = 2"
| "exec_status_iota ExecutorStatusTerminated = 3"

lemma exec_status_iota_inject: "exec_status_iota a = exec_status_iota b \<longleftrightarrow> a = b"
  by (cases a; cases b) simp_all

instantiation exec_status :: linorder
begin

definition less_eq_exec_status :: "exec_status \<Rightarrow> exec_status \<Rightarrow> bool" where
  "less_eq_exec_status a b \<longleftrightarrow> exec_status_iota a \<le> exec_status_iota b"

definition less_exec_status :: "exec_status \<Rightarrow> exec_status \<Rightarrow> bool" where
  "less_exec_status a b \<longleftrightarrow> exec_status_iota a < exec_status_iota b"

instance
  by standard (auto simp: less_eq_exec_status_def less_exec_status_def exec_status_iota_inject)

end

record 'v executor =
  e_status :: exec_status
  e_queue :: "(nat \<times> nat) list"
  e_orphans :: "nat list"
  e_nextElem :: nat
  e_sched :: "nat pqueue"
  e_timerArmed :: bool
  e_timerTarget :: int
  e_capacity :: int
  e_concurrency :: int
  e_running :: int
  e_taskCount :: "64 word"
  e_termClosed :: bool
  e_tasks :: "nat \<Rightarrow> 'v task"
  e_nextTask :: nat
  e_goroutines :: "nat multiset"

datatype event =
    TaskCompletedEvent nat
  | TaskCanceledEvent nat
  | TaskSubmittedEvent nat
  | CancelEvent
  | UpdateConcurrencyEvent int
  | UpdateQueueCapacityEvent int
  | CancelNowEvent

datatype reply = NoReply | CancelReply bool | FuturesReply "nat list option"

datatype 'v turn = Continue "'v executor" reply | Return "'v executor" reply | Crash string

text \<open>The memory in which the executor starts: tasks and queue elements not yet allocated.\<close>

definition NewDefaultExecutor ::
    "int \<Rightarrow> int \<Rightarrow> int \<Rightarrow> (nat \<Rightarrow> 'v task) \<Rightarrow> nat pqueue \<Rightarrow> 'v executor" where
  "NewDefaultExecutor now concurrency queueCapacity tasks sched =
     \<lparr>e_status = ExecutorStatusRunning, e_queue = [], e_orphans = [], e_nextElem = 0, e_sched = sched,
      e_timerArmed = True, e_timerTarget = now, e_capacity = queueCapacity,
      e_concurrency = concurrency, e_running = 0, e_taskCount = 0, e_termClosed = False,
      e_tasks = tasks, e_nextTask = 0, e_goroutines = {#}\<rparr>"

section \<open>Queries\<close>

definition QueueLength :: "'v executor \<Rightarrow> nat" where
  "QueueLength e = length (e_queue e) + Len (e_sched e)"

definition Terminated :: "'v executor \<Rightarrow> bool" where
  "Terminated e \<longleftrightarrow> e_status e \<ge> ExecutorStatusTerminated"

definition exec_Canceled :: "'v executor \<Rightarrow> bool" where
  "exec_Canceled e \<longleftrightarrow> e_status e \<ge> ExecutorStatusShuttingDown"

definition remainingTotalCapacity :: "'v executor \<Rightarrow> int" where
  "remainingTotalCapacity e =
     (if e_concurrency e < 0 \<or> e_capacity e < 0 then 2147483647
      else e_concurrency e - e_running e + e_capacity e - int (QueueLength e))"

definition canStartNewTask :: "'v executor \<Rightarrow> bool" where
  "canStartNewTask e \<longleftrightarrow> (if e_concurrency e < 0 then True else e_running e < e_concurrency e)"

section \<open>Scheduling a task\<close>

datatype exec_err = ErrExecutorQueueFull | ErrExecutorCanceled

text \<open>The client side of a submission: the checks, the new task, and the event that is then sent.\<close>

definition schedule ::
    "int \<Rightarrow> int \<Rightarrow> int \<Rightarrow> task_type \<Rightarrow> 'v executor \<Rightarrow> exec_err + ('v executor \<times> nat)" where
  "schedule now initialDelay delay typ e =
     (if exec_Canceled e then Inl ErrExecutorCanceled
      else if remainingTotalCapacity e < 1 then Inl ErrExecutorQueueFull
      else let tid = e_taskCount e + 1; p = e_nextTask e;
               t = configureContext (newTask now tid typ initialDelay delay)
           in Inr (e\<lparr>e_taskCount := tid, e_nextTask := Suc p, e_tasks := (e_tasks e)(p := t)\<rparr>, p))"

definition Schedule :: "int \<Rightarrow> int \<Rightarrow> 'v executor \<Rightarrow> exec_err + ('v executor \<times> nat)" where
  "Schedule now delay e = schedule now delay 0 TaskTypeOnce e"

definition Submit :: "int \<Rightarrow> 'v executor \<Rightarrow> exec_err + ('v executor \<times> nat)" where
  "Submit now e = Schedule now 0 e"

definition SubmitProducer :: "int \<Rightarrow> 'v executor \<Rightarrow> exec_err + ('v executor \<times> nat)" where
  "SubmitProducer now e = schedule now 0 0 TaskTypeOnce e"

definition ScheduleWithFixedRate ::
    "int \<Rightarrow> int \<Rightarrow> int \<Rightarrow> 'v executor \<Rightarrow> exec_err + ('v executor \<times> nat)" where
  "ScheduleWithFixedRate now initialDelay period e = schedule now initialDelay period TaskTypeFixedRate e"

definition ScheduleWithFixedDelay ::
    "int \<Rightarrow> int \<Rightarrow> int \<Rightarrow> 'v executor \<Rightarrow> exec_err + ('v executor \<times> nat)" where
  "ScheduleWithFixedDelay now initialDelay delay e = schedule now initialDelay delay TaskTypeFixedDelay e"

section \<open>The methods of the event loop\<close>

abbreviation upd_task :: "nat \<Rightarrow> ('v task \<Rightarrow> 'v task) \<Rightarrow> 'v executor \<Rightarrow> 'v executor" where
  "upd_task p f e \<equiv> e\<lparr>e_tasks := (e_tasks e)(p := f (e_tasks e p))\<rparr>"

text \<open>The task at the head of the scheduled queue.\<close>

definition sched_top :: "'v executor \<Rightarrow> nat" where
  "sched_top e = el_Value (pq_objs (e_sched e) (pq_slice (e_sched e) ! 0))"

definition configureSchedulerTimer :: "'v executor \<Rightarrow> 'v executor" where
  "configureSchedulerTimer e =
     (if Len (e_sched e) = 0 then e
      else let nextRun = t_nextRun (e_tasks e (sched_top e))
           in if nextRun = e_timerTarget e then e
              else e\<lparr>e_timerTarget := nextRun, e_timerArmed := True\<rparr>)"

definition executeTask :: "int \<Rightarrow> nat \<Rightarrow> 'v executor \<Rightarrow> 'v executor" where
  "executeTask now p e =
     (case setRunning now (e_tasks e p) of
        (False, _) \<Rightarrow> e
      | (True, t) \<Rightarrow> e\<lparr>e_tasks := (e_tasks e)(p := t), e_running := e_running e + 1,
                       e_goroutines := add_mset p (e_goroutines e)\<rparr>)"

definition push_back :: "nat \<Rightarrow> 'v executor \<Rightarrow> nat \<times> 'v executor" where
  "push_back p e =
     (e_nextElem e, e\<lparr>e_queue := e_queue e @ [(e_nextElem e, p)], e_nextElem := Suc (e_nextElem e)\<rparr>)"

definition push_sched :: "nat \<Rightarrow> 'v executor \<Rightarrow> nat \<times> 'v executor" where
  "push_sched p e =
     (let (el, q) = Push p (t_nextRun (e_tasks e p)) (e_sched e) in (el, e\<lparr>e_sched := q\<rparr>))"

definition tryExecuteTask :: "int \<Rightarrow> nat \<Rightarrow> 'v executor \<Rightarrow> 'v executor" where
  "tryExecuteTask now p e =
     (if \<not> Runnable (e_tasks e p) then e
      else if Delay now (e_tasks e p) > 0 then
        (let (el, e1) = push_sched p e
         in configureSchedulerTimer (upd_task p (\<lambda>t. t\<lparr>t_sQueueElement := Some el\<rparr>) e1))
      else if \<not> canStartNewTask e then
        (let (el, e1) = push_back p e in upd_task p (\<lambda>t. t\<lparr>t_queueElement := Some el\<rparr>) e1)
      else executeTask now p e)"

text \<open>\<open>tryRunNextTask\<close> returns whether the loop goes on; it closes the termination channel once.\<close>

definition tryRunNextTask :: "int \<Rightarrow> 'v executor \<Rightarrow> ('v executor \<times> bool) go" where
  "tryRunNextTask now e =
     (if Terminated e then Ret (e, True)
      else if QueueLength e = 0 then
        (if exec_Canceled e then
           (if e_running e > 0 then
              Ret (if e_status e = ExecutorStatusShuttingDown
                   then e\<lparr>e_status := ExecutorStatusWaitingTermination\<rparr> else e, True)
            else if e_status e = ExecutorStatusShuttingDown \<or> e_status e = ExecutorStatusWaitingTermination
            then (if e_termClosed e then Panic ''close of closed channel''
                  else Ret (e\<lparr>e_status := ExecutorStatusTerminated, e_termClosed := True\<rparr>, False))
            else Ret (e, True))
         else Ret (e, True))
      else if e_queue e = [] then Ret (e, True)
      else if \<not> canStartNewTask e then Ret (e, True)
      else let p = snd (hd (e_queue e));
               e1 = upd_task p (\<lambda>t. t\<lparr>t_queueElement := None\<rparr>) (e\<lparr>e_queue := tl (e_queue e)\<rparr>)
           in Ret (tryExecuteTask now p e1, True))"

text \<open>\<^verbatim>\<open>list.Remove\<close>: an element of the list goes; a detached one is ignored; an orphan is a crash.\<close>

definition list_remove :: "nat \<Rightarrow> 'v executor \<Rightarrow> 'v executor go" where
  "list_remove el e =
     (if el \<in> fst ` set (e_queue e) then Ret (e\<lparr>e_queue := filter (\<lambda>x. fst x \<noteq> el) (e_queue e)\<rparr>)
      else if el \<in> set (e_orphans e) then Panic ''container/list: orphan element''
      else Ret e)"

text \<open>The loop after a change of the concurrency; the queue gets shorter in every turn.\<close>

fun run_queued :: "nat \<Rightarrow> int \<Rightarrow> 'v executor \<Rightarrow> ('v executor \<times> bool) go" where
  "run_queued 0 now e = Ret (e, True)"
| "run_queued (Suc k) now e =
     (if canStartNewTask e \<and> e_queue e \<noteq> [] then
        go_bind (tryRunNextTask now e)
          (\<lambda>(e1, ok). if ok then run_queued k now e1 else Ret (e1, False))
      else Ret (e, True))"

fun turn_of :: "reply \<Rightarrow> ('v executor \<times> bool) go \<Rightarrow> 'v turn" where
  "turn_of r (Panic m) = Crash m"
| "turn_of r (Ret (e, ok)) = (if ok then Continue e r else Return e r)"

definition completed :: "int \<Rightarrow> nat \<Rightarrow> 'v executor \<Rightarrow> 'v executor go" where
  "completed now p e0 =
     (let e = e0\<lparr>e_running := e_running e0 - 1\<rparr>; t = e_tasks e p in
      if Done t then Ret e
      else if Canceled t then
        go_bind (setDone None (Some ContextCanceled) t) (\<lambda>(_, t'). Ret (upd_task p (\<lambda>_. t') e))
      else if Periodic t then
        go_bind (configureNextRun now t) (\<lambda>t1.
          let e1 = upd_task p (\<lambda>_. configureContext t1) e in
          if Delay now (e_tasks e1 p) > 0
          then Ret (configureSchedulerTimer (snd (push_sched p e1)))
          else Ret (snd (push_back p e1)))
      else Ret e)"

definition canceled :: "nat \<Rightarrow> 'v executor \<Rightarrow> 'v executor go" where
  "canceled p e0 =
     (let e = upd_task p (\<lambda>t. if t_err t = None then t\<lparr>t_err := Some ContextCanceled\<rparr> else t) e0 in
      if e_queue e = [] then Ret e
      else go_bind (case t_queueElement (e_tasks e p) of None \<Rightarrow> Ret e | Some el \<Rightarrow> list_remove el e)
             (\<lambda>e1. case t_sQueueElement (e_tasks e1 p) of
                     None \<Rightarrow> Ret e1
                   | Some el \<Rightarrow> Ret (e1\<lparr>e_sched := snd (Remove el (e_sched e1))\<rparr>)))"

definition cancel_now :: "'v executor \<Rightarrow> nat list \<times> 'v executor" where
  "cancel_now e =
     (let queued = map snd (e_queue e);
          (els, q) = drain Pop (Len (e_sched e)) (e_sched e);
          scheduled = map (\<lambda>el. el_Value (pq_objs (e_sched e) el)) els
      in (queued @ scheduled,
          e\<lparr>e_queue := [], e_orphans := map fst (e_queue e) @ e_orphans e, e_sched := q,
            e_status := (if e_status e = ExecutorStatusShuttingDown
                         then ExecutorStatusWaitingTermination else e_status e)\<rparr>))"

section \<open>One turn of the event loop\<close>

fun handle :: "int \<Rightarrow> event \<Rightarrow> 'v executor \<Rightarrow> 'v turn" where
  "handle now (TaskSubmittedEvent p) e = Continue (tryExecuteTask now p e) NoReply"
| "handle now (TaskCompletedEvent p) e =
     turn_of NoReply (go_bind (completed now p e) (tryRunNextTask now))"
| "handle now (TaskCanceledEvent p) e =
     (case canceled p e of Panic m \<Rightarrow> Crash m | Ret e1 \<Rightarrow> Continue e1 NoReply)"
| "handle now (UpdateConcurrencyEvent c) e =
     turn_of NoReply (run_queued (length (e_queue e)) now (e\<lparr>e_concurrency := c\<rparr>))"
| "handle now (UpdateQueueCapacityEvent c) e = Continue (e\<lparr>e_capacity := c\<rparr>) NoReply"
| "handle now CancelEvent e =
     (if e_status e \<ge> ExecutorStatusShuttingDown then Continue e (CancelReply False)
      else turn_of (CancelReply (e_status e = ExecutorStatusRunning))
             (tryRunNextTask now (e\<lparr>e_status := ExecutorStatusShuttingDown\<rparr>)))"
| "handle now CancelNowEvent e =
     (if e_status e \<ge> ExecutorStatusWaitingTermination then Continue e (FuturesReply None)
      else let (fs, e1) = cancel_now e in turn_of (FuturesReply (Some fs)) (tryRunNextTask now e1))"

text \<open>The timer branch of the loop.\<close>

definition timer_fired :: "int \<Rightarrow> 'v executor \<Rightarrow> 'v executor" where
  "timer_fired now e0 =
     (let e = e0\<lparr>e_timerArmed := False\<rparr> in
      if Len (e_sched e) = 0 then e
      else let e1 = (if t_nextRun (e_tasks e (sched_top e)) \<le> now then
                       (case Pop (e_sched e) of
                          Panic _ \<Rightarrow> e
                        | Ret (el, q) \<Rightarrow>
                            let p = el_Value (pq_objs q el)
                            in tryExecuteTask now p
                                 (upd_task p (\<lambda>t. t\<lparr>t_sQueueElement := None\<rparr>) (e\<lparr>e_sched := q\<rparr>)))
                     else e)
           in configureSchedulerTimer e1)"

text \<open>The goroutine of a task ends: with a panic, or with a value and an error.\<close>

datatype 'v outcome = Returned "'v option" "task_err option" | Panicked string

definition finish :: "nat \<Rightarrow> 'v outcome \<Rightarrow> 'v executor \<Rightarrow> 'v executor go" where
  "finish p out e =
     (let t = e_tasks e p; e1 = e\<lparr>e_goroutines := e_goroutines e - {#p#}\<rparr> in
      case out of
        Panicked m \<Rightarrow> go_bind (setDone None (Some (TaskPanic m)) t) (\<lambda>(_, t'). Ret (upd_task p (\<lambda>_. t') e1))
      | Returned v err \<Rightarrow>
          (if err \<noteq> None \<or> \<not> Periodic t
           then go_bind (setDone v err t) (\<lambda>(_, t'). Ret (upd_task p (\<lambda>_. t') e1))
           else Ret e1))"

section \<open>The client side of the executor\<close>

text \<open>\<open>Cancel\<close> and \<open>CancelNow\<close> of a client: the early return, or the events they send in order.\<close>

definition client_Cancel :: "'v executor \<Rightarrow> bool + event list" where
  "client_Cancel e = (if e_status e \<ge> ExecutorStatusShuttingDown then Inl False else Inr [CancelEvent])"

definition client_CancelNow :: "'v executor \<Rightarrow> event list option" where
  "client_CancelNow e =
     (if e_status e \<ge> ExecutorStatusWaitingTermination then None
      else Some ((case client_Cancel e of Inl _ \<Rightarrow> [] | Inr evs \<Rightarrow> evs) @ [CancelNowEvent]))"

text \<open>The setters send an event and wait for the loop to answer; the getters read the field.\<close>

definition Concurrency :: "'v executor \<Rightarrow> int" where
  "Concurrency e = e_concurrency e"

definition SetConcurrency :: "int \<Rightarrow> event" where
  "SetConcurrency c = UpdateConcurrencyEvent c"

definition QueueCapacity :: "'v executor \<Rightarrow> int" where
  "QueueCapacity e = e_capacity e"

definition SetQueueCapacity :: "int \<Rightarrow> event" where
  "SetQueueCapacity c = UpdateQueueCapacityEvent c"

text \<open>\<open>AwaitTermination\<close>: done at once, done when the channel is closed, otherwise the timeout.\<close>

definition AwaitTermination :: "'v executor \<Rightarrow> bool" where
  "AwaitTermination e \<longleftrightarrow> e_status e = ExecutorStatusTerminated \<or> e_termClosed e"

section \<open>The executor, its clients and its goroutines as one system\<close>

text \<open>Senders wait on the unbuffered event channel, so the events under way are a multiset. Clients
  may ask for any concurrency between 0 and the bound \<open>C\<close>.\<close>

record 'v system =
  sys_ex :: "'v executor"
  sys_alive :: bool
  sys_pending :: "event multiset"
  sys_now :: int

abbreviation send :: "event \<Rightarrow> 'v system \<Rightarrow> 'v system" where
  "send ev s \<equiv> s\<lparr>sys_pending := add_mset ev (sys_pending s)\<rparr>"

inductive sys_step :: "int \<Rightarrow> 'v system \<Rightarrow> 'v system \<Rightarrow> bool" for C where
  tick: "sys_now s \<le> n \<Longrightarrow> sys_step C s (s\<lparr>sys_now := n\<rparr>)"
| submit: "schedule (sys_now s) d0 d typ (sys_ex s) = Inr (e, p) \<Longrightarrow>
     sys_step C s (send (TaskSubmittedEvent p) (s\<lparr>sys_ex := e\<rparr>))"
| await: "p < e_nextTask (sys_ex s) \<Longrightarrow>
     sys_step C s (s\<lparr>sys_ex := upd_task p (\<lambda>t. snd (Await t)) (sys_ex s)\<rparr>)"
| cancel_task: "p < e_nextTask (sys_ex s) \<Longrightarrow> Cancel (e_tasks (sys_ex s) p) = Ret (True, t) \<Longrightarrow>
     sys_step C s (send (TaskCanceledEvent p) (s\<lparr>sys_ex := upd_task p (\<lambda>_. t) (sys_ex s)\<rparr>))"
| cancel: "client_Cancel (sys_ex s) = Inr [CancelEvent] \<Longrightarrow> sys_step C s (send CancelEvent s)"
| cancel_now: "client_CancelNow (sys_ex s) = Some evs \<Longrightarrow> sys_step C s (send CancelNowEvent s)"
| set_concurrency: "0 \<le> c \<Longrightarrow> c \<le> C \<Longrightarrow> sys_step C s (send (SetConcurrency c) s)"
| set_capacity: "sys_step C s (send (SetQueueCapacity c) s)"
| task_ends: "p \<in># e_goroutines (sys_ex s) \<Longrightarrow> finish p out (sys_ex s) = Ret e \<Longrightarrow>
     sys_step C s (send (TaskCompletedEvent p) (s\<lparr>sys_ex := e\<rparr>))"
| receive: "sys_alive s \<Longrightarrow> ev \<in># sys_pending s \<Longrightarrow> handle (sys_now s) ev (sys_ex s) = Continue e r \<Longrightarrow>
     sys_step C s (s\<lparr>sys_ex := e, sys_pending := sys_pending s - {#ev#}\<rparr>)"
| loop_returns: "sys_alive s \<Longrightarrow> ev \<in># sys_pending s \<Longrightarrow> handle (sys_now s) ev (sys_ex s) = Return e r \<Longrightarrow>
     sys_step C s (s\<lparr>sys_ex := e, sys_pending := sys_pending s - {#ev#}, sys_alive := False\<rparr>)"
| timer: "sys_alive s \<Longrightarrow> e_timerArmed (sys_ex s) \<Longrightarrow> e_timerTarget (sys_ex s) \<le> sys_now s \<Longrightarrow>
     sys_step C s (s\<lparr>sys_ex := timer_fired (sys_now s) (sys_ex s)\<rparr>)"

inductive sys_reachable :: "int \<Rightarrow> 'v system \<Rightarrow> bool" for C where
  start: "0 \<le> c \<Longrightarrow> c \<le> C \<Longrightarrow> pq_inv q \<Longrightarrow> pq_slice q = [] \<Longrightarrow> (\<And>p. tasks p = newTask 0 0 TaskTypeOnce 0 0) \<Longrightarrow>
     sys_reachable C \<lparr>sys_ex = NewDefaultExecutor now c cap tasks q, sys_alive = True,
                      sys_pending = {#}, sys_now = now\<rparr>"
| step: "sys_reachable C s \<Longrightarrow> sys_step C s t \<Longrightarrow> sys_reachable C t"

section \<open>Invariants\<close>

fun completed_task :: "event \<Rightarrow> nat multiset" where
  "completed_task (TaskCompletedEvent p) = {#p#}"
| "completed_task _ = {#}"

text \<open>The executions that ended but whose completion the loop has not received.\<close>

definition completions :: "event multiset \<Rightarrow> nat multiset" where
  "completions M = sum_mset (image_mset completed_task M)"

definition data_inv :: "'v executor \<Rightarrow> bool" where
  "data_inv e \<longleftrightarrow>
     pq_inv (e_sched e) \<and> (\<forall>x \<in> set (e_queue e). snd x < e_nextTask e) \<and>
     (\<forall>el \<in> set (pq_slice (e_sched e)). el_Value (pq_objs (e_sched e) el) < e_nextTask e)"

definition run_inv :: "int \<Rightarrow> 'v executor \<Rightarrow> nat multiset \<Rightarrow> bool" where
  "run_inv C e P \<longleftrightarrow>
     e_running e = int (size (e_goroutines e + P)) \<and>
     (\<forall>p. count (e_goroutines e + P) p \<le> 1) \<and>
     (\<forall>p \<in># e_goroutines e + P. t_status (e_tasks e p) \<noteq> TaskStatusNew) \<and>
     (\<forall>p \<in># e_goroutines e. t_status (e_tasks e p) = TaskStatusRunning \<or>
                              t_status (e_tasks e p) = TaskStatusCancelling) \<and>
     (\<forall>p. task_inv (e_tasks e p)) \<and>
     (\<forall>p. e_nextTask e \<le> p \<longrightarrow> p \<notin># e_goroutines e + P) \<and>
     0 \<le> e_concurrency e \<and> e_concurrency e \<le> C \<and> e_running e \<le> C"

subsection \<open>Order of the statuses\<close>

lemma exec_status_le [simp]:
  "ExecutorStatusTerminated \<le> s \<longleftrightarrow> s = ExecutorStatusTerminated"
  "ExecutorStatusWaitingTermination \<le> s \<longleftrightarrow> s = ExecutorStatusWaitingTermination \<or> s = ExecutorStatusTerminated"
  "ExecutorStatusShuttingDown \<le> s \<longleftrightarrow> s \<noteq> ExecutorStatusRunning"
  "ExecutorStatusRunning \<le> s"
  by (cases s; simp add: less_eq_exec_status_def)+

subsection \<open>What the helpers leave alone\<close>

lemma completions_simps [simp]:
  "completions {#} = {#}" "completions (add_mset ev M) = completed_task ev + completions M"
  by (simp_all add: completions_def)

lemma completions_remove: "ev \<in># M \<Longrightarrow> completions M = completed_task ev + completions (M - {#ev#})"
  by (metis completions_simps(2) insert_DiffM)

text \<open>A change of the bookkeeping fields of a task is invisible to the invariants.\<close>

lemma run_inv_upd:
  "t_status (f (e_tasks e p)) = t_status (e_tasks e p) \<Longrightarrow> task_inv (f (e_tasks e p)) \<Longrightarrow>
   run_inv C e P \<Longrightarrow> run_inv C (upd_task p f e) P"
  by (auto simp: run_inv_def)

lemma run_inv_task:
  "run_inv C e P \<Longrightarrow> e_tasks e = T \<Longrightarrow> t_status t = t_status (T p) \<Longrightarrow> task_inv t \<Longrightarrow>
   run_inv C (e\<lparr>e_tasks := T(p := t)\<rparr>) P"
  by (auto simp: run_inv_def)

lemma task_inv_elements [simp]:
  "task_inv (t\<lparr>t_queueElement := x\<rparr>) = task_inv t" "task_inv (t\<lparr>t_sQueueElement := y\<rparr>) = task_inv t"
  "task_inv (t\<lparr>t_err := z\<rparr>) = task_inv t"
  by (simp_all add: task_inv_def)

lemma timer_frame [simp]:
  "run_inv C (configureSchedulerTimer e) P = run_inv C e P"
  "data_inv (configureSchedulerTimer e) = data_inv e"
  "e_status (configureSchedulerTimer e) = e_status e"
  "e_termClosed (configureSchedulerTimer e) = e_termClosed e"
  "e_queue (configureSchedulerTimer e) = e_queue e"
  "e_concurrency (configureSchedulerTimer e) = e_concurrency e"
  "e_running (configureSchedulerTimer e) = e_running e"
  "e_nextTask (configureSchedulerTimer e) = e_nextTask e"
  "e_goroutines (configureSchedulerTimer e) = e_goroutines e"
  "e_sched (configureSchedulerTimer e) = e_sched e"
  "e_tasks (configureSchedulerTimer e) = e_tasks e"
  by (simp_all add: configureSchedulerTimer_def run_inv_def data_inv_def Let_def)

lemma data_inv_simps [simp]:
  "data_inv (upd_task p f e) = data_inv e"
  "data_inv (e\<lparr>e_running := r\<rparr>) = data_inv e"
  "data_inv (e\<lparr>e_status := st\<rparr>) = data_inv e"
  "data_inv (e\<lparr>e_concurrency := c\<rparr>) = data_inv e"
  "data_inv (e\<lparr>e_timerArmed := b\<rparr>) = data_inv e"
  "data_inv (e\<lparr>e_capacity := c\<rparr>) = data_inv e"
  "data_inv (e\<lparr>e_goroutines := G\<rparr>) = data_inv e"
  "data_inv (e\<lparr>e_tasks := T\<rparr>) = data_inv e"
  by (simp_all add: data_inv_def)

lemma run_inv_simps [simp]:
  "run_inv C (e\<lparr>e_queue := qs\<rparr>) P = run_inv C e P"
  "run_inv C (e\<lparr>e_queue := qs, e_nextElem := k\<rparr>) P = run_inv C e P"
  "run_inv C (e\<lparr>e_sched := q\<rparr>) P = run_inv C e P"
  "run_inv C (e\<lparr>e_status := st\<rparr>) P = run_inv C e P"
  "run_inv C (e\<lparr>e_timerArmed := b\<rparr>) P = run_inv C e P"
  "run_inv C (e\<lparr>e_capacity := c\<rparr>) P = run_inv C e P"
  by (simp_all add: run_inv_def)

lemma push_sched_inv:
  assumes "data_inv e" "p < e_nextTask e"
  shows "data_inv (snd (push_sched p e))" "run_inv C (snd (push_sched p e)) P = run_inv C e P"
proof -
  obtain el q where ps: "Push p (t_nextRun (e_tasks e p)) (e_sched e) = (el, q)" by fastforce
  have inv: "pq_inv (e_sched e)" using assms(1) by (simp add: data_inv_def)
  note pp = Push_props[OF inv, of p "t_nextRun (e_tasks e p)", unfolded ps, simplified]
  have "set (pq_slice q) = insert (pq_next (e_sched e)) (set (pq_slice (e_sched e)))"
    using pp(3) by (metis set_mset_add_mset_insert set_mset_mset)
  moreover have "pq_next (e_sched e) \<notin> set (pq_slice (e_sched e))"
    using inv by (auto simp: pq_inv_def pq_wf_def)
  ultimately show "data_inv (snd (push_sched p e))"
    using assms pp(2,8) by (auto simp: data_inv_def push_sched_def ps)
  show "run_inv C (snd (push_sched p e)) P = run_inv C e P"
    by (simp add: push_sched_def ps)
qed

lemma push_back_inv:
  assumes "data_inv e" "p < e_nextTask e"
  shows "data_inv (snd (push_back p e))" "run_inv C (snd (push_back p e)) P = run_inv C e P"
  using assms by (auto simp: push_back_def data_inv_def)

lemma push_frame [simp]:
  "e_tasks (snd (push_sched p e)) = e_tasks e" "e_tasks (snd (push_back p e)) = e_tasks e"
  "e_status (snd (push_sched p e)) = e_status e" "e_status (snd (push_back p e)) = e_status e"
  "e_termClosed (snd (push_sched p e)) = e_termClosed e" "e_termClosed (snd (push_back p e)) = e_termClosed e"
  "e_nextTask (snd (push_sched p e)) = e_nextTask e" "e_nextTask (snd (push_back p e)) = e_nextTask e"
  "e_running (snd (push_sched p e)) = e_running e" "e_running (snd (push_back p e)) = e_running e"
  "e_concurrency (snd (push_sched p e)) = e_concurrency e" "e_concurrency (snd (push_back p e)) = e_concurrency e"
  by (simp_all add: push_sched_def push_back_def Let_def split: prod.split)

lemma executeTask_inv:
  assumes r: "run_inv C e P" and p: "p < e_nextTask e" and go: "canStartNewTask e"
  shows "run_inv C (executeTask now p e) P"
proof (cases "fst (setRunning now (e_tasks e p))")
  case False
  then show ?thesis using r by (simp add: executeTask_def case_prod_beta split: bool.split)
next
  case True
  then have new: "t_status (e_tasks e p) = TaskStatusNew" by (auto simp: setRunning_def Runnable_def split: if_splits)
  have t: "setRunning now (e_tasks e p) = (True, (e_tasks e p)\<lparr>t_status := TaskStatusRunning\<rparr>)"
    using True by (auto simp: setRunning_def split: if_splits)
  have c0: "count (e_goroutines e) p = 0" "count P p = 0" using r new by (auto simp: run_inv_def dest: spec[of _ p])
  have ti: "task_inv ((e_tasks e p)\<lparr>t_status := TaskStatusRunning\<rparr>)"
    using r new by (auto simp: run_inv_def task_inv_def)
  have lt: "e_running e < e_concurrency e" using go r by (auto simp: canStartNewTask_def run_inv_def split: if_splits)
  show ?thesis using r p c0 ti lt unfolding executeTask_def t run_inv_def by (auto simp: not_in_iff)
qed

lemma tryExecuteTask_inv:
  assumes d: "data_inv e" and r: "run_inv C e P" and p: "p < e_nextTask e"
  shows "data_inv (tryExecuteTask now p e) \<and> run_inv C (tryExecuteTask now p e) P"
proof -
  have ti: "task_inv (e_tasks e p)" using r by (simp add: run_inv_def)
  have ex: "data_inv (executeTask now p e)"
    using d by (simp add: executeTask_def case_prod_beta data_inv_def split: bool.split)
  show ?thesis
    using d r p ti ex executeTask_inv[OF r p, of now] push_sched_inv[OF d p] push_back_inv[OF d p]
    by (auto simp: tryExecuteTask_def Let_def case_prod_beta intro!: run_inv_task)
qed

lemma tryExecuteTask_frame:
  "e_status (tryExecuteTask now p e) = e_status e" "e_termClosed (tryExecuteTask now p e) = e_termClosed e"
  "e_nextTask (tryExecuteTask now p e) = e_nextTask e" "e_concurrency (tryExecuteTask now p e) = e_concurrency e"
  by (simp_all add: tryExecuteTask_def executeTask_def Let_def case_prod_beta split: bool.split)

section \<open>Every turn of the loop keeps the invariants\<close>

text \<open>The executor while its loop runs, and after it returned.\<close>

definition live_inv :: "int \<Rightarrow> nat multiset \<Rightarrow> 'v executor \<Rightarrow> bool" where
  "live_inv C P e \<longleftrightarrow> data_inv e \<and> run_inv C e P \<and> \<not> e_termClosed e \<and> e_status e \<noteq> ExecutorStatusTerminated"

definition ended_inv :: "int \<Rightarrow> nat multiset \<Rightarrow> 'v executor \<Rightarrow> bool" where
  "ended_inv C P e \<longleftrightarrow> data_inv e \<and> run_inv C e P \<and> e_termClosed e \<and> e_status e = ExecutorStatusTerminated \<and>
     e_queue e = [] \<and> pq_slice (e_sched e) = [] \<and> e_running e = 0"

text \<open>The statuses only move forward, and no task is allocated by the loop.\<close>

definition moved :: "'v executor \<Rightarrow> 'v executor \<Rightarrow> bool" where
  "moved e e' \<longleftrightarrow> e_status e \<le> e_status e' \<and> e_nextTask e' = e_nextTask e"

fun next_ok :: "int \<Rightarrow> nat multiset \<Rightarrow> 'v executor \<Rightarrow> ('v executor \<times> bool) go \<Rightarrow> bool" where
  "next_ok C P e (Ret (e', ok)) \<longleftrightarrow> (if ok then live_inv C P e' else ended_inv C P e') \<and> moved e e'"
| "next_ok C P e (Panic m) \<longleftrightarrow> False"

lemma tryExecuteTask_live:
  "live_inv C P e \<Longrightarrow> p < e_nextTask e \<Longrightarrow> live_inv C P (tryExecuteTask now p e) \<and> moved e (tryExecuteTask now p e)"
  using tryExecuteTask_inv[of e C P p now] by (simp add: live_inv_def moved_def tryExecuteTask_frame)

lemma tryRunNextTask_ok:
  assumes l: "live_inv C P e"
  shows "next_ok C P e (tryRunNextTask now e)"
proof -
  have r0: "e_running e \<ge> 0" using l by (simp add: live_inv_def run_inv_def)
  show ?thesis
  proof (cases "e_queue e = []")
    case True
    then show ?thesis using l r0
      by (cases "e_status e")
        (auto simp: tryRunNextTask_def live_inv_def ended_inv_def moved_def Terminated_def exec_Canceled_def
          QueueLength_def Len_def data_inv_def run_inv_def)
  next
    case False
    let ?p = "snd (hd (e_queue e))"
    let ?e = "upd_task ?p (\<lambda>t. t\<lparr>t_queueElement := None\<rparr>) (e\<lparr>e_queue := tl (e_queue e)\<rparr>)"
    have p: "?p < e_nextTask e" using l False by (auto simp: live_inv_def data_inv_def)
    have "live_inv C P ?e"
      using l False by (auto simp: live_inv_def data_inv_def run_inv_def dest: list.set_sel(2))
    from tryExecuteTask_live[OF this, of ?p now] p False l show ?thesis
      by (auto simp: tryRunNextTask_def Terminated_def QueueLength_def live_inv_def moved_def Let_def)
  qed
qed

lemma moved_trans: "moved a b \<Longrightarrow> moved b c \<Longrightarrow> moved a c"
  by (auto simp: moved_def)

lemma run_queued_ok: "live_inv C P e \<Longrightarrow> next_ok C P e (run_queued k now e)"
proof (induction k arbitrary: e)
  case (Suc k)
  have n: "next_ok C P e (tryRunNextTask now e)" using Suc.prems by (rule tryRunNextTask_ok)
  then obtain e1 ok where t: "tryRunNextTask now e = Ret (e1, ok)" by (cases "tryRunNextTask now e") auto
  show ?case
  proof (cases ok)
    case True
    then have l: "live_inv C P e1" and m: "moved e e1" using n t by auto
    then show ?thesis using Suc.IH[OF l] Suc.prems t True
      by (cases "run_queued k now e1") (auto simp: moved_def)
  qed (use n t Suc.prems in \<open>auto simp: moved_def\<close>)
qed (simp add: moved_def)

text \<open>A completion takes its task out of the executions under way.\<close>

lemma completed_ok:
  assumes l: "live_inv C ({#p#} + P) e"
  shows "\<exists>e'. completed now p e = Ret e' \<and> live_inv C P e' \<and> moved e e'"
proof -
  let ?e = "e\<lparr>e_running := e_running e - 1\<rparr>"
  let ?t = "e_tasks e p"
  have d: "data_inv ?e" and r: "run_inv C e ({#p#} + P)" using l by (auto simp: live_inv_def)
  have p: "p < e_nextTask e" using r by (force simp: run_inv_def not_less[symmetric])
  have ti: "task_inv ?t" using r by (simp add: run_inv_def)
  have out: "p \<notin># e_goroutines e" "p \<notin># P"
  proof -
    have "count (e_goroutines e + ({#p#} + P)) p \<le> 1" using r by (simp only: run_inv_def)
    then show "p \<notin># e_goroutines e" "p \<notin># P" by (simp_all add: not_in_iff)
  qed
  have upd: "run_inv C (?e\<lparr>e_tasks := (e_tasks e)(p := t)\<rparr>) P" if "task_inv t" for t
  proof -
    have "count (e_goroutines e + P) q \<le> 1" for q
    proof -
      have "count (e_goroutines e + ({#p#} + P)) q \<le> 1" using r by (simp only: run_inv_def)
      then show ?thesis by (simp split: if_splits)
    qed
    then show ?thesis using r that out by (auto simp: run_inv_def)
  qed
  have r1: "run_inv C ?e P" using upd[OF ti] by simp
  have st: "t_status ?t \<noteq> TaskStatusNew" using r by (simp add: run_inv_def)
  consider (finished) "Done ?t" | (canceled) "\<not> Done ?t" "Canceled ?t"
    | (periodic) "\<not> Done ?t" "\<not> Canceled ?t" "Periodic ?t" | (once) "\<not> Done ?t" "\<not> Canceled ?t" "\<not> Periodic ?t"
    by blast
  then show ?thesis
  proof cases
    case canceled
    obtain b t where t: "setDone None (Some ContextCanceled) ?t = Ret (b, t)" "task_inv t"
      using setDone_Ret[OF ti] by blast
    then show ?thesis using canceled d upd[OF t(2)] l
      by (simp add: completed_def live_inv_def moved_def Let_def)
  next
    case periodic
    then have "t_status ?t = TaskStatusRunning"
      using st ti by (cases "t_status ?t") (auto simp: Done_def Canceled_def task_inv_def)
    then obtain t where t: "configureNextRun now ?t = Ret t" "task_inv (configureContext t)"
      using periodic(3) ti by (cases "t_type ?t") (auto simp: configureNextRun_def Periodic_def configureContext_def task_inv_def)
    let ?e1 = "?e\<lparr>e_tasks := (e_tasks e)(p := configureContext t)\<rparr>"
    have "data_inv ?e1" "run_inv C ?e1 P" "p < e_nextTask ?e1" using d upd[OF t(2)] p by simp_all
    note push = push_sched_inv[OF this(1,3)] push_back_inv[OF this(1,3)] this(2)
    show ?thesis using periodic t push l by (auto simp: completed_def live_inv_def moved_def Let_def)
  qed (use d r1 l in \<open>auto simp: completed_def live_inv_def moved_def Let_def\<close>)
qed

lemma canceled_ok:
  assumes l: "live_inv C P e"
  shows "case canceled p e of Ret e' \<Rightarrow> live_inv C P e' \<and> moved e e' | Panic m \<Rightarrow> m = ''container/list: orphan element'' \<and> e_orphans e \<noteq> []"
proof -
  let ?e = "upd_task p (\<lambda>t. if t_err t = None then t\<lparr>t_err := Some ContextCanceled\<rparr> else t) e"
  have l1: "live_inv C P ?e" using l by (auto simp: live_inv_def run_inv_def)
  have ls: "live_inv C P (e'\<lparr>e_sched := snd (Remove el (e_sched e'))\<rparr>)" if "live_inv C P e'" for e' :: "'a executor" and el
  proof -
    have i: "pq_inv (e_sched e')" using that by (simp add: live_inv_def data_inv_def)
    have "pq_inv (snd (Remove el (e_sched e')))" "set (pq_slice (snd (Remove el (e_sched e')))) \<subseteq> set (pq_slice (e_sched e'))"
      "\<forall>x. el_Value (pq_objs (snd (Remove el (e_sched e'))) x) = el_Value (pq_objs (e_sched e') x)"
      using Remove_any[OF i] by blast+
    then show ?thesis using that by (auto simp: live_inv_def data_inv_def)
  qed
  have lr: "case list_remove el e' of Ret e'' \<Rightarrow> live_inv C P e'' \<and> moved e' e'' | Panic m \<Rightarrow> m = ''container/list: orphan element'' \<and> e_orphans e' \<noteq> []"
    if "live_inv C P e'" for el and e' :: "'a executor"
    using that by (auto simp: list_remove_def live_inv_def data_inv_def moved_def)
  show ?thesis
  proof (cases "t_queueElement (e_tasks ?e p)")
    case None
    then show ?thesis using l1 ls[OF l1] by (auto simp: canceled_def moved_def Let_def split: option.split)
  next
    case (Some el)
    then show ?thesis using l1 lr[OF l1, of el] ls
      by (cases "list_remove el ?e") (auto simp: canceled_def moved_def Let_def split: option.split)
  qed
qed

lemma cancel_now_ok:
  assumes l: "live_inv C P e"
  shows "live_inv C P (snd (cancel_now e)) \<and> moved e (snd (cancel_now e))"
proof -
  obtain els q where dr: "drain Pop (Len (e_sched e)) (e_sched e) = (els, q)" by fastforce
  have "pq_inv (e_sched e)" using l by (simp add: live_inv_def data_inv_def)
  from pqueue.drain_sorted[OF this _ dr] have "pq_inv q" "pq_slice q = []" by (simp_all add: Len_def)
  then show ?thesis using l
    by (cases "e_status e") (auto simp: cancel_now_def dr live_inv_def data_inv_def run_inv_def moved_def Let_def)
qed

text \<open>The verdict on a turn: a crash is only possible by removing an orphan of the ready queue.\<close>

fun turn_ok :: "int \<Rightarrow> nat multiset \<Rightarrow> 'v executor \<Rightarrow> 'v turn \<Rightarrow> bool" where
  "turn_ok C P e (Continue e' r) \<longleftrightarrow> live_inv C P e' \<and> moved e e'"
| "turn_ok C P e (Return e' r) \<longleftrightarrow> ended_inv C P e' \<and> moved e e'"
| "turn_ok C P e (Crash m) \<longleftrightarrow> m = ''container/list: orphan element'' \<and> e_orphans e \<noteq> []"

lemma turn_of_ok: "next_ok C P e1 g \<Longrightarrow> moved e e1 \<Longrightarrow> turn_ok C P e (turn_of r g)"
  by (cases "(r, g)" rule: turn_of.cases) (auto dest: moved_trans)

lemma handle_ok:
  assumes l: "live_inv C (completed_task ev + P) e"
    and sub: "\<And>p. ev = TaskSubmittedEvent p \<Longrightarrow> p < e_nextTask e"
    and conc: "\<And>c. ev = UpdateConcurrencyEvent c \<Longrightarrow> 0 \<le> c \<and> c \<le> C"
  shows "turn_ok C P e (handle now ev e)"
proof (cases ev)
  case (TaskCompletedEvent p)
  then obtain e1 where "completed now p e = Ret e1" "live_inv C P e1" "moved e e1"
    using completed_ok[of C p P e now] l by auto
  then show ?thesis using TaskCompletedEvent turn_of_ok[OF tryRunNextTask_ok] by simp
next
  case (TaskCanceledEvent p)
  then show ?thesis using canceled_ok[of C P e p] l by (auto split: go.splits)
next
  case (TaskSubmittedEvent p)
  then show ?thesis using tryExecuteTask_live[of C P e p now] l sub by simp
next
  case CancelEvent
  let ?e = "e\<lparr>e_status := ExecutorStatusShuttingDown\<rparr>"
  have "e_status e = ExecutorStatusRunning \<Longrightarrow> moved e ?e" by (simp add: moved_def)
  moreover have "live_inv C P ?e" using CancelEvent l by (simp add: live_inv_def)
  ultimately have "e_status e = ExecutorStatusRunning \<Longrightarrow> turn_ok C P e (turn_of r (tryRunNextTask now ?e))" for r
    using turn_of_ok[OF tryRunNextTask_ok] by blast
  then show ?thesis using CancelEvent l by (auto simp: moved_def)
next
  case (UpdateConcurrencyEvent c)
  let ?e = "e\<lparr>e_concurrency := c\<rparr>"
  have "live_inv C P ?e" using UpdateConcurrencyEvent l conc by (simp add: live_inv_def run_inv_def)
  moreover have "moved e ?e" by (simp add: moved_def)
  ultimately show ?thesis using UpdateConcurrencyEvent turn_of_ok[OF run_queued_ok] by simp
next
  case (UpdateQueueCapacityEvent c)
  then show ?thesis using l by (simp add: live_inv_def moved_def)
next
  case CancelNowEvent
  then have "live_inv C P (snd (cancel_now e))" "moved e (snd (cancel_now e))"
    using cancel_now_ok[of C P e] l by simp_all
  then have "turn_ok C P e (turn_of r (tryRunNextTask now (snd (cancel_now e))))" for r
    using turn_of_ok[OF tryRunNextTask_ok] by blast
  then show ?thesis using CancelNowEvent l by (auto simp: moved_def case_prod_beta Let_def)
qed

lemma timer_fired_ok:
  assumes l: "live_inv C P e"
  shows "live_inv C P (timer_fired now e) \<and> moved e (timer_fired now e)"
proof (cases "Len (e_sched e) = 0")
  case True
  then show ?thesis using l by (simp add: timer_fired_def live_inv_def moved_def)
next
  case False
  let ?e = "e\<lparr>e_timerArmed := False\<rparr>"
  have inv: "pq_inv (e_sched e)" using l by (simp add: live_inv_def data_inv_def)
  then obtain el q where pop: "Pop (e_sched e) = Ret (el, q)" using Pop_Ret False by (metis Len_def length_0_conv)
  note pp = Pop_props[OF inv pop]
  have sub: "insert el (set (pq_slice q)) = set (pq_slice (e_sched e))"
    using pp(3) by (metis set_mset_add_mset_insert set_mset_mset)
  let ?p = "el_Value (pq_objs q el)"
  let ?f = "upd_task ?p (\<lambda>t. t\<lparr>t_sQueueElement := None\<rparr>) (?e\<lparr>e_sched := q\<rparr>)"
  have "live_inv C P ?f" using l pp sub by (auto simp: live_inv_def data_inv_def run_inv_def)
  moreover have "?p < e_nextTask e" using l pp sub by (auto simp: live_inv_def data_inv_def)
  ultimately have "live_inv C P (tryExecuteTask now ?p ?f) \<and> moved e (tryExecuteTask now ?p ?f)"
    using tryExecuteTask_live[of C P ?f ?p now] by (auto simp: moved_def)
  then show ?thesis using l False pop by (auto simp: timer_fired_def live_inv_def moved_def Let_def)
qed

text \<open>A change of one task that keeps a started task started and a running one under way.\<close>

lemma run_inv_change:
  assumes r: "run_inv C e P" and "task_inv t"
    and "t_status t = TaskStatusNew \<Longrightarrow> t_status (e_tasks e p) = TaskStatusNew"
    and "p \<in># e_goroutines e \<Longrightarrow> t_status t = TaskStatusRunning \<or> t_status t = TaskStatusCancelling"
  shows "run_inv C (e\<lparr>e_tasks := (e_tasks e)(p := t)\<rparr>) P"
proof -
  have "t_status (((e_tasks e)(p := t)) q) \<noteq> TaskStatusNew" if "q \<in># e_goroutines e + P" for q
    using r assms(3) that by (auto simp: run_inv_def)
  moreover have "t_status (((e_tasks e)(p := t)) q) = TaskStatusRunning \<or>
      t_status (((e_tasks e)(p := t)) q) = TaskStatusCancelling" if "q \<in># e_goroutines e" for q
    using r assms(4) that by (cases "q = p") (auto simp: run_inv_def)
  ultimately show ?thesis using r assms(2) unfolding run_inv_def by simp
qed

lemma run_inv_ends:
  assumes r: "run_inv C e P" and g: "e_goroutines e = add_mset p G"
  shows "run_inv C (e\<lparr>e_goroutines := G\<rparr>) ({#p#} + P)" "p \<notin># G"
proof -
  have "count (e_goroutines e + P) p \<le> 1" using r by (simp only: run_inv_def)
  then show "p \<notin># G" using g by (simp add: not_in_iff)
  have "e_goroutines e + P = G + ({#p#} + P)" using g by simp
  then show "run_inv C (e\<lparr>e_goroutines := G\<rparr>) ({#p#} + P)" using r g unfolding run_inv_def by simp
qed

lemma finish_inv:
  assumes r: "run_inv C e P" and p: "p \<in># e_goroutines e" and f: "finish p out e = Ret e'"
  shows "run_inv C e' ({#p#} + P)"
proof -
  have ti: "task_inv (e_tasks e p)" using r by (simp add: run_inv_def)
  have g: "e_goroutines e = add_mset p (e_goroutines e - {#p#})" using p by simp
  note n = run_inv_ends[OF r g]
  have d: "run_inv C (e\<lparr>e_goroutines := e_goroutines e - {#p#}, e_tasks := (e_tasks e)(p := t)\<rparr>) ({#p#} + P)"
    if "setDone v err (e_tasks e p) = Ret (b, t)" for v err b t
  proof -
    have "task_inv t" "t_status t = TaskStatusDone"
      using that setDone_Ret[OF ti, of v err] setDone_status[OF that] by auto
    from run_inv_change[OF n(1) this(1), of p] this(2) n(2) show ?thesis by simp
  qed
  show ?thesis using f d n
    by (cases out) (auto simp: finish_def Let_def split: if_splits elim!: go_bind.elims)
qed

lemma finish_frame:
  assumes "finish p out e = Ret e'"
  shows "data_inv e' = data_inv e" "e_status e' = e_status e" "e_termClosed e' = e_termClosed e"
    "e_nextTask e' = e_nextTask e" "e_queue e' = e_queue e" "e_sched e' = e_sched e" "e_running e' = e_running e"
  using assms by (cases out; auto simp: finish_def Let_def split: if_splits elim!: go_bind.elims)+

section \<open>Invariant of the whole system\<close>

definition sys_inv :: "int \<Rightarrow> 'v system \<Rightarrow> bool" where
  "sys_inv C s \<longleftrightarrow>
     (if sys_alive s then live_inv C (completions (sys_pending s)) (sys_ex s)
      else ended_inv C (completions (sys_pending s)) (sys_ex s)) \<and>
     (\<forall>p. TaskSubmittedEvent p \<in># sys_pending s \<longrightarrow> p < e_nextTask (sys_ex s)) \<and>
     (\<forall>c. UpdateConcurrencyEvent c \<in># sys_pending s \<longrightarrow> 0 \<le> c \<and> c \<le> C)"

text \<open>A change of the tasks that the clients make from outside the loop.\<close>

lemma client_task_change:
  assumes "sys_inv C s" "task_inv t"
    and "t_status t = TaskStatusNew \<Longrightarrow> t_status (e_tasks (sys_ex s) p) = TaskStatusNew"
    and "p \<in># e_goroutines (sys_ex s) \<Longrightarrow> t_status t = TaskStatusRunning \<or> t_status t = TaskStatusCancelling"
  shows "sys_inv C (s\<lparr>sys_ex := upd_task p (\<lambda>_. t) (sys_ex s)\<rparr>)"
  using assms(1) run_inv_change[OF _ assms(2-4)]
  by (simp add: sys_inv_def live_inv_def ended_inv_def split: if_splits)

lemma Cancel_task:
  assumes "task_inv t" "Cancel t = Ret (True, u)"
  shows "task_inv u" "t_status u \<noteq> TaskStatusNew"
    "t_status t = TaskStatusRunning \<Longrightarrow> t_status u = TaskStatusCancelling"
    "t_status t = TaskStatusNew \<or> t_status t = TaskStatusRunning"
proof -
  show "task_inv u" using task_exec_inv[OF assms(1), of CallCancel] assms(2) by simp
  show "t_status u \<noteq> TaskStatusNew" using task_exec_cancels[of t u] assms(2) by auto
  show "t_status t = TaskStatusRunning \<Longrightarrow> t_status u = TaskStatusCancelling"
    using assms(2) by (auto simp: Cancel_def cancel_ctx_def split: if_splits)
  show "t_status t = TaskStatusNew \<or> t_status t = TaskStatusRunning"
    using assms(2) by (cases "t_status t") (simp_all add: Cancel_def)
qed

lemma schedule_inv:
  assumes "sys_inv C s" "schedule now d0 d typ (sys_ex s) = Inr (e, p)"
  shows "sys_inv C (send (TaskSubmittedEvent p) (s\<lparr>sys_ex := e\<rparr>))" "e_status e = e_status (sys_ex s)"
proof -
  have nc: "e_status (sys_ex s) = ExecutorStatusRunning" and p: "p = e_nextTask (sys_ex s)"
    using assms(2) by (auto simp: schedule_def exec_Canceled_def Let_def split: if_splits)
  have al: "sys_alive s" using assms(1) nc by (auto simp: sys_inv_def ended_inv_def split: if_splits)
  have "task_inv (configureContext (newTask now tid typ d0 d) :: 'a task)" for tid
    by (simp add: task_inv_def configureContext_def newTask_def)
  then obtain t where e: "e = sys_ex s\<lparr>e_taskCount := e_taskCount (sys_ex s) + 1, e_nextTask := Suc p,
      e_tasks := (e_tasks (sys_ex s))(p := t)\<rparr>" and t: "task_inv t"
    using assms(2) p by (auto simp: schedule_def Let_def split: if_splits)
  have l: "live_inv C (completions (sys_pending s)) (sys_ex s)" using assms(1) al by (simp add: sys_inv_def)
  then have "data_inv e" unfolding live_inv_def data_inv_def e p by (auto intro: less_SucI)
  moreover have "run_inv C e (completions (sys_pending s))"
    using l t unfolding live_inv_def run_inv_def e p by auto
  ultimately have "live_inv C (completions (sys_pending s)) e \<and> e_nextTask e = Suc p"
    using l unfolding live_inv_def e by simp
  then show "sys_inv C (send (TaskSubmittedEvent p) (s\<lparr>sys_ex := e\<rparr>))"
    using assms(1) al p by (auto simp: sys_inv_def less_Suc_eq)
  show "e_status e = e_status (sys_ex s)"
    using assms(2) by (auto simp: schedule_def Let_def split: if_splits)
qed

lemma completions_cong [simp]: "completed_task ev = {#} \<Longrightarrow> completed_task ev + M = M"
  by simp

lemma send_inv:
  "sys_inv C s \<Longrightarrow> completed_task ev = {#} \<Longrightarrow> (\<And>p. ev \<noteq> TaskSubmittedEvent p) \<Longrightarrow>
   (\<And>c. ev = UpdateConcurrencyEvent c \<Longrightarrow> 0 \<le> c \<and> c \<le> C) \<Longrightarrow> sys_inv C (send ev s)"
  by (auto simp: sys_inv_def split: if_splits)

lemma receive_inv:
  assumes i: "sys_inv C s" and a: "sys_alive s" and ev: "ev \<in># sys_pending s"
  shows "turn_ok C (completions (sys_pending s - {#ev#})) (sys_ex s) (handle (sys_now s) ev (sys_ex s))"
proof (rule handle_ok)
  show "live_inv C (completed_task ev + completions (sys_pending s - {#ev#})) (sys_ex s)"
    using i a completions_remove[OF ev] by (simp add: sys_inv_def)
qed (use i ev in \<open>auto simp: sys_inv_def\<close>)

lemma sys_step_inv:
  assumes "sys_step C s t" "sys_inv C s"
  shows "sys_inv C t \<and> e_status (sys_ex s) \<le> e_status (sys_ex t)"
  using assms
proof cases
  case (tick n)
  then show ?thesis using assms(2) by (simp add: sys_inv_def)
next
  case (submit d0 d ty e p)
  then show ?thesis using schedule_inv[OF assms(2)] by simp
next
  case (await p)
  let ?t = "e_tasks (sys_ex s) p"
  have ti: "task_inv ?t" using assms(2) by (auto simp: sys_inv_def live_inv_def ended_inv_def run_inv_def split: if_splits)
  have "task_inv (snd (Await ?t))" using task_exec_inv[OF ti, of CallAwait] by simp
  moreover have "t_status (snd (Await ?t)) = t_status ?t" by (simp add: Await_def Let_def split: option.split)
  moreover have "p \<in># e_goroutines (sys_ex s) \<Longrightarrow> t_status ?t = TaskStatusRunning \<or> t_status ?t = TaskStatusCancelling"
    using assms(2) by (auto simp: sys_inv_def live_inv_def ended_inv_def run_inv_def split: if_splits)
  ultimately show ?thesis using await client_task_change[OF assms(2), of "snd (Await ?t)" p] by simp
next
  case (cancel_task p u)
  let ?t = "e_tasks (sys_ex s) p"
  have ti: "task_inv ?t" and g: "p \<in># e_goroutines (sys_ex s) \<Longrightarrow> t_status ?t \<noteq> TaskStatusNew"
    using assms(2) by (auto simp: sys_inv_def live_inv_def ended_inv_def run_inv_def split: if_splits)
  note c = Cancel_task[OF ti cancel_task(3)]
  have "sys_inv C (s\<lparr>sys_ex := upd_task p (\<lambda>_. u) (sys_ex s)\<rparr>)"
    using client_task_change[OF assms(2) c(1), of p] c(2-) g by blast
  from send_inv[OF this, of "TaskCanceledEvent p"] show ?thesis using cancel_task by simp
next
  case cancel
  then show ?thesis using send_inv[OF assms(2), of CancelEvent] by simp
next
  case (cancel_now evs)
  then show ?thesis using send_inv[OF assms(2), of CancelNowEvent] by simp
next
  case (set_concurrency c)
  then show ?thesis using send_inv[OF assms(2), of "SetConcurrency c"] by (simp add: SetConcurrency_def)
next
  case (set_capacity c)
  then show ?thesis using send_inv[OF assms(2), of "SetQueueCapacity c"] by (simp add: SetQueueCapacity_def)
next
  case (task_ends p out e)
  note f = finish_frame[OF task_ends(3)]
  have "run_inv C (sys_ex s) (completions (sys_pending s))"
    using assms(2) by (auto simp: sys_inv_def live_inv_def ended_inv_def split: if_splits)
  from finish_inv[OF this task_ends(2,3)] show ?thesis
    using task_ends(1) assms(2) f by (auto simp: sys_inv_def live_inv_def ended_inv_def split: if_splits)
next
  case (receive ev e r)
  then show ?thesis using receive_inv[OF assms(2), of ev] assms(2)
    by (auto simp: sys_inv_def moved_def dest: in_diffD)
next
  case (loop_returns ev e r)
  then show ?thesis using receive_inv[OF assms(2), of ev] assms(2)
    by (auto simp: sys_inv_def moved_def dest: in_diffD)
next
  case timer
  then show ?thesis using timer_fired_ok[of C _ "sys_ex s" "sys_now s"] assms(2)
    by (auto simp: sys_inv_def moved_def)
qed

lemma ended_nothing_runs: "ended_inv C P e \<Longrightarrow> e_goroutines e = {#} \<and> P = {#}"
proof -
  assume "ended_inv C P e"
  then have "int (size (e_goroutines e + P)) = 0" unfolding ended_inv_def run_inv_def by linarith
  then show ?thesis by (metis of_nat_eq_0_iff size_eq_0_iff_empty union_eq_empty)
qed

lemma reachable_inv: "sys_reachable C s \<Longrightarrow> sys_inv C s"
proof (induction rule: sys_reachable.induct)
  case (start c q tasks now cap)
  then show ?case
    by (simp add: sys_inv_def live_inv_def data_inv_def run_inv_def NewDefaultExecutor_def task_inv_def newTask_def)
qed (use sys_step_inv in blast)

section \<open>Properties of the executor\<close>

text \<open>Two short histories: a task submitted and started; and an idle executor that is cancelled.\<close>

definition sys0 :: "nat system" where
  "sys0 = \<lparr>sys_ex = NewDefaultExecutor 0 1 1 (\<lambda>_. newTask 0 0 TaskTypeOnce 0 0) (NewPriorityQueue 0 mem0 0 0),
           sys_alive = True, sys_pending = {#}, sys_now = 0\<rparr>"

definition sys_submitted :: "nat system" where
  "sys_submitted = send (TaskSubmittedEvent 0)
     (sys0\<lparr>sys_ex := (case Submit 0 (sys_ex sys0) of Inr (e, _) \<Rightarrow> e | Inl _ \<Rightarrow> sys_ex sys0)\<rparr>)"

definition sys_started :: "nat system" where
  "sys_started = sys_submitted\<lparr>sys_ex := tryExecuteTask 0 0 (sys_ex sys_submitted), sys_pending := {#}\<rparr>"

definition sys_ended :: "nat system" where
  "sys_ended = sys0\<lparr>sys_ex := (sys_ex sys0)\<lparr>e_status := ExecutorStatusTerminated, e_termClosed := True\<rparr>,
     sys_alive := False\<rparr>"

lemmas sys_hist_defs = sys0_def sys_submitted_def sys_started_def NewDefaultExecutor_def NewPriorityQueue_def
  Submit_def Schedule_def schedule_def exec_Canceled_def remainingTotalCapacity_def QueueLength_def Len_def

lemma sys0_reachable: "sys_reachable 1 sys0"
  unfolding sys0_def by (rule sys_reachable.start) (simp_all add: NewPriorityQueue_def NewPriorityQueue_inv[unfolded NewPriorityQueue_def])

lemma sys_submitted_step: "sys_step 1 sys0 sys_submitted"
  unfolding sys_submitted_def
  by (rule sys_step.submit[of _ 0 0 TaskTypeOnce]) (simp add: sys_hist_defs Let_def)

lemma sys_started_step: "sys_step 1 sys_submitted sys_started"
proof -
  have "sys_step 1 sys_submitted (sys_submitted\<lparr>sys_ex := tryExecuteTask 0 0 (sys_ex sys_submitted),
      sys_pending := sys_pending sys_submitted - {#TaskSubmittedEvent 0#}\<rparr>)"
    by (rule sys_step.receive[where ev = "TaskSubmittedEvent 0"]) (simp_all add: sys_submitted_def sys0_def)
  then show ?thesis by (simp add: sys_started_def sys_submitted_def sys0_def)
qed

lemma sys_started_reachable: "sys_reachable 1 sys_started"
  using sys0_reachable sys_submitted_step sys_started_step sys_reachable.step by blast

lemma sys_ended_step: "sys_step 1 (send CancelEvent sys0) sys_ended"
proof -
  have "handle 0 CancelEvent (sys_ex sys0) = Return (sys_ex sys_ended) (CancelReply True)"
    by (simp add: sys_hist_defs sys_ended_def tryRunNextTask_def Terminated_def)
  then have "sys_step 1 (send CancelEvent sys0) ((send CancelEvent sys0)\<lparr>sys_ex := sys_ex sys_ended,
      sys_pending := sys_pending (send CancelEvent sys0) - {#CancelEvent#}, sys_alive := False\<rparr>)"
    by (intro sys_step.loop_returns) (simp_all add: sys0_def)
  then show ?thesis by (simp add: sys_ended_def sys0_def)
qed

lemma sys_ended_reachable: "sys_reachable 1 sys_ended"
proof -
  have "sys_step 1 sys0 (send CancelEvent sys0)"
    by (rule sys_step.cancel) (simp add: client_Cancel_def sys_hist_defs)
  then show ?thesis using sys0_reachable sys_ended_step sys_reachable.step by blast
qed

text \<open>C1. Whatever the clients and the tasks do, and however their events interleave, the executor
  never runs more goroutines than the largest concurrency it was given, and never runs one task in
  two goroutines at once.\<close>

theorem executor_bounds_concurrency:
  "sys_reachable C s \<Longrightarrow>
   int (size (e_goroutines (sys_ex s))) \<le> C \<and> (\<forall>p. count (e_goroutines (sys_ex s)) p \<le> 1)"
proof -
  assume "sys_reachable C s"
  then have r: "run_inv C (sys_ex s) (completions (sys_pending s))"
    using reachable_inv[of C s] by (auto simp: sys_inv_def live_inv_def ended_inv_def split: if_splits)
  then have "count (e_goroutines (sys_ex s) + completions (sys_pending s)) p \<le> 1" for p
    by (simp only: run_inv_def)
  then have "count (e_goroutines (sys_ex s)) p \<le> 1" for p by (metis add_leE count_union)
  then show ?thesis using r by (simp add: run_inv_def)
qed

theorem executor_bounds_concurrency_witness:
  "e_goroutines (sys_ex sys_started) = {#0#} \<and> int (size (e_goroutines (sys_ex sys_started))) \<le> 1"
  using executor_bounds_concurrency[OF sys_started_reachable]
  by (simp add: sys_hist_defs tryExecuteTask_def executeTask_def setRunning_def Runnable_def Delay_def
      canStartNewTask_def configureContext_def newTask_def)

text \<open>C19. The termination channel is closed exactly when the executor is terminated, and a terminated
  executor has returned from its loop with both queues empty, no task running, and no completion
  that it has not received.\<close>

theorem executor_terminates_clean:
  "sys_reachable C s \<Longrightarrow>
   (e_termClosed (sys_ex s) \<longleftrightarrow> Terminated (sys_ex s)) \<and> (sys_alive s \<longleftrightarrow> \<not> Terminated (sys_ex s)) \<and>
   (Terminated (sys_ex s) \<longrightarrow> QueueLength (sys_ex s) = 0 \<and> e_goroutines (sys_ex s) = {#} \<and>
      (\<forall>p. TaskCompletedEvent p \<notin># sys_pending s))"
proof -
  assume "sys_reachable C s"
  then have i: "sys_inv C s" by (rule reachable_inv)
  have "TaskCompletedEvent p \<notin># M" if "completions M = {#}" for p M
    using that by (auto simp: completions_def)
  moreover have "e_goroutines (sys_ex s) = {#} \<and> completions (sys_pending s) = {#}" if "\<not> sys_alive s"
    using i that ended_nothing_runs by (auto simp: sys_inv_def)
  ultimately show ?thesis using i
    by (cases "sys_alive s")
      (simp_all add: sys_inv_def live_inv_def ended_inv_def Terminated_def QueueLength_def Len_def)
qed

theorem executor_terminates_clean_witness:
  "Terminated (sys_ex sys_ended) \<and> \<not> sys_alive sys_ended \<and> QueueLength (sys_ex sys_ended) = 0"
  using executor_terminates_clean[OF sys_ended_reachable] by (simp add: sys_ended_def Terminated_def)

text \<open>Over any further history the status of the executor only moves forward: running, shutting
  down, waiting for termination, terminated.\<close>

lemma executor_status_moves_forward:
  "sys_reachable C s \<Longrightarrow> (sys_step C)\<^sup>*\<^sup>* s t \<Longrightarrow> e_status (sys_ex s) \<le> e_status (sys_ex t)"
proof -
  assume r: "sys_reachable C s" and st: "(sys_step C)\<^sup>*\<^sup>* s t"
  from st have "sys_reachable C t \<and> e_status (sys_ex s) \<le> e_status (sys_ex t)"
  proof (induction rule: rtranclp_induct)
    case (step u v)
    then show ?case using sys_step_inv[OF step(2)] reachable_inv sys_reachable.step order_trans by metis
  qed (simp add: r)
  then show ?thesis by simp
qed

lemma executor_status_moves_forward_witness:
  "e_status (sys_ex sys0) = ExecutorStatusRunning \<and> e_status (sys_ex sys0) \<le> e_status (sys_ex sys_ended)"
proof -
  have "sys_step 1 sys0 (send CancelEvent sys0)"
    by (rule sys_step.cancel) (simp add: client_Cancel_def sys_hist_defs)
  then have "(sys_step 1)\<^sup>*\<^sup>* sys0 sys_ended" using sys_ended_step by (meson converse_rtranclp_into_rtranclp rtranclp.rtrancl_refl)
  from executor_status_moves_forward[OF sys0_reachable this] show ?thesis by (simp add: sys_hist_defs)
qed



text \<open>\<open>CancelNow\<close> hands back every waiting task once: first the ready queue in its order, then the
  scheduled tasks in the order of their next run, earlier submissions first; both queues are then empty.\<close>

lemma cancel_now_returns_waiting_tasks:
  assumes inv: "pq_inv (e_sched e)" and st: "e_status e < ExecutorStatusWaitingTermination" and op: "\<not> e_termClosed e"
  shows "\<exists>els e'. mset els = mset (pq_slice (e_sched e)) \<and> sorted (map (key_of (e_sched e)) els) \<and>
     (let r = FuturesReply (Some (map snd (e_queue e) @ map (\<lambda>el. el_Value (pq_objs (e_sched e) el)) els))
      in handle now CancelNowEvent e = Continue e' r \<or> handle now CancelNowEvent e = Return e' r) \<and>
     QueueLength e' = 0"
proof -
  obtain els q where dr: "drain Pop (Len (e_sched e)) (e_sched e) = (els, q)" by fastforce
  have d: "mset els = mset (pq_slice (e_sched e))" "sorted (map (key_of (e_sched e)) els)" "pq_slice q = []"
    using pqueue.drain_sorted[OF inv _ dr] by (simp_all add: Len_def)
  let ?e = "snd (cancel_now e)"
  let ?r = "FuturesReply (Some (map snd (e_queue e) @ map (\<lambda>el. el_Value (pq_objs (e_sched e) el)) els))"
  have "e_queue ?e = []" "e_sched ?e = q" "\<not> e_termClosed ?e" using op by (simp_all add: cancel_now_def dr)
  then have q0: "QueueLength ?e = 0" "\<not> e_termClosed ?e" using d(3) by (simp_all add: QueueLength_def Len_def)
  have "\<exists>e' ok. tryRunNextTask now ?e = Ret (e', ok) \<and> QueueLength e' = 0"
    using q0 by (auto simp: tryRunNextTask_def QueueLength_def)
  then obtain e' ok where t: "tryRunNextTask now ?e = Ret (e', ok)" "QueueLength e' = 0" by blast
  have "fst (cancel_now e) = map snd (e_queue e) @ map (\<lambda>el. el_Value (pq_objs (e_sched e) el)) els"
    by (simp add: cancel_now_def dr)
  moreover have "\<not> ExecutorStatusWaitingTermination \<le> e_status e" using st by (metis not_le)
  ultimately have "handle now CancelNowEvent e = turn_of ?r (Ret (e', ok))"
    using t by (simp add: case_prod_beta Let_def del: exec_status_le)
  then show ?thesis using d t(2) by (metis turn_of.simps(2))
qed

text \<open>An idle executor with one task ready and two scheduled.\<close>

definition ex_waiting :: "nat executor" where
  "ex_waiting = (sys_ex sys0)\<lparr>e_queue := [(0, 7)],
     e_sched := push_all [(5, 20), (6, 10)] (NewPriorityQueue 0 mem0 0 0)\<rparr>"

lemma ex_waiting_inv: "pq_inv (e_sched ex_waiting)"
proof -
  have "pq_inv (NewPriorityQueue 0 mem0 0 0)" by (rule NewPriorityQueue_inv) simp
  from push_all_props(1)[OF this] show ?thesis by (simp add: ex_waiting_def del: push_all.simps)
qed

lemma cancel_now_returns_waiting_tasks_witness:
  "\<exists>els e' r. mset els = mset (pq_slice (e_sched ex_waiting)) \<and> sorted (map (key_of (e_sched ex_waiting)) els) \<and>
     r = FuturesReply (Some (7 # map (\<lambda>el. el_Value (pq_objs (e_sched ex_waiting) el)) els)) \<and>
     (handle 0 CancelNowEvent ex_waiting = Continue e' r \<or> handle 0 CancelNowEvent ex_waiting = Return e' r) \<and>
     QueueLength e' = 0"
proof -
  have "e_status ex_waiting < ExecutorStatusWaitingTermination" "\<not> e_termClosed ex_waiting"
    "e_queue ex_waiting = [(0, 7)]"
    by (simp_all add: ex_waiting_def sys0_def NewDefaultExecutor_def less_exec_status_def)
  with cancel_now_returns_waiting_tasks[OF ex_waiting_inv this(1,2), of 0] show ?thesis
    by (auto simp: Let_def simp del: handle.simps)
qed

text \<open>A submission is rejected with \<open>ErrExecutorCanceled\<close> exactly when the executor was cancelled,
  with \<open>ErrExecutorQueueFull\<close> exactly when it is bounded and running and queued tasks leave no room,
  and is otherwise accepted with the next task number and its first run after the initial delay.\<close>

lemma schedule_result:
  "(schedule now d0 d ty e = Inl ErrExecutorCanceled \<longleftrightarrow> e_status e \<noteq> ExecutorStatusRunning) \<and>
   (schedule now d0 d ty e = Inl ErrExecutorQueueFull \<longleftrightarrow> e_status e = ExecutorStatusRunning \<and>
      0 \<le> e_concurrency e \<and> 0 \<le> e_capacity e \<and>
      e_concurrency e + e_capacity e \<le> e_running e + int (QueueLength e)) \<and>
   (case schedule now d0 d ty e of
      Inl _ \<Rightarrow> True
    | Inr (e', p) \<Rightarrow> p = e_nextTask e \<and> t_id (e_tasks e' p) = e_taskCount e + 1 \<and>
        t_nextRun (e_tasks e' p) = now + d0 \<and> Runnable (e_tasks e' p) \<and> QueueLength e' = QueueLength e)"
  by (auto simp: schedule_def exec_Canceled_def remainingTotalCapacity_def Runnable_def configureContext_def
      newTask_def QueueLength_def Let_def)

text \<open>A cancelled executor whose queues are empty terminates in the turn in which it receives the
  completion of its last task: the loop returns and the termination channel is closed.\<close>

lemma last_completion_terminates:
  assumes "sys_reachable C s" "sys_alive s" "TaskCompletedEvent p \<in># sys_pending s"
    and "exec_Canceled (sys_ex s)" "QueueLength (sys_ex s) = 0" "e_running (sys_ex s) = 1" "Done (e_tasks (sys_ex s) p)"
  shows "\<exists>e. handle (sys_now s) (TaskCompletedEvent p) (sys_ex s) = Return e NoReply \<and> Terminated e \<and> AwaitTermination e"
proof -
  have "live_inv C (completions (sys_pending s)) (sys_ex s)"
    using reachable_inv[OF assms(1)] assms(2) by (simp add: sys_inv_def)
  then have "\<not> e_termClosed (sys_ex s)" "e_status (sys_ex s) \<noteq> ExecutorStatusTerminated" by (simp_all add: live_inv_def)
  then show ?thesis using assms(4-) exec_status.exhaust[of "e_status (sys_ex s)"]
    by (auto simp: completed_def tryRunNextTask_def exec_Canceled_def QueueLength_def Terminated_def
        AwaitTermination_def Let_def)
qed

text \<open>The history of \<open>sys_started\<close> goes on: the task ends, the executor is cancelled, and the loop
  receives the cancellation before the completion.\<close>

definition sys_last :: "nat system" where
  "sys_last = (let e = (case finish 0 (Returned (Some 3) None) (sys_ex sys_started) of Ret e \<Rightarrow> e | Panic _ \<Rightarrow> sys_ex sys0)
     in sys_started\<lparr>sys_ex := e\<lparr>e_status := ExecutorStatusWaitingTermination\<rparr>, sys_pending := {#TaskCompletedEvent 0#}\<rparr>)"

lemma sys_started_ex:
  "sys_ex sys_started = (sys_ex sys0)\<lparr>e_taskCount := 1, e_nextTask := 1, e_running := 1, e_goroutines := {#0#},
     e_tasks := (e_tasks (sys_ex sys0))(0 := (newTask 0 1 TaskTypeOnce 0 0)\<lparr>t_ctx := Some False, t_status := TaskStatusRunning\<rparr>)\<rparr>"
  by (simp add: sys_hist_defs tryExecuteTask_def executeTask_def setRunning_def Runnable_def Delay_def
      canStartNewTask_def configureContext_def newTask_def)

lemmas finish_defs = finish_def setDone_def cancel_ctx_def Periodic_def newTask_def

lemma sys_last_reachable: "sys_reachable 1 sys_last"
proof -
  let ?a = "send CancelEvent sys_started"
  obtain e where f: "finish 0 (Returned (Some 3) None) (sys_ex sys_started) = Ret e"
    by (simp add: sys_started_ex finish_defs Let_def)
  let ?b = "send (TaskCompletedEvent 0) (?a\<lparr>sys_ex := e\<rparr>)"
  have a: "sys_step 1 sys_started ?a"
    by (rule sys_step.cancel) (simp add: client_Cancel_def sys_started_ex sys0_def NewDefaultExecutor_def)
  have b: "sys_step 1 ?a ?b"
    using f by (intro sys_step.task_ends[where out = "Returned (Some 3) None"]) (simp_all add: sys_started_ex)
  have e: "e_status e = ExecutorStatusRunning" "QueueLength e = 0" "e_running e = 1"
    using f by (simp_all add: sys_started_ex finish_defs Let_def sys0_def NewDefaultExecutor_def NewPriorityQueue_def
      QueueLength_def Len_def) auto
  have "handle 0 CancelEvent e = Continue (e\<lparr>e_status := ExecutorStatusWaitingTermination\<rparr>) (CancelReply True)"
    using e by (simp add: tryRunNextTask_def Terminated_def exec_Canceled_def QueueLength_def)
  then have "sys_step 1 ?b (?b\<lparr>sys_ex := e\<lparr>e_status := ExecutorStatusWaitingTermination\<rparr>,
      sys_pending := sys_pending ?b - {#CancelEvent#}\<rparr>)"
    by (intro sys_step.receive[where r = "CancelReply True"]) (simp_all add: sys_started_def sys_submitted_def sys0_def)
  moreover have "?b\<lparr>sys_ex := e\<lparr>e_status := ExecutorStatusWaitingTermination\<rparr>,
      sys_pending := sys_pending ?b - {#CancelEvent#}\<rparr> = sys_last"
    using f by (simp add: sys_last_def sys_started_def sys_submitted_def sys0_def)
  ultimately show ?thesis using sys_started_reachable a b sys_reachable.step by metis
qed

lemma last_completion_terminates_witness:
  "\<exists>e. handle 0 (TaskCompletedEvent 0) (sys_ex sys_last) = Return e NoReply \<and> Terminated e \<and> AwaitTermination e"
proof -
  have "sys_alive sys_last" "TaskCompletedEvent 0 \<in># sys_pending sys_last" "exec_Canceled (sys_ex sys_last)"
    "QueueLength (sys_ex sys_last) = 0" "e_running (sys_ex sys_last) = 1" "Done (e_tasks (sys_ex sys_last) 0)" "sys_now sys_last = 0"
    by (simp_all add: sys_last_def sys_started_ex finish_defs Let_def exec_Canceled_def QueueLength_def Len_def Done_def)
      (simp_all add: sys_hist_defs)
  with last_completion_terminates[OF sys_last_reachable this(1-6)] show ?thesis by simp
qed

section \<open>Where the loop leaves work behind\<close>

text \<open>The loop handles the cancellation of a task only when the ready queue is not empty: with an
  empty ready queue, a cancelled task stays in the scheduled queue and keeps counting against the
  capacity.\<close>

lemma cancel_leaves_scheduled_task:
  "e_queue e = [] \<Longrightarrow>
   \<exists>e'. handle now (TaskCanceledEvent p) e = Continue e' NoReply \<and> e_sched e' = e_sched e \<and>
        remainingTotalCapacity e' = remainingTotalCapacity e"
  by (simp add: canceled_def remainingTotalCapacity_def QueueLength_def Let_def)

lemma cancel_leaves_scheduled_task_witness:
  "\<exists>e'. handle 3 (TaskCanceledEvent 5) (ex_waiting\<lparr>e_queue := []\<rparr>) = Continue e' NoReply \<and>
     e_sched e' = e_sched ex_waiting"
  using cancel_leaves_scheduled_task[of "ex_waiting\<lparr>e_queue := []\<rparr>" 3 5] by auto

text \<open>When the timer fires for a task and the next scheduled task has the very instant the timer
  was set for, the loop leaves the timer unarmed with that task still waiting: the wake-up is lost.\<close>

lemma same_instant_loses_wakeup:
  assumes inv: "pq_inv (e_sched e)" and pop: "Pop (e_sched e) = Ret (el, q)" and more: "pq_slice q \<noteq> []"
    and due: "t_nextRun (e_tasks e (sched_top e)) \<le> now"
    and same: "t_nextRun (e_tasks e (el_Value (pq_objs q (pq_slice q ! 0)))) = e_timerTarget e"
  shows "\<not> e_timerArmed (timer_fired now e) \<and> e_sched (timer_fired now e) = q"
proof -
  note pp = Pop_props[OF inv pop]
  have top: "el_Value (pq_objs q el) = sched_top e" using pp(1,8) by (simp add: sched_top_def)
  let ?f = "upd_task (sched_top e) (\<lambda>t. t\<lparr>t_sQueueElement := None\<rparr>) (e\<lparr>e_timerArmed := False, e_sched := q\<rparr>)"
  let ?g = "tryExecuteTask now (sched_top e) ?f"
  have g: "e_sched ?g = q" "\<not> e_timerArmed ?g" "e_timerTarget ?g = e_timerTarget e"
    "t_nextRun (e_tasks ?g p) = t_nextRun (e_tasks e p)" for p
    using due by (auto simp: tryExecuteTask_def executeTask_def setRunning_def Delay_def push_back_def Let_def)
  have len: "Len (e_sched e) \<noteq> 0" using pop by (auto simp: Pop_def split: nat.splits if_splits)
  have "timer_fired now e = configureSchedulerTimer ?g"
    using len due pop top by (simp add: timer_fired_def sched_top_def Let_def)
  moreover have "configureSchedulerTimer ?g = ?g"
    using g same more by (simp add: configureSchedulerTimer_def sched_top_def Len_def)
  ultimately show ?thesis using g by simp
qed

text \<open>Two tasks due at the instant the timer was set for.\<close>

definition ex_same_instant :: "nat executor" where
  "ex_same_instant = ex_waiting\<lparr>e_queue := [], e_timerTarget := 20, e_tasks := (\<lambda>_. newTask 0 1 TaskTypeOnce 20 0)\<rparr>"

lemma same_instant_loses_wakeup_witness:
  "\<not> e_timerArmed (timer_fired 20 ex_same_instant) \<and> Len (e_sched (timer_fired 20 ex_same_instant)) = 1"
proof -
  have inv: "pq_inv (e_sched ex_same_instant)" using ex_waiting_inv by (simp add: ex_same_instant_def)
  have "pq_inv (NewPriorityQueue 0 mem0 0 0)" by (rule NewPriorityQueue_inv) simp
  from push_all_props[OF this, of "[(5, 20), (6, 10)]"]
  have "mset (pq_slice (e_sched ex_same_instant)) = {#0, 1#}"
    by (simp add: ex_same_instant_def ex_waiting_def NewPriorityQueue_def upt_rec del: push_all.simps)
  from arg_cong[OF this, of size] have l: "length (pq_slice (e_sched ex_same_instant)) = 2" by simp
  then obtain el q where pop: "Pop (e_sched ex_same_instant) = Ret (el, q)" using Pop_Ret[of "e_sched ex_same_instant"] by fastforce
  have "Suc (length (pq_slice q)) = 2" using Pop_props(3)[OF inv pop] l by (metis size_add_mset size_mset)
  then have "pq_slice q \<noteq> []" "Len q = 1" by (auto simp: Len_def)
  with same_instant_loses_wakeup[OF inv pop this(1), of 20] show ?thesis
    by (simp add: ex_same_instant_def newTask_def)
qed

text \<open>A task that was cancelled while it waited in the ready queue without its element (a periodic
  task put back after a run) uses up a turn: the completion of the last running task takes it off the
  queue and starts nothing, so the tasks behind it wait although nothing runs.\<close>

lemma cancelled_head_stalls_queue:
  assumes "Done (e_tasks e p)" "e_queue e = (el, c) # rest" "rest \<noteq> []" "Done (e_tasks e c)"
    and "e_running e = 1" "0 < e_concurrency e" "e_status e \<noteq> ExecutorStatusTerminated"
  shows "\<exists>e'. handle now (TaskCompletedEvent p) e = Continue e' NoReply \<and> e_queue e' = rest \<and>
     e_running e' = 0 \<and> canStartNewTask e' \<and> e_goroutines e' = e_goroutines e"
  using assms by (auto simp: completed_def tryRunNextTask_def tryExecuteTask_def Terminated_def QueueLength_def
      canStartNewTask_def Runnable_def Done_def Let_def)

lemma cancelled_head_stalls_queue_witness:
  "let done = (newTask 0 1 TaskTypeOnce 0 0)\<lparr>t_status := TaskStatusDone\<rparr>;
       e = (sys_ex sys0)\<lparr>e_running := 1, e_queue := [(0, 1), (1, 2)],
             e_tasks := (e_tasks (sys_ex sys0))(0 := done, 1 := done)\<rparr>
   in \<exists>e'. handle 0 (TaskCompletedEvent 0) e = Continue e' NoReply \<and> e_queue e' = [(1, 2)] \<and>
        Runnable (e_tasks e 2) \<and> e_running e' = 0 \<and> canStartNewTask e'"
  using cancelled_head_stalls_queue[of "(sys_ex sys0)\<lparr>e_running := 1, e_queue := [(0, 1), (1, 2)],
             e_tasks := (e_tasks (sys_ex sys0))(0 := (newTask 0 1 TaskTypeOnce 0 0)\<lparr>t_status := TaskStatusDone\<rparr>,
               1 := (newTask 0 1 TaskTypeOnce 0 0)\<lparr>t_status := TaskStatusDone\<rparr>)\<rparr>" 0 0 1 "[(1, 2)]" 0]
  by (auto simp: Done_def Let_def sys0_def NewDefaultExecutor_def Runnable_def newTask_def simp del: handle.simps)

end
