(* ===== verification/Progress.thy ===== *)
theory Progress
  imports Executor
begin

text \<open>
  Package \<^verbatim>\<open>executors\<close>, the histories of the whole executor: where a task is at every moment (handed
  over, waiting, running, or ended and not yet received), that it is never in two of these places,
  that a ready task waits only while every slot is taken, and the instants at which a periodic task
  becomes due. Each turn of the loop is shown to add to the executor at most the task of its event.
\<close>

section \<open>The places of a task\<close>

definition scheduled :: "'v executor \<Rightarrow> nat multiset" where
  "scheduled e = image_mset (\<lambda>el. el_Value (pq_objs (e_sched e) el)) (mset (pq_slice (e_sched e)))"

definition ready :: "'v executor \<Rightarrow> nat multiset" where
  "ready e = mset (map snd (e_queue e))"

text \<open>The tasks the executor holds: in the two queues and in its goroutines.\<close>

definition holds :: "'v executor \<Rightarrow> nat multiset" where
  "holds e = ready e + scheduled e + e_goroutines e"

fun submitted_task :: "event \<Rightarrow> nat multiset" where
  "submitted_task (TaskSubmittedEvent p) = {#p#}"
| "submitted_task _ = {#}"

definition submissions :: "event multiset \<Rightarrow> nat multiset" where
  "submissions M = sum_mset (image_mset submitted_task M)"

definition places :: "'v system \<Rightarrow> nat multiset" where
  "places s = holds (sys_ex s) + submissions (sys_pending s) + completions (sys_pending s)"

lemma submissions_simps [simp]:
  "submissions {#} = {#}" "submissions (add_mset ev M) = submitted_task ev + submissions M"
  by (simp_all add: submissions_def)

lemma submissions_remove: "ev \<in># M \<Longrightarrow> submissions M = submitted_task ev + submissions (M - {#ev#})"
  by (metis submissions_simps(2) insert_DiffM)

lemma in_submissions [simp]: "p \<in># submissions M \<longleftrightarrow> TaskSubmittedEvent p \<in># M"
proof -
  have "p \<in># submitted_task ev \<longleftrightarrow> ev = TaskSubmittedEvent p" for ev by (cases ev) auto
  then show ?thesis by (induction M) auto
qed

subsection \<open>What the steps of a turn do to the tasks held\<close>

lemma holds_cong:
  "e_queue e' = e_queue e \<Longrightarrow> e_sched e' = e_sched e \<Longrightarrow> e_goroutines e' = e_goroutines e \<Longrightarrow> holds e' = holds e"
  by (simp add: holds_def ready_def scheduled_def)

lemma holds_upd [simp]:
  "holds (e\<lparr>e_tasks := T\<rparr>) = holds e" "holds (e\<lparr>e_running := r\<rparr>) = holds e"
  "holds (e\<lparr>e_status := st\<rparr>) = holds e" "holds (e\<lparr>e_concurrency := c\<rparr>) = holds e"
  "holds (e\<lparr>e_capacity := c\<rparr>) = holds e" "holds (e\<lparr>e_timerArmed := b\<rparr>) = holds e"
  "holds (e\<lparr>e_status := st, e_termClosed := b\<rparr>) = holds e"
  "holds (configureSchedulerTimer e) = holds e"
  by (rule holds_cong; simp)+

lemma push_sched_scheduled:
  assumes "pq_inv (e_sched e)"
  shows "scheduled (snd (push_sched p e)) = add_mset p (scheduled e)"
proof -
  obtain el q where ps: "Push p (t_nextRun (e_tasks e p)) (e_sched e) = (el, q)" by fastforce
  note pp = Push_props[OF assms, of p "t_nextRun (e_tasks e p)", unfolded ps, simplified]
  have "pq_next (e_sched e) \<notin> set (pq_slice (e_sched e))" using assms by (auto simp: pq_inv_def pq_wf_def)
  then have "scheduled (e\<lparr>e_sched := q\<rparr>) = add_mset p (scheduled e)"
    using pp(3,8) by (auto simp: scheduled_def intro!: image_mset_cong)
  then show ?thesis by (simp add: push_sched_def ps)
qed

lemma push_queues [simp]:
  "ready (snd (push_sched p e)) = ready e" "ready (snd (push_back p e)) = add_mset p (ready e)"
  "scheduled (snd (push_back p e)) = scheduled e"
  "e_goroutines (snd (push_sched p e)) = e_goroutines e" "e_goroutines (snd (push_back p e)) = e_goroutines e"
  "e_queue (snd (push_sched p e)) = e_queue e" "length (e_queue (snd (push_back p e))) = Suc (length (e_queue e))"
  by (simp_all add: push_sched_def push_back_def ready_def scheduled_def case_prod_beta)

lemma push_sched_holds:
  "pq_inv (e_sched e) \<Longrightarrow> holds (snd (push_sched p e)) = add_mset p (holds e)"
  by (simp add: holds_def push_sched_scheduled)

lemma push_back_holds: "holds (snd (push_back p e)) = add_mset p (holds e)"
  by (simp add: holds_def)

lemma executeTask_holds: "holds (executeTask now p e) \<subseteq># add_mset p (holds e)"
  by (simp add: executeTask_def holds_def ready_def scheduled_def case_prod_beta split: bool.split)

lemma tryExecuteTask_holds:
  "pq_inv (e_sched e) \<Longrightarrow> holds (tryExecuteTask now p e) \<subseteq># add_mset p (holds e)"
  using executeTask_holds[of now p e]
  by (simp add: tryExecuteTask_def Let_def case_prod_beta push_sched_holds push_back_holds)

text \<open>Taking the head off the ready queue, or an element out of the scheduled queue.\<close>

lemma pop_ready_holds:
  "e_queue e \<noteq> [] \<Longrightarrow> add_mset (snd (hd (e_queue e))) (holds (e\<lparr>e_queue := tl (e_queue e)\<rparr>)) = holds e"
  by (cases "e_queue e") (auto simp: holds_def ready_def scheduled_def)

lemma take_sched_holds:
  assumes "mset (pq_slice (e_sched e)) = add_mset el (mset (pq_slice q))"
    and "\<And>x. el_Value (pq_objs q x) = el_Value (pq_objs (e_sched e) x)"
  shows "add_mset (el_Value (pq_objs q el)) (holds (e\<lparr>e_sched := q\<rparr>)) = holds e"
  using assms by (simp add: holds_def ready_def scheduled_def)

lemma tryRunNextTask_holds:
  assumes "pq_inv (e_sched e)" "tryRunNextTask now e = Ret (e', ok)"
  shows "holds e' \<subseteq># holds e"
proof (cases "e_queue e = []")
  case True
  then show ?thesis using assms(2) by (auto simp: tryRunNextTask_def split: if_splits)
next
  case False
  let ?e = "e\<lparr>e_queue := tl (e_queue e)\<rparr>"
  let ?p = "snd (hd (e_queue e))"
  have "holds (tryExecuteTask now ?p (upd_task ?p (\<lambda>t. t\<lparr>t_queueElement := None\<rparr>) ?e)) \<subseteq># holds e"
    using tryExecuteTask_holds[of "upd_task ?p (\<lambda>t. t\<lparr>t_queueElement := None\<rparr>) ?e" now ?p] assms(1)
      pop_ready_holds[OF False] by simp
  then show ?thesis using False assms(2) by (auto simp: tryRunNextTask_def Let_def split: if_splits)
qed

lemma run_queued_holds:
  "live_inv C P e \<Longrightarrow> run_queued k now e = Ret (e', ok) \<Longrightarrow> holds e' \<subseteq># holds e"
proof (induction k arbitrary: e)
  case (Suc k)
  have n: "next_ok C P e (tryRunNextTask now e)" using Suc.prems(1) by (rule tryRunNextTask_ok)
  then obtain e1 ok1 where t: "tryRunNextTask now e = Ret (e1, ok1)" by (cases "tryRunNextTask now e") auto
  have "holds e1 \<subseteq># holds e"
    using tryRunNextTask_holds[OF _ t] Suc.prems(1) by (simp add: live_inv_def data_inv_def)
  then show ?case using Suc n t by (cases ok1) (auto split: if_splits intro: subset_mset.order_trans)
qed simp

lemma completed_holds:
  assumes i: "pq_inv (e_sched e)" and c: "completed now p e = Ret e'"
  shows "holds e' \<subseteq># add_mset p (holds e)"
proof -
  have "holds (snd (push_sched p f)) = add_mset p (holds f)" if "e_sched f = e_sched e" for f :: "'a executor"
    using push_sched_holds[of f p] i that by simp
  then show ?thesis using c
    by (auto simp: completed_def push_back_holds Let_def split: if_splits elim!: go_bind.elims)
qed

lemma list_remove_holds: "list_remove el e = Ret e' \<Longrightarrow> holds e' \<subseteq># holds e \<and> e_sched e' = e_sched e"
  by (auto simp: list_remove_def holds_def ready_def scheduled_def intro!: image_mset_subseteq_mono split: if_splits)

lemma Remove_holds:
  assumes "pq_inv (e_sched e)"
  shows "holds (e\<lparr>e_sched := snd (Remove el (e_sched e))\<rparr>) \<subseteq># holds e"
proof (cases "el \<in> set (pq_slice (e_sched e))")
  case True
  note r = Remove_props[OF assms True]
  show ?thesis using take_sched_holds[OF r(3,8)] by (metis mset_subset_eq_add_mset_cancel subset_mset.order_refl
      mset_subset_eq_insertD subset_mset.less_imp_le)
next
  case False
  then show ?thesis using Remove_not_member[OF assms] by (auto simp: holds_def ready_def scheduled_def)
qed

lemma canceled_holds:
  assumes i: "pq_inv (e_sched e)" and c: "canceled p e = Ret e'"
  shows "holds e' \<subseteq># holds e"
proof -
  let ?e = "upd_task p (\<lambda>t. if t_err t = None then t\<lparr>t_err := Some ContextCanceled\<rparr> else t) e"
  have s: "holds (case t_sQueueElement (e_tasks f p) of None \<Rightarrow> f
      | Some el \<Rightarrow> f\<lparr>e_sched := snd (Remove el (e_sched f))\<rparr>) \<subseteq># holds e"
    if "holds f \<subseteq># holds e" "e_sched f = e_sched e" for f :: "'a executor"
    using that i Remove_holds[of f] by (auto split: option.split intro: subset_mset.order_trans)
  obtain f where f: "holds f \<subseteq># holds e" "e_sched f = e_sched e"
    and e': "e' = ?e \<or> e' = (case t_sQueueElement (e_tasks f p) of None \<Rightarrow> f
      | Some el \<Rightarrow> f\<lparr>e_sched := snd (Remove el (e_sched f))\<rparr>)"
  proof (cases "t_queueElement (e_tasks ?e p)")
    case None
    then show ?thesis using c that[of ?e] by (auto simp: canceled_def Let_def split: if_splits option.splits)
  next
    case (Some el)
    show ?thesis
    proof (cases "list_remove el ?e")
      case (Ret f)
      then show ?thesis using c Some that[of f] list_remove_holds[OF Ret]
        by (auto simp: canceled_def Let_def split: if_splits option.splits)
    next
      case (Panic m)
      then show ?thesis using c Some that[of ?e] by (auto simp: canceled_def Let_def split: if_splits)
    qed
  qed
  then show ?thesis using s[OF f] by auto
qed

lemma cancel_now_holds:
  assumes "pq_inv (e_sched e)"
  shows "holds (snd (cancel_now e)) \<subseteq># holds e"
proof -
  obtain els q where dr: "drain Pop (Len (e_sched e)) (e_sched e) = (els, q)" by fastforce
  have "pq_slice q = []" using pqueue.drain_sorted[OF assms _ dr] by (simp add: Len_def)
  then show ?thesis by (simp add: cancel_now_def dr holds_def ready_def scheduled_def Let_def)
qed

lemma timer_fired_holds:
  assumes "pq_inv (e_sched e)"
  shows "holds (timer_fired now e) \<subseteq># holds e"
proof (cases "Pop (e_sched e)")
  case (Ret r)
  obtain el q where r: "r = (el, q)" by fastforce
  note pp = Pop_props[OF assms Ret[unfolded r]]
  let ?p = "el_Value (pq_objs q el)"
  let ?f = "upd_task ?p (\<lambda>t. t\<lparr>t_sQueueElement := None\<rparr>) (e\<lparr>e_timerArmed := False, e_sched := q\<rparr>)"
  have "holds (tryExecuteTask now ?p ?f) \<subseteq># add_mset ?p (holds ?f)" using pp(2) by (intro tryExecuteTask_holds) simp
  also have "\<dots> = holds e" using take_sched_holds[OF pp(3,8)] by (simp add: holds_def ready_def scheduled_def)
  finally show ?thesis using Ret r by (simp add: timer_fired_def Let_def)
qed (simp add: timer_fired_def Let_def)


text \<open>One turn of the loop: the task of the event is added at most once, and nothing else.\<close>

fun turn_state :: "'v turn \<Rightarrow> 'v executor option" where
  "turn_state (Continue e r) = Some e"
| "turn_state (Return e r) = Some e"
| "turn_state (Crash m) = None"

lemma turn_of_state: "turn_state (turn_of r g) = Some e \<longleftrightarrow> (\<exists>ok. g = Ret (e, ok))"
  by (cases "(r, g)" rule: turn_of.cases) auto

lemma handle_holds:
  assumes l: "live_inv C (completed_task ev + P) e"
    and conc: "\<And>c. ev = UpdateConcurrencyEvent c \<Longrightarrow> 0 \<le> c \<and> c \<le> C"
    and h: "turn_state (handle now ev e) = Some e'"
  shows "holds e' \<subseteq># holds e + submitted_task ev + completed_task ev"
proof -
  have i: "pq_inv (e_sched e)" using l by (simp add: live_inv_def data_inv_def)
  show ?thesis
  proof (cases ev)
    case (TaskCompletedEvent p)
    obtain f where f: "completed now p e = Ret f" "live_inv C P f"
      using completed_ok[of C p P e now] l TaskCompletedEvent by auto
    then obtain ok where "tryRunNextTask now f = Ret (e', ok)" using h TaskCompletedEvent by (auto simp: turn_of_state)
    from tryRunNextTask_holds[OF _ this] f(2) have "holds e' \<subseteq># holds f" by (simp add: live_inv_def data_inv_def)
    then show ?thesis using completed_holds[OF i f(1)] TaskCompletedEvent by (auto intro: subset_mset.order_trans)
  next
    case (TaskCanceledEvent p)
    then show ?thesis using h canceled_holds[OF i, of p] by (auto split: go.splits)
  next
    case (TaskSubmittedEvent p)
    then show ?thesis using h tryExecuteTask_holds[OF i, of now p] by auto
  next
    case CancelEvent
    then show ?thesis using h i tryRunNextTask_holds[of "e\<lparr>e_status := ExecutorStatusShuttingDown\<rparr>" now e']
      by (auto simp: turn_of_state split: if_splits)
  next
    case (UpdateConcurrencyEvent c)
    then have "live_inv C P (e\<lparr>e_concurrency := c\<rparr>)" using l conc by (simp add: live_inv_def run_inv_def)
    from run_queued_holds[OF this, of _ now e'] show ?thesis using h UpdateConcurrencyEvent
      by (auto simp: turn_of_state)
  next
    case (UpdateQueueCapacityEvent c)
    then show ?thesis using h by auto
  next
    case CancelNowEvent
    have "live_inv C P (snd (cancel_now e))" using cancel_now_ok[of C P e] l CancelNowEvent by simp
    then have "pq_inv (e_sched (snd (cancel_now e)))" by (simp add: live_inv_def data_inv_def)
    from tryRunNextTask_holds[OF this, of now e'] cancel_now_holds[OF i] show ?thesis using h CancelNowEvent
      by (auto simp: turn_of_state case_prod_beta Let_def split: if_splits intro: subset_mset.order_trans)
  qed
qed

lemma finish_holds:
  assumes "p \<in># e_goroutines e" "finish p out e = Ret e'"
  shows "add_mset p (holds e') = holds e"
proof -
  have "e_goroutines e' = e_goroutines e - {#p#}"
    using assms(2) by (cases out) (auto simp: finish_def Let_def split: if_splits elim!: go_bind.elims)
  then show ?thesis using assms(1) finish_frame(5,6)[OF assms(2)]
    by (simp add: holds_def ready_def scheduled_def)
qed

subsection \<open>A task is in one place at a time\<close>

text \<open>The tasks of the system, a new one apart, are the ones it had.\<close>

lemma receive_places:
  assumes i: "sys_inv C s" and a: "sys_alive s" and ev: "ev \<in># sys_pending s"
    and h: "turn_state (handle (sys_now s) ev (sys_ex s)) = Some e"
  shows "holds e + submissions (sys_pending s - {#ev#}) + completions (sys_pending s - {#ev#}) \<subseteq># places s"
proof -
  have "live_inv C (completed_task ev + completions (sys_pending s - {#ev#})) (sys_ex s)"
    using i a completions_remove[OF ev] by (simp add: sys_inv_def)
  from handle_holds[OF this _ h] have "holds e \<subseteq># holds (sys_ex s) + submitted_task ev + completed_task ev"
    using i ev by (auto simp: sys_inv_def)
  then show ?thesis unfolding places_def submissions_remove[OF ev] completions_remove[OF ev]
    by (auto simp: subseteq_mset_def algebra_simps)
qed

definition place_inv :: "'v system \<Rightarrow> bool" where
  "place_inv s \<longleftrightarrow> (\<forall>p. count (places s) p \<le> 1) \<and> (\<forall>p \<in># places s. p < e_nextTask (sys_ex s))"

lemma place_inv_mono:
  assumes "place_inv s" "places t \<subseteq># places s" "e_nextTask (sys_ex s) \<le> e_nextTask (sys_ex t)"
  shows "place_inv t"
proof -
  have "count (places t) p \<le> count (places s) p" for p using assms(2) by (simp add: subseteq_mset_def)
  moreover have "set_mset (places t) \<subseteq> set_mset (places s)" using assms(2) by (rule set_mset_mono)
  ultimately show ?thesis using assms(1,3) unfolding place_inv_def by (meson in_mono le_trans less_le_trans)
qed

lemma places_step:
  assumes st: "sys_step C s t" and i: "sys_inv C s" and pl: "place_inv s"
  shows "place_inv t"
  using st
proof cases
  case (submit d0 d ty e p)
  then have e: "p = e_nextTask (sys_ex s)" "e_nextTask e = Suc p" "holds e = holds (sys_ex s)"
    by (auto simp: schedule_def Let_def split: if_splits intro!: holds_cong)
  then have "places t = add_mset p (places s)" using submit by (simp add: places_def)
  moreover have "p \<notin># places s" using pl e(1) by (auto simp: place_inv_def)
  ultimately show ?thesis using pl e submit by (auto simp: place_inv_def not_in_iff)
next
  case (task_ends p out e)
  then have "places t = places s" using finish_holds[OF task_ends(2,3)] by (simp add: places_def)
  then show ?thesis using task_ends finish_frame(4)[OF task_ends(3)] pl by (intro place_inv_mono[of s t]) simp_all
next
  case (receive ev e r)
  then have "places t \<subseteq># places s" "e_nextTask e = e_nextTask (sys_ex s)"
    using receive_places[OF i, of ev e] receive_inv[OF i, of ev] by (simp_all add: places_def moved_def)
  then show ?thesis using receive pl by (intro place_inv_mono[of s t]) simp_all
next
  case (loop_returns ev e r)
  then have "places t \<subseteq># places s" "e_nextTask e = e_nextTask (sys_ex s)"
    using receive_places[OF i, of ev e] receive_inv[OF i, of ev] by (simp_all add: places_def moved_def)
  then show ?thesis using loop_returns pl by (intro place_inv_mono[of s t]) simp_all
next
  case timer
  then have l: "live_inv C (completions (sys_pending s)) (sys_ex s)" using i by (simp add: sys_inv_def)
  then have "places t \<subseteq># places s" "e_nextTask (sys_ex t) = e_nextTask (sys_ex s)"
    using timer timer_fired_holds[of "sys_ex s" "sys_now s"] timer_fired_ok[OF l, of "sys_now s"]
    by (simp_all add: places_def moved_def live_inv_def data_inv_def)
  then show ?thesis using pl by (intro place_inv_mono[of s t]) simp_all
qed (use pl in \<open>auto simp: place_inv_def places_def SetConcurrency_def SetQueueCapacity_def\<close>)

lemma reachable_places: "sys_reachable C s \<Longrightarrow> place_inv s"
proof (induction rule: sys_reachable.induct)
  case (start c q tasks now cap)
  then show ?case
    by (simp add: place_inv_def places_def holds_def ready_def scheduled_def NewDefaultExecutor_def)
qed (use places_step reachable_inv in blast)


text \<open>C3. At every moment of every history a task is in at most one place: handed over and not yet
  received, in the ready queue, in the scheduled queue, in a goroutine, or ended and not yet received.
  So no task is queued twice, and a periodic task is never queued again while it runs: its executions
  do not overlap, as \<open>ScheduleWithFixedRate\<close> and \<open>ScheduleWithFixedDelay\<close> promise.\<close>

theorem task_is_in_one_place:
  "sys_reachable C s \<Longrightarrow>
   count (ready (sys_ex s) + scheduled (sys_ex s) + e_goroutines (sys_ex s) +
     submissions (sys_pending s) + completions (sys_pending s)) p \<le> 1"
  using reachable_places[of C s] unfolding place_inv_def places_def holds_def by blast

theorem task_is_in_one_place_witness:
  "e_goroutines (sys_ex sys_started) = {#0#} \<and>
   count (ready (sys_ex sys_started) + scheduled (sys_ex sys_started) + e_goroutines (sys_ex sys_started)) 0 \<le> 1"
proof -
  have "sys_pending sys_started = {#}" by (simp add: sys_started_def)
  with task_is_in_one_place[OF sys_started_reachable, of 0] show ?thesis by (simp add: sys_started_ex)
qed

section \<open>A ready task waits only while every slot is taken\<close>

text \<open>The waiting tasks, those of \<open>S\<close> on their way into the executor included, are different, new, and
  in the ready queue due.\<close>

definition fits :: "int \<Rightarrow> nat multiset \<Rightarrow> 'v executor \<Rightarrow> bool" where
  "fits now S e \<longleftrightarrow> (\<forall>p. count (ready e + scheduled e + S) p \<le> 1) \<and>
     (\<forall>p \<in># ready e + scheduled e + S. Runnable (e_tasks e p)) \<and> (\<forall>p \<in># ready e. Delay now (e_tasks e p) \<le> 0)"

definition busy :: "'v executor \<Rightarrow> bool" where
  "busy e \<longleftrightarrow> e_queue e = [] \<or> e_concurrency e \<le> e_running e"

text \<open>One slot may just have become free, with one more task in the queue.\<close>

definition nearly_busy :: "'v executor \<Rightarrow> bool" where
  "nearly_busy e \<longleftrightarrow> length (e_queue e) \<le> 1 \<or> e_concurrency e \<le> e_running e + 1"

lemma busy_nearly: "busy e \<Longrightarrow> nearly_busy e"
  by (auto simp: busy_def nearly_busy_def)

lemma fits_cong:
  assumes "fits now S e" "ready e' = ready e" "scheduled e' = scheduled e"
    and "\<And>p. p \<in># ready e + scheduled e + S \<Longrightarrow>
      t_status (e_tasks e' p) = t_status (e_tasks e p) \<and> t_nextRun (e_tasks e' p) = t_nextRun (e_tasks e p)"
  shows "fits now S e'"
  using assms unfolding fits_def Runnable_def Delay_def by (metis union_iff)

lemma fits_push_sched:
  "pq_inv (e_sched e) \<Longrightarrow> fits now (add_mset p S) e \<Longrightarrow> fits now S (snd (push_sched p e))"
  by (simp add: fits_def push_sched_scheduled)

lemma fits_push_back:
  "fits now (add_mset p S) e \<Longrightarrow> Delay now (e_tasks e p) \<le> 0 \<Longrightarrow> fits now S (snd (push_back p e))"
  by (simp add: fits_def)

lemma fits_drop: "fits now (add_mset p S) e \<Longrightarrow> fits now S e \<and> p \<notin># ready e + scheduled e + S"
proof -
  assume f: "fits now (add_mset p S) e"
  then have "count (ready e + scheduled e + add_mset p S) q \<le> 1" for q by (simp only: fits_def)
  then have "count (ready e + scheduled e + S) q \<le> 1" "count (ready e + scheduled e + S) p = 0" for q
    using count_union by (force split: if_splits)+
  then show ?thesis using f by (auto simp: fits_def not_in_iff)
qed

lemma fits_add:
  "fits now S e \<Longrightarrow> p \<notin># ready e + scheduled e + S \<Longrightarrow> Runnable (e_tasks e p) \<Longrightarrow> fits now (add_mset p S) e"
  by (auto simp: fits_def not_in_iff)

lemma fits_change:
  assumes "fits now S e" "p \<notin># ready e + scheduled e + S" "e_queue e' = e_queue e" "e_sched e' = e_sched e"
    and "\<And>q. q \<noteq> p \<Longrightarrow> e_tasks e' q = e_tasks e q"
  shows "fits now S e'"
proof (rule fits_cong[OF assms(1)])
  fix q
  assume "q \<in># ready e + scheduled e + S"
  then have "q \<noteq> p" using assms(2) by metis
  then show "t_status (e_tasks e' q) = t_status (e_tasks e q) \<and> t_nextRun (e_tasks e' q) = t_nextRun (e_tasks e q)"
    using assms(5) by simp
qed (use assms(3,4) in \<open>simp_all add: ready_def scheduled_def\<close>)

lemma executeTask_frame:
  "e_queue (executeTask now p e) = e_queue e" "e_sched (executeTask now p e) = e_sched e"
  "e_concurrency (executeTask now p e) = e_concurrency e"
  "q \<noteq> p \<Longrightarrow> e_tasks (executeTask now p e) q = e_tasks e q"
  by (simp_all add: executeTask_def case_prod_beta split: bool.split)

lemma executeTask_fits:
  assumes "fits now (add_mset p S) e"
  shows "fits now S (executeTask now p e)"
  using fits_drop[OF assms] by (metis fits_change executeTask_frame(1,2,4))

lemma tryExecuteTask_fits:
  assumes i: "pq_inv (e_sched e)" and f: "fits now (add_mset p S) e"
  shows "fits now S (tryExecuteTask now p e)"
proof -
  have s: "fits now S (configureSchedulerTimer (upd_task p (\<lambda>t. t\<lparr>t_sQueueElement := x\<rparr>) (snd (push_sched p e))))" for x
    by (rule fits_cong[OF fits_push_sched[OF i f]]) (simp_all add: ready_def scheduled_def)
  have b: "fits now S (upd_task p (\<lambda>t. t\<lparr>t_queueElement := x\<rparr>) (snd (push_back p e)))"
    if "\<not> 0 < Delay now (e_tasks e p)" for x
    by (rule fits_cong[OF fits_push_back[OF f]]) (use that in \<open>simp_all add: ready_def scheduled_def\<close>)
  show ?thesis using s b executeTask_fits[OF f] fits_drop[OF f]
    by (auto simp: tryExecuteTask_def Let_def case_prod_beta)
qed


lemma tryExecuteTask_busy: "busy e \<Longrightarrow> 0 \<le> e_concurrency e \<Longrightarrow> busy (tryExecuteTask now p e)"
  by (auto simp: busy_def tryExecuteTask_def canStartNewTask_def executeTask_frame Let_def case_prod_beta)

text \<open>The loop starts the head of the ready queue when it can.\<close>

lemma tryRunNextTask_starts:
  assumes i: "pq_inv (e_sched e)" and f: "fits now S e" and q: "e_queue e = (el, p) # rest"
    and c: "canStartNewTask e" and st: "e_status e \<noteq> ExecutorStatusTerminated"
  shows "\<exists>e'. tryRunNextTask now e = Ret (e', True) \<and> e_queue e' = rest \<and> e_running e' = e_running e + 1 \<and>
    e_concurrency e' = e_concurrency e \<and> e_goroutines e' = add_mset p (e_goroutines e) \<and> fits now S e' \<and>
    t_status (e_tasks e' p) = TaskStatusRunning"
proof -
  let ?e = "upd_task p (\<lambda>t. t\<lparr>t_queueElement := None\<rparr>) (e\<lparr>e_queue := rest\<rparr>)"
  have f1: "fits now (add_mset p S) ?e" using f q by (auto simp: fits_def ready_def scheduled_def Runnable_def Delay_def)
  have p: "Runnable (e_tasks e p)" "Delay now (e_tasks e p) \<le> 0" using f q by (auto simp: fits_def ready_def)
  then have t: "tryExecuteTask now p ?e = executeTask now p ?e"
    using c by (simp add: tryExecuteTask_def Runnable_def Delay_def canStartNewTask_def)
  have "tryRunNextTask now e = Ret (executeTask now p ?e, True)"
    using q c st t by (simp add: tryRunNextTask_def Terminated_def QueueLength_def)
  moreover have "e_running (executeTask now p ?e) = e_running e + 1" "e_goroutines (executeTask now p ?e) = add_mset p (e_goroutines e)"
    "t_status (e_tasks (executeTask now p ?e) p) = TaskStatusRunning"
    using p by (auto simp: executeTask_def setRunning_def Runnable_def Delay_def)
  ultimately show ?thesis using executeTask_fits[OF f1] by (simp add: executeTask_frame)
qed

lemma tryRunNextTask_idle:
  assumes "tryRunNextTask now e = Ret (e', ok)" "e_queue e = [] \<or> \<not> canStartNewTask e"
  shows "e_queue e' = e_queue e \<and> e_sched e' = e_sched e \<and> e_tasks e' = e_tasks e \<and> e_running e' = e_running e \<and>
    e_concurrency e' = e_concurrency e"
  using assms by (auto simp: tryRunNextTask_def split: if_splits)

lemma tryRunNextTask_busy:
  assumes i: "pq_inv (e_sched e)" and f: "fits now S e" and b: "nearly_busy e"
    and st: "e_status e \<noteq> ExecutorStatusTerminated" and r: "tryRunNextTask now e = Ret (e', ok)"
  shows "fits now S e' \<and> busy e'"
proof (cases "e_queue e = [] \<or> \<not> canStartNewTask e")
  case True
  note t = tryRunNextTask_idle[OF r True]
  have "fits now S e'" by (rule fits_cong[OF f]) (use t in \<open>simp_all add: ready_def scheduled_def\<close>)
  then show ?thesis using t True by (auto simp: busy_def canStartNewTask_def split: if_splits)
next
  case False
  then obtain el p rest where q: "e_queue e = (el, p) # rest" by (cases "e_queue e") auto
  from tryRunNextTask_starts[OF i f q _ st] False r b q show ?thesis by (auto simp: busy_def nearly_busy_def)
qed

lemma run_queued_busy:
  "live_inv C P e \<Longrightarrow> fits now S e \<Longrightarrow> length (e_queue e) \<le> k \<Longrightarrow> run_queued k now e = Ret (e', ok) \<Longrightarrow>
   fits now S e' \<and> busy e'"
proof (induction k arbitrary: e)
  case (Suc k)
  show ?case
  proof (cases "canStartNewTask e \<and> e_queue e \<noteq> []")
    case True
    then obtain el p rest where q: "e_queue e = (el, p) # rest" by (cases "e_queue e") auto
    have l: "pq_inv (e_sched e)" "e_status e \<noteq> ExecutorStatusTerminated"
      using Suc.prems(1) by (simp_all add: live_inv_def data_inv_def)
    obtain e1 where e1: "tryRunNextTask now e = Ret (e1, True)" "e_queue e1 = rest" "fits now S e1"
      using tryRunNextTask_starts[OF l(1) Suc.prems(2) q _ l(2)] True by blast
    have "live_inv C P e1" using tryRunNextTask_ok[OF Suc.prems(1), of now] e1(1) by simp
    then show ?thesis using Suc.IH[of e1] e1 Suc.prems(3,4) True q by simp
  next
    case False
    then show ?thesis using Suc.prems by (auto simp: busy_def canStartNewTask_def split: if_splits)
  qed
qed (simp add: busy_def)

lemma completed_fits:
  assumes i: "pq_inv (e_sched e)" and f: "fits now S e" and b: "busy e"
    and p: "p \<notin># ready e + scheduled e + S" and nc: "\<not> Canceled (e_tasks e p)"
    and c: "completed now p e = Ret e'"
  shows "fits now S e' \<and> nearly_busy e'"
proof -
  let ?e = "e\<lparr>e_running := e_running e - 1\<rparr>"
  have f0: "fits now S ?e" using fits_change[OF f p] by simp
  have n0: "nearly_busy ?e" using b by (auto simp: busy_def nearly_busy_def)
  show ?thesis
  proof (cases "Done (e_tasks e p) \<or> \<not> Periodic (e_tasks e p)")
    case True
    then show ?thesis using c nc f0 n0 by (auto simp: completed_def Let_def split: if_splits)
  next
    case False
    then obtain t where t: "configureNextRun now (e_tasks e p) = Ret t" and
      e': "e' = (let e1 = upd_task p (\<lambda>_. configureContext t) ?e in
          if Delay now (e_tasks e1 p) > 0 then configureSchedulerTimer (snd (push_sched p e1)) else snd (push_back p e1))"
      using c nc by (auto simp: completed_def Let_def elim!: go_bind.elims split: if_splits)
    let ?f = "upd_task p (\<lambda>_. configureContext t) ?e"
    have "Runnable (configureContext t)"
      using t by (auto simp: configureNextRun_def configureContext_def Runnable_def split: if_splits task_type.splits)
    moreover have "fits now S ?f" using fits_change[OF f p, of ?f] by simp
    ultimately have f1: "fits now (add_mset p S) ?f" 
      using fits_add[of now S ?f p] p by (simp add: ready_def scheduled_def)
    have s: "fits now S (configureSchedulerTimer (snd (push_sched p ?f)))"
      by (rule fits_cong[OF fits_push_sched[OF _ f1]]) (use i in \<open>simp_all add: ready_def scheduled_def\<close>)
    show ?thesis using s fits_push_back[OF f1] n0 b unfolding e'
      by (auto simp: Let_def nearly_busy_def busy_def)
  qed
qed

subsection \<open>Histories in which no task is cancelled\<close>

inductive quiet :: "int \<Rightarrow> 'v system \<Rightarrow> bool" for C where
  quiet_start: "sys_reachable C s \<Longrightarrow> places s = {#} \<Longrightarrow> sys_pending s = {#} \<Longrightarrow> sys_alive s \<Longrightarrow>
     (\<And>p. \<not> Canceled (e_tasks (sys_ex s) p)) \<Longrightarrow> quiet C s"
| quiet_step: "quiet C s \<Longrightarrow> sys_step C s t \<Longrightarrow> (\<And>p. \<not> Canceled (e_tasks (sys_ex t) p)) \<Longrightarrow> quiet C t"

inductive_cases quietE: "quiet C s"

lemma quiet_reachable: "quiet C s \<Longrightarrow> sys_reachable C s"
  by (induction rule: quiet.induct) (auto intro: sys_reachable.step)

lemma quiet_not_canceled: "quiet C s \<Longrightarrow> \<not> Canceled (e_tasks (sys_ex s) p)"
  by (erule quietE) auto

definition quiet_inv :: "'v system \<Rightarrow> bool" where
  "quiet_inv s \<longleftrightarrow> fits (sys_now s) (submissions (sys_pending s)) (sys_ex s) \<and> busy (sys_ex s) \<and>
     (\<forall>p. TaskCanceledEvent p \<notin># sys_pending s)"

lemma run_inv_not_waiting:
  "run_inv C e P \<Longrightarrow> fits now S e \<Longrightarrow> p \<in># e_goroutines e + P \<Longrightarrow> p \<notin># ready e + scheduled e + S"
  by (auto simp: run_inv_def fits_def Runnable_def)

lemma cancel_now_fits:
  assumes "pq_inv (e_sched e)" "fits now S e"
  shows "fits now S (snd (cancel_now e))" "busy (snd (cancel_now e))"
proof -
  obtain els q where dr: "drain Pop (Len (e_sched e)) (e_sched e) = (els, q)" by fastforce
  have "pq_slice q = []" using pqueue.drain_sorted[OF assms(1) _ dr] by (simp add: Len_def)
  then have w: "ready (snd (cancel_now e)) = {#}" "scheduled (snd (cancel_now e)) = {#}"
    "e_tasks (snd (cancel_now e)) = e_tasks e" "e_queue (snd (cancel_now e)) = []"
    by (simp_all add: cancel_now_def dr ready_def scheduled_def Let_def)
  have "count S p \<le> 1" for p
  proof -
    have "count (ready e + scheduled e + S) p \<le> 1" using assms(2) by (simp only: fits_def)
    then show ?thesis by simp
  qed
  then show "fits now S (snd (cancel_now e))" using assms(2) by (simp add: fits_def w)
  show "busy (snd (cancel_now e))" by (simp add: busy_def w)
qed

text \<open>A turn of the loop, for every event but the cancellation of a task.\<close>

lemma handle_busy:
  assumes l: "live_inv C (completed_task ev + P) e"
    and conc: "\<And>c. ev = UpdateConcurrencyEvent c \<Longrightarrow> 0 \<le> c \<and> c \<le> C"
    and f: "fits now (submitted_task ev + S) e" and b: "busy e"
    and nc: "\<And>p. \<not> Canceled (e_tasks e p)" "\<And>p. ev \<noteq> TaskCanceledEvent p"
    and h: "turn_state (handle now ev e) = Some e'"
  shows "fits now S e' \<and> busy e'"
proof -
  have i: "pq_inv (e_sched e)" "e_status e \<noteq> ExecutorStatusTerminated" "0 \<le> e_concurrency e"
    using l by (simp_all add: live_inv_def data_inv_def run_inv_def)
  show ?thesis
  proof (cases ev)
    case (TaskCompletedEvent p)
    then have "p \<notin># ready e + scheduled e + S"
      using run_inv_not_waiting[of C e "{#p#} + P" now S p] l f by (simp add: live_inv_def)
    moreover obtain g where g: "completed now p e = Ret g" "live_inv C P g"
      using completed_ok[of C p P e now] l TaskCompletedEvent by auto
    ultimately have "fits now S g \<and> nearly_busy g"
      using completed_fits[OF i(1) _ b _ nc(1), of now S p g] f TaskCompletedEvent by simp
    then show ?thesis using h g TaskCompletedEvent tryRunNextTask_busy[of g now S e']
      by (auto simp: turn_of_state live_inv_def data_inv_def)
  next
    case (TaskSubmittedEvent p)
    then show ?thesis using h f b tryExecuteTask_fits[OF i(1)] tryExecuteTask_busy[OF b i(3)] by auto
  next
    case CancelEvent
    let ?e = "e\<lparr>e_status := ExecutorStatusShuttingDown\<rparr>"
    have "fits now S ?e" "nearly_busy ?e"
      using fits_cong[of now S e ?e] f CancelEvent busy_nearly[OF b] by (simp_all add: ready_def scheduled_def nearly_busy_def)
    then show ?thesis using h f b i CancelEvent tryRunNextTask_busy[of ?e now S e']
      by (auto simp: turn_of_state split: if_splits)
  next
    case (UpdateConcurrencyEvent c)
    let ?e = "e\<lparr>e_concurrency := c\<rparr>"
    have "live_inv C P ?e" using l conc UpdateConcurrencyEvent by (simp add: live_inv_def run_inv_def)
    moreover have "fits now S ?e"
      using fits_cong[of now S e ?e] f UpdateConcurrencyEvent by (simp add: ready_def scheduled_def)
    ultimately show ?thesis using h UpdateConcurrencyEvent run_queued_busy[of C P ?e now S "length (e_queue e)" e']
      by (auto simp: turn_of_state)
  next
    case (UpdateQueueCapacityEvent c)
    then show ?thesis using h f b fits_cong[of now S e e'] by (auto simp: ready_def scheduled_def busy_def)
  next
    case CancelNowEvent
    then have "live_inv C P (snd (cancel_now e))" using cancel_now_ok[of C P e] l by simp
    moreover have "fits now S (snd (cancel_now e))" "nearly_busy (snd (cancel_now e))"
      using cancel_now_fits[OF i(1), of now S] f CancelNowEvent by (auto intro: busy_nearly)
    ultimately show ?thesis using h f b CancelNowEvent tryRunNextTask_busy[of "snd (cancel_now e)" now S e']
      by (auto simp: turn_of_state live_inv_def data_inv_def case_prod_beta Let_def split: if_splits)
  qed (use nc in simp)
qed

lemma timer_fired_busy:
  assumes l: "live_inv C P e" and f: "fits now S e" and b: "busy e"
  shows "fits now S (timer_fired now e) \<and> busy (timer_fired now e)"
proof (cases "Pop (e_sched e)")
  case (Panic m)
  then have "e_queue (timer_fired now e) = e_queue e" "e_sched (timer_fired now e) = e_sched e"
    "e_tasks (timer_fired now e) = e_tasks e" "e_running (timer_fired now e) = e_running e"
    "e_concurrency (timer_fired now e) = e_concurrency e" by (simp_all add: timer_fired_def Let_def)
  then show ?thesis using f b fits_cong[of now S e "timer_fired now e"] by (simp add: ready_def scheduled_def busy_def)
next
  case (Ret r)
  obtain el q where r: "r = (el, q)" by fastforce
  have i: "pq_inv (e_sched e)" "0 \<le> e_concurrency e" using l by (simp_all add: live_inv_def data_inv_def run_inv_def)
  note pp = Pop_props[OF i(1) Ret[unfolded r]]
  let ?p = "el_Value (pq_objs q el)"
  let ?f = "upd_task ?p (\<lambda>t. t\<lparr>t_sQueueElement := None\<rparr>) (e\<lparr>e_timerArmed := False, e_sched := q\<rparr>)"
  have "scheduled e = add_mset ?p (scheduled ?f)" "ready ?f = ready e" using pp(3,8) by (simp_all add: scheduled_def ready_def)
  then have "fits now (add_mset ?p S) ?f" using f by (auto simp: fits_def Runnable_def Delay_def)
  then have g: "fits now S (tryExecuteTask now ?p ?f)" "busy (tryExecuteTask now ?p ?f)"
    using tryExecuteTask_fits[of ?f now ?p S] tryExecuteTask_busy[of ?f now ?p] pp(2) i(2) b by (simp_all add: busy_def)
  have t: "fits now S (configureSchedulerTimer g) \<and> busy (configureSchedulerTimer g)"
    if "fits now S g" "busy g" for g :: "'a executor"
    using that fits_cong[of now S g "configureSchedulerTimer g"] by (simp add: ready_def scheduled_def busy_def)
  have u: "fits now S (e\<lparr>e_timerArmed := False\<rparr>)" "busy (e\<lparr>e_timerArmed := False\<rparr>)"
    using f b fits_cong[of now S e "e\<lparr>e_timerArmed := False\<rparr>"] by (simp_all add: ready_def scheduled_def busy_def)
  show ?thesis using g t u Ret r by (simp add: timer_fired_def Let_def)
qed

lemma receive_busy:
  assumes i: "sys_inv C s" and q: "quiet_inv s" and nc: "\<And>p. \<not> Canceled (e_tasks (sys_ex s) p)"
    and a: "sys_alive s" and ev: "ev \<in># sys_pending s"
    and h: "turn_state (handle (sys_now s) ev (sys_ex s)) = Some e"
  shows "fits (sys_now s) (submissions (sys_pending s - {#ev#})) e \<and> busy e"
proof (rule handle_busy[OF _ _ _ _ nc _ h])
  show "live_inv C (completed_task ev + completions (sys_pending s - {#ev#})) (sys_ex s)"
    using i a completions_remove[OF ev] by (simp add: sys_inv_def)
  show "fits (sys_now s) (submitted_task ev + submissions (sys_pending s - {#ev#})) (sys_ex s)"
    using q submissions_remove[OF ev] by (simp add: quiet_inv_def)
qed (use i q ev in \<open>auto simp: sys_inv_def quiet_inv_def\<close>)

lemma quiet_inv_step:
  assumes st: "sys_step C s t" and i: "sys_inv C s" and pl: "place_inv s" and q: "quiet_inv s"
    and nc: "\<And>p. \<not> Canceled (e_tasks (sys_ex s) p)" and nt: "\<And>p. \<not> Canceled (e_tasks (sys_ex t) p)"
  shows "quiet_inv t"
  using st
proof cases
  case (tick n)
  then show ?thesis using q by (fastforce simp: quiet_inv_def fits_def Delay_def)
next
  case (submit d0 d ty e p)
  then have e: "p = e_nextTask (sys_ex s)" "e_queue e = e_queue (sys_ex s)" "e_sched e = e_sched (sys_ex s)"
    "e_running e = e_running (sys_ex s)" "e_concurrency e = e_concurrency (sys_ex s)"
    "Runnable (e_tasks e p)" "\<And>q. q \<noteq> p \<Longrightarrow> e_tasks e q = e_tasks (sys_ex s) q"
    by (auto simp: schedule_def Let_def Runnable_def configureContext_def newTask_def split: if_splits)
  have p: "p \<notin># ready (sys_ex s) + scheduled (sys_ex s) + submissions (sys_pending s)"
    using pl e(1) by (auto simp: place_inv_def places_def holds_def)
  have "fits (sys_now s) (submissions (sys_pending s)) e"
    using fits_change[OF _ p e(2,3,7)] q by (simp add: quiet_inv_def)
  then have "fits (sys_now s) (add_mset p (submissions (sys_pending s))) e"
    using fits_add[OF _ _ e(6)] p e(2,3) by (simp add: ready_def scheduled_def)
  then show ?thesis using submit q e by (simp add: quiet_inv_def busy_def)
next
  case (await p)
  have "fits (sys_now s) (submissions (sys_pending s)) (sys_ex t)"
    by (rule fits_cong[of _ _ "sys_ex s"])
      (use await q in \<open>auto simp: quiet_inv_def ready_def scheduled_def Await_def Let_def split: option.split\<close>)
  then show ?thesis using await q by (simp add: quiet_inv_def busy_def)
next
  case (cancel_task p u)
  then have "Canceled u" by (auto simp: Cancel_def Canceled_def cancel_ctx_def close_done_def
      split: if_splits option.splits done_chn.splits)
  then show ?thesis using cancel_task nt[of p] by simp
next
  case (task_ends p out e)
  have g: "p \<in># e_goroutines (sys_ex s) + completions (sys_pending s)" using task_ends by simp
  have "run_inv C (sys_ex s) (completions (sys_pending s))"
    using i by (auto simp: sys_inv_def live_inv_def ended_inv_def split: if_splits)
  then have p: "p \<notin># ready (sys_ex s) + scheduled (sys_ex s) + submissions (sys_pending s)"
    using run_inv_not_waiting[OF _ _ g] q unfolding quiet_inv_def by blast
  note f = finish_frame[OF task_ends(3)]
  have o: "e_concurrency e = e_concurrency (sys_ex s)" "\<And>q. q \<noteq> p \<Longrightarrow> e_tasks e q = e_tasks (sys_ex s) q"
    using task_ends(3) by (cases out; auto simp: finish_def Let_def split: if_splits elim!: go_bind.elims)+
  have "fits (sys_now s) (submissions (sys_pending s)) e"
    using fits_change[OF _ p f(5,6) o(2)] q by (simp add: quiet_inv_def)
  then show ?thesis using task_ends q f o(1) by (simp add: quiet_inv_def busy_def)
next
  case (receive ev e r)
  then show ?thesis using receive_busy[OF i q nc, of ev e] q by (auto simp: quiet_inv_def dest: in_diffD)
next
  case (loop_returns ev e r)
  then show ?thesis using receive_busy[OF i q nc, of ev e] q by (auto simp: quiet_inv_def dest: in_diffD)
next
  case timer
  then show ?thesis using timer_fired_busy[of C _ "sys_ex s" "sys_now s"] i q
    by (auto simp: sys_inv_def quiet_inv_def)
qed (use q in \<open>simp_all add: quiet_inv_def SetConcurrency_def SetQueueCapacity_def\<close>)

lemma quiet_invariant: "quiet C s \<Longrightarrow> quiet_inv s"
proof (induction rule: quiet.induct)
  case (quiet_start s)
  then show ?case by (auto simp: quiet_inv_def fits_def busy_def places_def holds_def ready_def)
next
  case (quiet_step s t)
  then show ?case using quiet_inv_step[of C s t] reachable_inv reachable_places quiet_reachable quiet_not_canceled
    by metis
qed

lemma sys0_idle: "places sys0 = {#}" "\<not> Canceled (e_tasks (sys_ex sys0) p)"
  by (simp_all add: places_def holds_def ready_def scheduled_def sys_hist_defs Canceled_def newTask_def)

lemma sys0_quiet: "quiet 1 sys0"
  by (rule quiet_start[OF sys0_reachable sys0_idle(1) _ _ sys0_idle(2)]) (simp_all add: sys0_def)

text \<open>C2. From a moment at which the executor is idle and as long as no task is cancelled, whatever else
  the clients do, the executor keeps its slots busy: a task is left in the ready queue only while at least
  as many executions as the concurrency are under way, and every task in the ready queue can run at once.\<close>

theorem no_idle_slot:
  "quiet C s \<Longrightarrow> e_queue (sys_ex s) \<noteq> [] \<Longrightarrow>
   e_concurrency (sys_ex s) \<le> int (size (e_goroutines (sys_ex s)) + size (completions (sys_pending s))) \<and>
   (\<forall>p \<in># ready (sys_ex s). Runnable (e_tasks (sys_ex s) p) \<and> Delay (sys_now s) (e_tasks (sys_ex s) p) \<le> 0)"
proof -
  assume q: "quiet C s" and w: "e_queue (sys_ex s) \<noteq> []"
  have "run_inv C (sys_ex s) (completions (sys_pending s))"
    using reachable_inv[OF quiet_reachable[OF q]] by (auto simp: sys_inv_def live_inv_def ended_inv_def split: if_splits)
  then show ?thesis using quiet_invariant[OF q] w by (simp add: quiet_inv_def busy_def fits_def run_inv_def)
qed

text \<open>A history: a second task is submitted while the only slot is taken, and is queued; then the
  first task ends.\<close>

definition sys_resubmitted :: "nat system" where
  "sys_resubmitted = send (TaskSubmittedEvent 1)
     (sys_started\<lparr>sys_ex := (case Submit 0 (sys_ex sys_started) of Inr (e, _) \<Rightarrow> e | Inl _ \<Rightarrow> sys_ex sys_started)\<rparr>)"

definition sys_queued :: "nat system" where
  "sys_queued = sys_resubmitted\<lparr>sys_ex := tryExecuteTask 0 1 (sys_ex sys_resubmitted), sys_pending := {#}\<rparr>"

definition sys_freed :: "nat system" where
  "sys_freed = send (TaskCompletedEvent 0)
     (sys_queued\<lparr>sys_ex := (case finish 0 (Returned (Some 3) None) (sys_ex sys_queued) of Ret e \<Rightarrow> e | Panic _ \<Rightarrow> sys_ex sys0)\<rparr>)"

lemma sys_resubmitted_ex:
  "sys_ex sys_resubmitted = (sys_ex sys_started)\<lparr>e_taskCount := 2, e_nextTask := 2,
     e_tasks := (e_tasks (sys_ex sys_started))(1 := (newTask 0 2 TaskTypeOnce 0 0)\<lparr>t_ctx := Some False\<rparr>)\<rparr>"
  by (simp add: sys_resubmitted_def Submit_def Schedule_def schedule_def sys_started_ex exec_Canceled_def
      remainingTotalCapacity_def sys0_def NewDefaultExecutor_def NewPriorityQueue_def QueueLength_def Len_def
      configureContext_def Let_def)

lemma sys_queued_ex:
  "sys_ex sys_queued = (sys_ex sys_resubmitted)\<lparr>e_queue := [(0, 1)], e_nextElem := 1,
     e_tasks := (e_tasks (sys_ex sys_resubmitted))(1 := (newTask 0 2 TaskTypeOnce 0 0)\<lparr>t_ctx := Some False, t_queueElement := Some 0\<rparr>)\<rparr>"
  by (simp add: sys_queued_def tryExecuteTask_def sys_resubmitted_ex sys_started_ex Runnable_def Delay_def
      canStartNewTask_def push_back_def newTask_def sys0_def NewDefaultExecutor_def)

lemma sys_quiet_steps:
  "sys_step 1 sys_started sys_resubmitted" "sys_step 1 sys_resubmitted sys_queued" "sys_step 1 sys_queued sys_freed"
proof -
  have s: "sys_now sys_started = 0" "sys_alive sys_started" "sys_pending sys_started = {#}"
    by (simp_all add: sys_started_def sys_submitted_def sys0_def)
  obtain e where e: "Submit 0 (sys_ex sys_started) = Inr (e, 1)"
    by (simp add: Submit_def Schedule_def schedule_def sys_started_ex exec_Canceled_def remainingTotalCapacity_def
        sys0_def NewDefaultExecutor_def NewPriorityQueue_def QueueLength_def Len_def Let_def)
  then show "sys_step 1 sys_started sys_resubmitted"
    using sys_step.submit[of sys_started 0 0 TaskTypeOnce e 1 1] s by (simp add: sys_resubmitted_def Submit_def Schedule_def)
  have "sys_step 1 sys_resubmitted (sys_resubmitted\<lparr>sys_ex := tryExecuteTask 0 1 (sys_ex sys_resubmitted),
      sys_pending := sys_pending sys_resubmitted - {#TaskSubmittedEvent 1#}\<rparr>)"
    by (rule sys_step.receive[where ev = "TaskSubmittedEvent 1"]) (simp_all add: sys_resubmitted_def s)
  then show "sys_step 1 sys_resubmitted sys_queued" by (simp add: sys_queued_def sys_resubmitted_def s)
  obtain f where f: "finish 0 (Returned (Some 3) None) (sys_ex sys_queued) = Ret f"
    by (simp add: sys_queued_ex sys_resubmitted_ex sys_started_ex finish_defs Let_def)
  have "sys_step 1 sys_queued (send (TaskCompletedEvent 0) (sys_queued\<lparr>sys_ex := f\<rparr>))"
    by (rule sys_step.task_ends[OF _ f]) (simp add: sys_queued_ex sys_resubmitted_ex sys_started_ex)
  then show "sys_step 1 sys_queued sys_freed" by (simp add: sys_freed_def f)
qed

lemmas sys_freed_defs = sys_freed_def sys_queued_ex sys_resubmitted_ex sys_started_ex finish_defs Let_def

lemma sys_quiet: "quiet 1 sys_queued" "quiet 1 sys_freed"
proof -
  have "quiet 1 sys_submitted"
    by (rule quiet_step[OF sys0_quiet sys_submitted_step])
      (simp add: sys_hist_defs Canceled_def newTask_def configureContext_def Let_def)
  then have "quiet 1 sys_started"
    by (rule quiet_step[OF _ sys_started_step]) (simp add: sys_started_ex Canceled_def newTask_def sys0_def NewDefaultExecutor_def)
  then have "quiet 1 sys_resubmitted"
    by (rule quiet_step[OF _ sys_quiet_steps(1)])
      (simp add: sys_resubmitted_ex sys_started_ex Canceled_def newTask_def sys0_def NewDefaultExecutor_def)
  then show q: "quiet 1 sys_queued"
    by (rule quiet_step[OF _ sys_quiet_steps(2)])
      (simp add: sys_queued_ex sys_resubmitted_ex sys_started_ex Canceled_def newTask_def sys0_def NewDefaultExecutor_def)
  then show "quiet 1 sys_freed"
    by (rule quiet_step[OF _ sys_quiet_steps(3)]) (simp add: sys_freed_defs Canceled_def sys0_def NewDefaultExecutor_def)
qed

theorem no_idle_slot_witness:
  "ready (sys_ex sys_queued) = {#1#} \<and> size (e_goroutines (sys_ex sys_queued)) = 1 \<and>
   e_concurrency (sys_ex sys_queued) \<le> int (size (e_goroutines (sys_ex sys_queued)) + size (completions (sys_pending sys_queued))) \<and>
   Runnable (e_tasks (sys_ex sys_queued) 1)"
proof -
  have q: "e_queue (sys_ex sys_queued) = [(0, 1)]" by (simp add: sys_queued_ex)
  have "ready (sys_ex sys_queued) = {#1#}" "size (e_goroutines (sys_ex sys_queued)) = 1"
    using q by (simp_all add: ready_def sys_queued_ex sys_resubmitted_ex sys_started_ex)
  with no_idle_slot[OF sys_quiet(1)] q show ?thesis by auto
qed

text \<open>In such a history the ready queue is served in its order: when the loop receives a completion
  while a task is queued and no more executions than the concurrency are under way, that same turn starts
  the task at the head of the queue in its goroutine and takes it off the queue.\<close>

lemma completion_starts_head:
  assumes q: "quiet C s" and a: "sys_alive s" and ev: "TaskCompletedEvent p \<in># sys_pending s"
    and h: "e_queue (sys_ex s) = (el, n) # rest" and c: "e_running (sys_ex s) \<le> e_concurrency (sys_ex s)"
  shows "\<exists>e'. handle (sys_now s) (TaskCompletedEvent p) (sys_ex s) = Continue e' NoReply \<and>
    e_goroutines e' = add_mset n (e_goroutines (sys_ex s)) \<and> t_status (e_tasks e' n) = TaskStatusRunning \<and>
    (e_queue e' = rest \<or> (\<exists>el'. e_queue e' = rest @ [(el', p)]))"
proof -
  let ?S = "submissions (sys_pending s)"
  have l: "live_inv C (completed_task (TaskCompletedEvent p) + completions (sys_pending s - {#TaskCompletedEvent p#})) (sys_ex s)"
    using reachable_inv[OF quiet_reachable[OF q]] a completions_remove[OF ev] by (simp add: sys_inv_def)
  have i: "pq_inv (e_sched (sys_ex s))" using l by (simp add: live_inv_def data_inv_def)
  have f: "fits (sys_now s) ?S (sys_ex s)" "busy (sys_ex s)" using quiet_invariant[OF q] by (simp_all add: quiet_inv_def)
  have p: "p \<notin># ready (sys_ex s) + scheduled (sys_ex s) + ?S"
    using run_inv_not_waiting[OF _ f(1), of C "{#p#} + completions (sys_pending s - {#TaskCompletedEvent p#})" p] l
    unfolding live_inv_def by simp
  obtain g where g: "completed (sys_now s) p (sys_ex s) = Ret g"
      "live_inv C (completions (sys_pending s - {#TaskCompletedEvent p#})) g"
    using completed_ok[of C p _ "sys_ex s" "sys_now s"] l by auto
  have fg: "fits (sys_now s) ?S g"
    using completed_fits[OF i f p quiet_not_canceled[OF q] g(1)] by simp
  have fr: "e_goroutines g = e_goroutines (sys_ex s)" "e_running g = e_running (sys_ex s) - 1"
    "e_concurrency g = e_concurrency (sys_ex s)"
    "e_queue g = e_queue (sys_ex s) \<or> (\<exists>el'. e_queue g = e_queue (sys_ex s) @ [(el', p)])"
    using g(1) by (auto simp: completed_def push_back_def Let_def split: if_splits elim!: go_bind.elims)
  then obtain rest' where r: "e_queue g = (el, n) # rest'" "rest' = rest \<or> (\<exists>el'. rest' = rest @ [(el', p)])" using h by auto
  have cg: "canStartNewTask g" using fr(2,3) c by (simp add: canStartNewTask_def)
  have ig: "pq_inv (e_sched g)" "e_status g \<noteq> ExecutorStatusTerminated" using g(2) by (simp_all add: live_inv_def data_inv_def)
  from tryRunNextTask_starts[OF ig(1) fg r(1) cg ig(2)] show ?thesis using g(1) fr(1) r(2) by auto
qed

lemma completion_starts_head_witness:
  "\<exists>e'. handle 0 (TaskCompletedEvent 0) (sys_ex sys_freed) = Continue e' NoReply \<and>
    e_goroutines e' = {#1#} \<and> t_status (e_tasks e' 1) = TaskStatusRunning"
proof -
  have a: "sys_alive sys_freed" "TaskCompletedEvent 0 \<in># sys_pending sys_freed" "sys_now sys_freed = 0"
    by (simp_all add: sys_freed_def sys_queued_def sys_resubmitted_def sys_started_def sys_submitted_def sys0_def)
  have "e_queue (sys_ex sys_freed) = [(0, 1)]" "e_running (sys_ex sys_freed) \<le> e_concurrency (sys_ex sys_freed)"
    "e_goroutines (sys_ex sys_freed) = {#}"
    by (simp_all add: sys_freed_defs sys0_def NewDefaultExecutor_def)
  with completion_starts_head[OF sys_quiet(2) a(1,2) this(1,2)] a(3) show ?thesis by auto
qed

section \<open>The instants of a periodic task\<close>

text \<open>A round of a periodic task, as the loop drives it: it is set running at \<open>start\<close>, and when its
  completion is received at \<open>end\<close> its next run and a new context are configured.\<close>

definition period_calls :: "int \<times> int \<Rightarrow> 'v task_call list" where
  "period_calls r = [CallSetRunning (fst r), CallConfigureNextRun (snd r), CallConfigureContext]"

text \<open>When the run after the given rounds is due.\<close>

fun due_after :: "task_type \<Rightarrow> int \<Rightarrow> int \<Rightarrow> (int \<times> int) list \<Rightarrow> int" where
  "due_after ty first d [] = first"
| "due_after ty first d (r # rs) = due_after ty (if ty = TaskTypeFixedRate then first + d else snd r + d) d rs"

fun on_time :: "task_type \<Rightarrow> int \<Rightarrow> int \<Rightarrow> (int \<times> int) list \<Rightarrow> bool" where
  "on_time ty first d [] \<longleftrightarrow> True"
| "on_time ty first d (r # rs) \<longleftrightarrow> first \<le> fst r \<and>
     on_time ty (if ty = TaskTypeFixedRate then first + d else snd r + d) d rs"

lemma due_after_fixed_rate: "due_after TaskTypeFixedRate first d rs = first + int (length rs) * d"
  by (induction rs arbitrary: first) (simp_all add: algebra_simps)

lemma due_after_fixed_delay:
  "due_after TaskTypeFixedDelay first d rs = (if rs = [] then first else snd (last rs) + d)"
  by (induction rs arbitrary: first) auto

text \<open>The task after a round.\<close>

definition next_round :: "int \<times> int \<Rightarrow> 'v task \<Rightarrow> 'v task" where
  "next_round r t = t\<lparr>t_status := TaskStatusNew,
     t_nextRun := (if t_type t = TaskTypeFixedRate then t_nextRun t else snd r) + t_delay t, t_ctx := Some False\<rparr>"

lemma round_run:
  assumes "Periodic t" "t_status t = TaskStatusNew" "t_nextRun t \<le> fst r" "task_run cs (next_round r t) = Ret (rs, t')"
  shows "task_run (period_calls r @ cs) t = Ret (True # True # True # rs, t')"
  using assms by (cases "t_type t") (auto simp: period_calls_def next_round_def task_defs)

lemma rounds_run:
  "Periodic t \<Longrightarrow> t_status t = TaskStatusNew \<Longrightarrow> on_time (t_type t) (t_nextRun t) (t_delay t) rs \<Longrightarrow>
   \<exists>t'. task_run (concat (map period_calls rs)) t = Ret (replicate (3 * length rs) True, t') \<and> Runnable t' \<and>
        t_nextRun t' = due_after (t_type t) (t_nextRun t) (t_delay t) rs"
proof (induction rs arbitrary: t)
  case (Cons r rs)
  let ?t = "next_round r t"
  have "Periodic ?t" "t_status ?t = TaskStatusNew" "on_time (t_type ?t) (t_nextRun ?t) (t_delay ?t) rs"
    using Cons.prems by (auto simp: Periodic_def next_round_def)
  from Cons.IH[OF this] obtain t' where t':
    "task_run (concat (map period_calls rs)) ?t = Ret (replicate (3 * length rs) True, t')" "Runnable t'"
    "t_nextRun t' = due_after (t_type ?t) (t_nextRun ?t) (t_delay ?t) rs" by blast
  have "task_run (concat (map period_calls (r # rs))) t = Ret (replicate (3 * length (r # rs)) True, t')"
    using round_run[OF Cons.prems(1,2) _ t'(1)] Cons.prems(3) by (simp add: numeral_3_eq_3)
  then show ?case using t'(2,3) by (auto simp: next_round_def)
qed (simp add: Runnable_def)

text \<open>C16. The instants of a periodic task: as long as no round is started before it is due, every round
  is started and the task becomes runnable again, due \<open>n\<close> periods after its first instant when it has a
  fixed rate, however late the rounds were, and one delay after the end of the last round when it has a
  fixed delay; a round before that instant is refused.\<close>

theorem periodic_instants:
  assumes "ty = TaskTypeFixedRate \<or> ty = TaskTypeFixedDelay" "on_time ty (now + d0) d rs"
  shows "\<exists>t. task_run (concat (map period_calls rs)) (newTask now tid ty d0 d) = Ret (replicate (3 * length rs) True, t) \<and>
    t_nextRun t = (if ty = TaskTypeFixedRate then now + d0 + int (length rs) * d
                   else if rs = [] then now + d0 else snd (last rs) + d) \<and>
    (\<forall>m. fst (setRunning m t) \<longleftrightarrow> t_nextRun t \<le> m)"
proof -
  let ?t = "newTask now tid ty d0 d :: 'a task"
  have "Periodic ?t" "t_status ?t = TaskStatusNew" "on_time (t_type ?t) (t_nextRun ?t) (t_delay ?t) rs"
    using assms by (auto simp: newTask_def Periodic_def)
  from rounds_run[OF this] obtain t where
    "task_run (concat (map period_calls rs)) ?t = Ret (replicate (3 * length rs) True, t)" "Runnable t"
    "t_nextRun t = due_after ty (now + d0) d rs" by (auto simp: newTask_def)
  moreover from this(2) have "fst (setRunning m t) \<longleftrightarrow> t_nextRun t \<le> m" for m
    by (auto simp: setRunning_def Runnable_def Delay_def)
  ultimately show ?thesis using assms(1) by (auto simp: due_after_fixed_rate due_after_fixed_delay)
qed

theorem periodic_instants_witness:
  "\<exists>t. task_run (concat (map period_calls [(10, 27), (27, 29)])) (newTask 0 1 TaskTypeFixedRate 10 5 :: nat task) =
      Ret ([True, True, True, True, True, True], t) \<and> t_nextRun t = 20"
  using periodic_instants[of TaskTypeFixedRate 0 10 5 "[(10, 27), (27, 29)]" 1] by (auto simp: numeral_eq_Suc)

end
