(* ===== verification/ExecutorApi.thy ===== *)
theory ExecutorApi
  imports Progress
begin

text \<open>
  Package \<^verbatim>\<open>executors\<close>, file \<^verbatim>\<open>executors.go\<close>: the interfaces \<^verbatim>\<open>Executor\<close> and \<^verbatim>\<open>Future\<close> as their clients see
  them. A call of a client goes to the loop and waits for its answer; a call whose event nobody
  receives blocks for ever, and that is a value of the model. The contract of submission and
  cancellation is a locale, interpreted on the default executor while no other event interleaves.
\<close>

section \<open>Futures\<close>

datatype future_call = FutureCancel | FutureCanceled | FutureAwait | FutureDone | FutureErr
  | ProducerFutureValue | ScheduledFutureDelay | ScheduledFuturePeriodic

datatype 'v future_reply = ReplyBool bool | ReplyChn done_chn | ReplyErr "task_err option"
  | ReplyValue "'v option" | ReplyDuration int

fun call_future :: "int \<Rightarrow> future_call \<Rightarrow> 'v task \<Rightarrow> ('v future_reply \<times> 'v task) go" where
  "call_future now FutureCancel t = go_bind (Cancel t) (\<lambda>(b, t'). Ret (ReplyBool b, t'))"
| "call_future now FutureCanceled t = Ret (ReplyBool (Canceled t), t)"
| "call_future now FutureAwait t = (let (c, t') = Await t in Ret (ReplyChn c, t'))"
| "call_future now FutureDone t = Ret (ReplyBool (Done t), t)"
| "call_future now FutureErr t = Ret (ReplyErr (Err t), t)"
| "call_future now ProducerFutureValue t = Ret (ReplyValue (Value t), t)"
| "call_future now ScheduledFutureDelay t = Ret (ReplyDuration (Delay now t), t)"
| "call_future now ScheduledFuturePeriodic t = Ret (ReplyBool (Periodic t), t)"

text \<open>Once \<open>Await\<close> was called, its channel stays the channel of the task.\<close>

lemma await_same_channel:
  "t_done t = Some c \<Longrightarrow> task_exec call t = Ret (r, t') \<Longrightarrow>
   \<exists>c'. t_done t' = Some c' \<and> (c' = SharedClosedChn \<longleftrightarrow> c = SharedClosedChn)"
  by (cases call; cases "t_type t")
    (auto simp: task_defs Let_def split: if_splits option.splits done_chn.splits)

text \<open>A task that was cancelled while it ran and then returns without an error is cancelled and done
  with no error: its \<open>Err\<close> is not the cancellation that \<open>Cancel\<close> promises.\<close>

lemma cancelled_run_ends_without_error:
  assumes "task_inv t" "t_status t = TaskStatusRunning" "Cancel t = Ret (b, u)"
    and "setDone v None (u\<lparr>t_err := Some ContextCanceled\<rparr>) = Ret (b', w)"
  shows "b \<and> Canceled w \<and> Done w \<and> Err w = None \<and> Value w = v"
  using assms
  by (auto simp: task_inv_def task_defs Err_def Value_def Let_def split: if_splits option.splits done_chn.splits)

lemma cancelled_run_ends_without_error_witness:
  "\<exists>u w. Cancel ((newTask 0 1 TaskTypeOnce 0 0 :: nat task)\<lparr>t_status := TaskStatusRunning\<rparr>) = Ret (True, u) \<and>
     setDone (Some 7) None (u\<lparr>t_err := Some ContextCanceled\<rparr>) = Ret (True, w) \<and> Canceled w \<and> Err w = None"
  using cancelled_run_ends_without_error[of "(newTask 0 1 TaskTypeOnce 0 0 :: nat task)\<lparr>t_status := TaskStatusRunning\<rparr>"]
  by (simp add: task_defs task_inv_def Err_def Let_def)

section \<open>Calls of the executor\<close>

datatype submission = CallSubmit | CallSubmitProducer | CallSchedule int
  | CallScheduleWithFixedDelay int int | CallScheduleWithFixedRate int int

datatype executor_call = CallConcurrency | CallQueueLength | Submission submission
  | CallExecCancel | CallCanceled | CallCancelNow | CallAwaitTermination | CallTerminated

datatype call_reply = IntReply int | FutureReply nat | ErrReply exec_err | BoolReply bool | FuturesOf "nat list option"

text \<open>What a call comes to: an answer, a wait that never ends, or a panic of the loop.\<close>

datatype 'a outcome_of = Answer 'a | Blocks | Crashes string

fun on_answer :: "'a outcome_of \<Rightarrow> ('a \<Rightarrow> 'b outcome_of) \<Rightarrow> 'b outcome_of" where
  "on_answer (Answer x) f = f x"
| "on_answer Blocks f = Blocks"
| "on_answer (Crashes m) f = Crashes m"

text \<open>The executor and whether its loop still runs.\<close>

type_synonym 'v service = "'v executor \<times> bool"

fun deliver :: "int \<Rightarrow> event \<Rightarrow> 'v service \<Rightarrow> (reply \<times> 'v service) outcome_of" where
  "deliver now ev (e, False) = Blocks"
| "deliver now ev (e, True) =
     (case handle now ev e of
        Continue e' r \<Rightarrow> Answer (r, (e', True)) | Return e' r \<Rightarrow> Answer (r, (e', False)) | Crash m \<Rightarrow> Crashes m)"

definition submit_call ::
    "int \<Rightarrow> (exec_err + ('v executor \<times> nat)) \<Rightarrow> 'v service \<Rightarrow> ((exec_err + nat) \<times> 'v service) outcome_of" where
  "submit_call now r s =
     (case r of
        Inl err \<Rightarrow> Answer (Inl err, s)
      | Inr (e, p) \<Rightarrow> on_answer (deliver now (TaskSubmittedEvent p) (e, snd s)) (\<lambda>(_, s'). Answer (Inr p, s')))"

definition cancel_call :: "int \<Rightarrow> 'v service \<Rightarrow> (bool \<times> 'v service) outcome_of" where
  "cancel_call now s =
     (case client_Cancel (fst s) of
        Inl b \<Rightarrow> Answer (b, s)
      | Inr _ \<Rightarrow> on_answer (deliver now CancelEvent s)
                   (\<lambda>(r, s'). Answer ((case r of CancelReply b \<Rightarrow> b | _ \<Rightarrow> False), s')))"

definition cancel_now_call :: "int \<Rightarrow> 'v service \<Rightarrow> (nat list option \<times> 'v service) outcome_of" where
  "cancel_now_call now s =
     (if e_status (fst s) \<ge> ExecutorStatusWaitingTermination then Answer (None, s)
      else on_answer (cancel_call now s) (\<lambda>(_, s1).
             on_answer (deliver now CancelNowEvent s1)
               (\<lambda>(r, s2). Answer ((case r of FuturesReply fs \<Rightarrow> fs | _ \<Rightarrow> None), s2))))"

definition submit_reply :: "exec_err + nat \<Rightarrow> call_reply" where
  "submit_reply r = (case r of Inl err \<Rightarrow> ErrReply err | Inr p \<Rightarrow> FutureReply p)"

text \<open>The submitting methods, by the call.\<close>

fun submission_of :: "int \<Rightarrow> submission \<Rightarrow> 'v executor \<Rightarrow> exec_err + ('v executor \<times> nat)" where
  "submission_of now CallSubmit e = Submit now e"
| "submission_of now CallSubmitProducer e = SubmitProducer now e"
| "submission_of now (CallSchedule d) e = Schedule now d e"
| "submission_of now (CallScheduleWithFixedDelay d0 d) e = ScheduleWithFixedDelay now d0 d e"
| "submission_of now (CallScheduleWithFixedRate d0 d) e = ScheduleWithFixedRate now d0 d e"

definition submit_by :: "int \<times> submission \<Rightarrow> 'v service \<Rightarrow> ((exec_err + nat) \<times> 'v service) outcome_of" where
  "submit_by k s = submit_call (fst k) (submission_of (fst k) (snd k) (fst s)) s"

fun call_executor :: "int \<Rightarrow> executor_call \<Rightarrow> 'v service \<Rightarrow> (call_reply \<times> 'v service) outcome_of" where
  "call_executor now CallConcurrency s = Answer (IntReply (Concurrency (fst s)), s)"
| "call_executor now CallQueueLength s = Answer (IntReply (int (QueueLength (fst s))), s)"
| "call_executor now (Submission c) s = on_answer (submit_by (now, c) s) (\<lambda>(x, s'). Answer (submit_reply x, s'))"
| "call_executor now CallExecCancel s = on_answer (cancel_call now s) (\<lambda>(b, s'). Answer (BoolReply b, s'))"
| "call_executor now CallCanceled s = Answer (BoolReply (exec_Canceled (fst s)), s)"
| "call_executor now CallCancelNow s = on_answer (cancel_now_call now s) (\<lambda>(fs, s'). Answer (FuturesOf fs, s'))"
| "call_executor now CallAwaitTermination s = Answer (BoolReply (AwaitTermination (fst s)), s)"
| "call_executor now CallTerminated s = Answer (BoolReply (Terminated (fst s)), s)"

text \<open>The branch of the loop for a done context starts a goroutine that calls \<open>Cancel\<close>; the executor
  itself is left as it is.\<close>

definition ctx_done_branch :: "'v executor \<Rightarrow> event list" where
  "ctx_done_branch e = (case client_Cancel e of Inl _ \<Rightarrow> [] | Inr evs \<Rightarrow> evs)"

section \<open>The contract of submission and cancellation\<close>

datatype 'k client_call = ClientSubmit 'k | ClientCancel

text \<open>The answers to a sequence of calls: what each submission and each cancellation got.\<close>

fun client_run ::
    "('k \<Rightarrow> 's \<Rightarrow> ((exec_err + nat) \<times> 's) outcome_of) \<Rightarrow> ('s \<Rightarrow> (bool \<times> 's) outcome_of) \<Rightarrow> 'k client_call list \<Rightarrow>
     's \<Rightarrow> ((exec_err + nat) + bool) list outcome_of" where
  "client_run sub can [] s = Answer []"
| "client_run sub can (ClientSubmit k # cs) s =
     on_answer (sub k s) (\<lambda>(r, s'). on_answer (client_run sub can cs s') (\<lambda>rs. Answer (Inl r # rs)))"
| "client_run sub can (ClientCancel # cs) s =
     on_answer (can s) (\<lambda>(b, s'). on_answer (client_run sub can cs s') (\<lambda>rs. Answer (Inr b # rs)))"

text \<open>What the answer to the call at some place must be, given whether a cancellation came before it.\<close>

fun answer_fits :: "bool \<Rightarrow> 'k client_call \<Rightarrow> (exec_err + nat) + bool \<Rightarrow> bool" where
  "answer_fits before (ClientSubmit k) (Inl r) \<longleftrightarrow> (r = Inl ErrExecutorCanceled \<longleftrightarrow> before)"
| "answer_fits before ClientCancel (Inr b) \<longleftrightarrow> (b \<longleftrightarrow> \<not> before)"
| "answer_fits before _ _ \<longleftrightarrow> False"

locale executor_contract =
  fixes ok :: "'s \<Rightarrow> bool" and is_canceled :: "'s \<Rightarrow> bool"
    and sub :: "'k \<Rightarrow> 's \<Rightarrow> ((exec_err + nat) \<times> 's) outcome_of"
    and can :: "'s \<Rightarrow> (bool \<times> 's) outcome_of"
  assumes sub_answers: "ok s \<Longrightarrow> \<exists>r s'. sub k s = Answer (r, s') \<and> ok s' \<and> is_canceled s' = is_canceled s \<and>
      (r = Inl ErrExecutorCanceled \<longleftrightarrow> is_canceled s)"
    and can_answers: "ok s \<Longrightarrow> \<exists>s'. can s = Answer (\<not> is_canceled s, s') \<and> ok s' \<and> is_canceled s'"
begin

lemma calls_answered:
  "ok s \<Longrightarrow> \<exists>rs. client_run sub can cs s = Answer rs \<and> length rs = length cs \<and>
     (\<forall>i < length cs. answer_fits (is_canceled s \<or> ClientCancel \<in> set (take i cs)) (cs ! i) (rs ! i))"
proof (induction cs arbitrary: s)
  case (Cons c cs)
  obtain r s' where one: "ok s'" "is_canceled s' \<longleftrightarrow> is_canceled s \<or> c = ClientCancel" "answer_fits (is_canceled s) c r"
    "\<And>rs. client_run sub can cs s' = Answer rs \<Longrightarrow> client_run sub can (c # cs) s = Answer (r # rs)"
  proof (cases c)
    case (ClientSubmit k)
    obtain r s' where "sub k s = Answer (r, s')" "ok s'" "is_canceled s' = is_canceled s"
      "r = Inl ErrExecutorCanceled \<longleftrightarrow> is_canceled s" using sub_answers[OF Cons.prems] by blast
    then show ?thesis using that[of s' "Inl r"] ClientSubmit by simp
  next
    case ClientCancel
    obtain s' where "can s = Answer (\<not> is_canceled s, s')" "ok s'" "is_canceled s'" using can_answers[OF Cons.prems] by blast
    then show ?thesis using that[of s' "Inr (\<not> is_canceled s)"] ClientCancel by simp
  qed
  obtain rs where rs: "client_run sub can cs s' = Answer rs" "length rs = length cs"
    "\<forall>i < length cs. answer_fits (is_canceled s' \<or> ClientCancel \<in> set (take i cs)) (cs ! i) (rs ! i)"
    using Cons.IH[OF one(1)] by blast
  have "answer_fits (is_canceled s \<or> ClientCancel \<in> set (take i (c # cs))) ((c # cs) ! i) ((r # rs) ! i)"
    if "i < length (c # cs)" for i
    using that one(2,3) rs(3) by (cases i) (auto simp: disj_commute disj_left_commute)
  then show ?case using one(4)[OF rs(1)] rs(2) by auto
qed simp

end

section \<open>The default executor keeps the contract\<close>

text \<open>The executor as the loop leaves it between two calls, with the executions \<open>P\<close> not yet received.\<close>

definition api_ok :: "int \<Rightarrow> nat multiset \<Rightarrow> 'v service \<Rightarrow> bool" where
  "api_ok C P s \<longleftrightarrow> (if snd s then live_inv C P (fst s) \<and> e_orphans (fst s) = [] else ended_inv C P (fst s))"

lemma submission_schedules: "\<exists>d0 d ty. submission_of now c e = schedule now d0 d ty e"
  by (cases c) (auto simp: Submit_def SubmitProducer_def Schedule_def ScheduleWithFixedDelay_def ScheduleWithFixedRate_def)

lemma schedule_keeps:
  assumes l: "live_inv C P e" and s: "schedule now d0 d ty e = Inr (e', p)"
  shows "live_inv C P e'" "p < e_nextTask e'" "e_status e' = ExecutorStatusRunning" "e_orphans e' = e_orphans e"
proof -
  have e': "e' = e\<lparr>e_taskCount := e_taskCount e + 1, e_nextTask := Suc p,
      e_tasks := (e_tasks e)(p := configureContext (newTask now (e_taskCount e + 1) ty d0 d))\<rparr>"
    and p: "p = e_nextTask e" and st: "e_status e = ExecutorStatusRunning"
    using s by (auto simp: schedule_def exec_Canceled_def Let_def split: if_splits)
  have "task_inv (configureContext (newTask now (e_taskCount e + 1) ty d0 d) :: 'a task)"
    by (simp add: task_inv_def configureContext_def newTask_def)
  then have "run_inv C e' P" using l unfolding live_inv_def run_inv_def e' p by auto
  moreover have "data_inv e'" using l unfolding live_inv_def data_inv_def e' p by (auto intro: less_SucI)
  ultimately show "live_inv C P e'" using l by (simp add: live_inv_def e')
  show "p < e_nextTask e'" "e_status e' = ExecutorStatusRunning" "e_orphans e' = e_orphans e"
    by (simp_all add: e' p st)
qed

lemma tryExecuteTask_orphans [simp]: "e_orphans (tryExecuteTask now p e) = e_orphans e"
  by (simp add: tryExecuteTask_def executeTask_def push_sched_def push_back_def configureSchedulerTimer_def Let_def case_prod_beta
      split: bool.split)

lemma submit_answers:
  assumes ok: "api_ok C P s"
  shows "\<exists>x s'. submit_by k s = Answer (x, s') \<and> api_ok C P s' \<and> exec_Canceled (fst s') = exec_Canceled (fst s) \<and>
    (x = Inl ErrExecutorCanceled \<longleftrightarrow> exec_Canceled (fst s))"
proof -
  let ?now = "fst k"
  let ?r = "submission_of ?now (snd k) (fst s)"
  obtain d0 d ty where r: "?r = schedule ?now d0 d ty (fst s)" using submission_schedules by blast
  show ?thesis
  proof (cases ?r)
    case (Inl err)
    then have "err = ErrExecutorCanceled \<longleftrightarrow> exec_Canceled (fst s)" using r by (auto simp: schedule_def Let_def split: if_splits)
    then show ?thesis using Inl ok by (simp add: submit_by_def submit_call_def)
  next
    case (Inr ep)
    obtain e p where ep: "ep = (e, p)" by fastforce
    have sc: "schedule ?now d0 d ty (fst s) = Inr (e, p)" using r Inr ep by simp
    then have st: "e_status (fst s) = ExecutorStatusRunning" by (auto simp: schedule_def exec_Canceled_def split: if_splits)
    then have a: "snd s" using ok by (auto simp: api_ok_def ended_inv_def split: if_splits)
    then have l: "live_inv C P (fst s)" "e_orphans (fst s) = []" using ok by (simp_all add: api_ok_def)
    note k = schedule_keeps[OF l(1) sc]
    have "live_inv C P (tryExecuteTask ?now p e)" using tryExecuteTask_live[OF k(1,2)] by simp
    then show ?thesis using Inr ep a st k(3,4) l(2)
      by (simp add: submit_by_def submit_call_def api_ok_def exec_Canceled_def tryExecuteTask_frame)
  qed
qed

lemma tryRunNextTask_orphans: "tryRunNextTask now e = Ret (e', ok) \<Longrightarrow> e_orphans e' = e_orphans e"
  by (auto simp: tryRunNextTask_def Let_def split: if_splits)

lemma cancel_answers:
  assumes ok: "api_ok C P s"
  shows "\<exists>s'. cancel_call now s = Answer (\<not> exec_Canceled (fst s), s') \<and> api_ok C P s' \<and> exec_Canceled (fst s')"
proof (cases "exec_Canceled (fst s)")
  case True
  then show ?thesis using ok by (auto simp: cancel_call_def client_Cancel_def exec_Canceled_def)
next
  case False
  then have st: "e_status (fst s) = ExecutorStatusRunning" by (simp add: exec_Canceled_def)
  then have a: "snd s" using ok by (auto simp: api_ok_def ended_inv_def split: if_splits)
  let ?e = "(fst s)\<lparr>e_status := ExecutorStatusShuttingDown\<rparr>"
  have "live_inv C P ?e" using ok a by (simp add: api_ok_def live_inv_def)
  from tryRunNextTask_ok[OF this, of now] obtain e' k where t: "tryRunNextTask now ?e = Ret (e', k)"
    and n: "if k then live_inv C P e' else ended_inv C P e'" "moved ?e e'"
    by (cases "tryRunNextTask now ?e") auto
  have "handle now CancelEvent (fst s) = (if k then Continue e' (CancelReply True) else Return e' (CancelReply True))"
    using st t by simp
  then have "cancel_call now s = Answer (True, (e', k))"
    using st a by (cases s) (auto simp: cancel_call_def client_Cancel_def)
  moreover have "e_status e' \<noteq> ExecutorStatusRunning" using n(2) by (auto simp: moved_def)
  ultimately show ?thesis using False n(1) ok a tryRunNextTask_orphans[OF t] by (auto simp: api_ok_def exec_Canceled_def)
qed

interpretation default_executor: executor_contract "api_ok C P" "\<lambda>s. exec_Canceled (fst s)" submit_by "cancel_call now"
  for C P now
  by unfold_locales (use submit_answers cancel_answers in blast)+

text \<open>C7. The contract of \<open>Executor\<close> over any sequence of submissions, by any of its five methods and at
  any instants, and cancellations: every call is answered, the first \<open>Cancel\<close> and no other returns true,
  and a submission is refused with \<open>ErrExecutorCanceled\<close> exactly when a cancellation came before it.\<close>

theorem executor_calls_answered:
  assumes "api_ok C P s" "\<not> exec_Canceled (fst s)"
  shows "\<exists>rs. client_run submit_by (cancel_call now) cs s = Answer rs \<and> length rs = length cs \<and>
     (\<forall>i < length cs. answer_fits (ClientCancel \<in> set (take i cs)) (cs ! i) (rs ! i))"
  using default_executor.calls_answered[OF assms(1), of now cs] assms(2) by simp

lemma sys0_api: "api_ok 1 {#} (sys_ex sys0, True)" "e_status (sys_ex sys0) = ExecutorStatusRunning"
  using reachable_inv[OF sys0_reachable] by (simp_all add: api_ok_def sys_inv_def sys0_def NewDefaultExecutor_def)

theorem executor_calls_answered_witness:
  "\<exists>a b. client_run submit_by (cancel_call 0) [ClientCancel, ClientSubmit (3, CallSubmit), ClientCancel] (sys_ex sys0, True) =
      Answer [Inr a, Inl (Inl ErrExecutorCanceled), Inr b] \<and> a \<and> \<not> b"
proof -
  let ?cs = "[ClientCancel, ClientSubmit (3 :: int, CallSubmit), ClientCancel]"
  have "\<not> exec_Canceled (fst (sys_ex sys0, True))" using sys0_api(2) by (simp add: exec_Canceled_def)
  from executor_calls_answered[OF sys0_api(1) this, of 0 ?cs] obtain rs where
    r: "client_run submit_by (cancel_call 0) ?cs (sys_ex sys0, True) = Answer rs" "length rs = 3"
    and f: "answer_fits False (?cs ! 0) (rs ! 0)" "answer_fits True (?cs ! 1) (rs ! 1)" "answer_fits True (?cs ! 2) (rs ! 2)"
    by (auto simp: numeral_eq_Suc All_less_Suc2)
  then obtain x y z where rs: "rs = [x, y, z]" by (auto simp: numeral_eq_Suc length_Suc_conv)
  show ?thesis using r f unfolding rs by (cases x; cases y; cases z) auto
qed

section \<open>Where a call waits for ever\<close>



text \<open>An event sent to a loop that has returned is never received: a task that was handed back and is
  cancelled later, a submission that passed its checks before the loop returned, or a change of the
  concurrency keeps its sender waiting through every further history.\<close>

lemma send_after_return_waits:
  assumes "(sys_step C)\<^sup>*\<^sup>* s t" "\<not> sys_alive s" "ev \<in># sys_pending s"
  shows "\<not> sys_alive t \<and> ev \<in># sys_pending t"
  using assms
proof (induction rule: rtranclp_induct)
  case (step t u)
  then have "\<not> sys_alive t" "ev \<in># sys_pending t" by simp_all
  with step.hyps(2) show ?case by cases auto
qed simp

text \<open>\<open>CancelNow\<close> leaves the running tasks alone: no goroutine, no task and no context is cancelled.\<close>

lemma cancel_now_spares_running:
  "e_goroutines (snd (cancel_now e)) = e_goroutines e \<and> e_tasks (snd (cancel_now e)) = e_tasks e"
  by (simp add: cancel_now_def case_prod_beta Let_def)

text \<open>The branch for a done context is the step \<open>Cancel\<close> of a client, and after the cancellation it sends
  nothing and changes nothing, so the loop can take it again at once.\<close>

lemma ctx_done_is_cancel:
  "(ctx_done_branch (sys_ex s) = [CancelEvent] \<and> sys_step C s (send CancelEvent s)) \<or>
   (ctx_done_branch (sys_ex s) = [] \<and> exec_Canceled (sys_ex s))"
  by (auto simp: ctx_done_branch_def client_Cancel_def exec_Canceled_def intro!: sys_step.cancel)

end
