(* ===== verification/Wakeup.thy ===== *)
theory Wakeup
  imports Progress
begin

text \<open>
  Package \<^verbatim>\<open>executors\<close>, the timer of the loop: as long as no two scheduled tasks are due at the very same instant,
  the timer is armed whenever a task is scheduled, and no later than the first instant
  at which one is due. The exception is the lost wake-up that the theory \<open>Executor\<close> exhibits.
\<close>

section \<open>The timer and the scheduled queue\<close>

abbreviation due_at :: "'v executor \<Rightarrow> nat \<Rightarrow> int" where
  "due_at e el \<equiv> t_nextRun (e_tasks e (el_Value (pq_objs (e_sched e) el)))"

text \<open>The priorities are the instants of the tasks, the timer covers the head of the queue, and a timer that is
  not armed has fired.\<close>

definition clocked :: "int \<Rightarrow> 'v executor \<Rightarrow> bool" where
  "clocked now e \<longleftrightarrow>
     (\<forall>el \<in> set (pq_slice (e_sched e)). fst (key_of (e_sched e) el) = due_at e el) \<and>
     (pq_slice (e_sched e) \<noteq> [] \<longrightarrow> e_timerArmed e \<and> e_timerTarget e \<le> t_nextRun (e_tasks e (sched_top e))) \<and>
     (\<not> e_timerArmed e \<longrightarrow> e_timerTarget e \<le> now)"

lemma in_scheduled: "el \<in> set (pq_slice (e_sched e)) \<Longrightarrow> el_Value (pq_objs (e_sched e) el) \<in># scheduled e"
  by (simp add: scheduled_def)

lemma top_in: "pq_slice (e_sched e) \<noteq> [] \<Longrightarrow> pq_slice (e_sched e) ! 0 \<in> set (pq_slice (e_sched e))"
  by simp

lemma top_first:
  assumes "pq_inv (e_sched e)" "\<forall>el \<in> set (pq_slice (e_sched e)). fst (key_of (e_sched e) el) = due_at e el"
    and "el \<in> set (pq_slice (e_sched e))"
  shows "t_nextRun (e_tasks e (sched_top e)) \<le> due_at e el"
proof -
  have "pq_slice (e_sched e) \<noteq> []" using assms(3) by auto
  then have "pq_slice (e_sched e) ! 0 \<in> set (pq_slice (e_sched e))" by simp
  moreover have "key_of (e_sched e) (pq_slice (e_sched e) ! 0) \<le> key_of (e_sched e) el"
    using pq_inv_min[OF assms(1,3)] .
  ultimately show ?thesis using assms(2,3) by (auto simp: sched_top_def less_eq_prod_def)
qed

lemma clocked_cong:
  assumes "clocked now e" "e_sched e' = e_sched e" "e_timerArmed e' = e_timerArmed e" "e_timerTarget e' = e_timerTarget e"
    and "\<And>p. p \<in># scheduled e \<Longrightarrow> t_nextRun (e_tasks e' p) = t_nextRun (e_tasks e p)"
  shows "clocked now e'"
proof -
  have "due_at e' el = due_at e el" if "el \<in> set (pq_slice (e_sched e))" for el
    using assms(2,5) in_scheduled[OF that] by simp
  moreover have "t_nextRun (e_tasks e' (sched_top e')) = t_nextRun (e_tasks e (sched_top e))" if "pq_slice (e_sched e) \<noteq> []"
    using assms(2,5) in_scheduled[OF top_in[OF that]] by (simp add: sched_top_def)
  ultimately show ?thesis using assms(1-4) by (auto simp: clocked_def)
qed

text \<open>A new head of the queue after a push or a removal sets the timer.\<close>

lemma configure_clocked:
  assumes "\<forall>el \<in> set (pq_slice (e_sched e)). fst (key_of (e_sched e) el) = due_at e el"
    and "\<not> e_timerArmed e \<longrightarrow> e_timerTarget e \<le> now"
    and "pq_slice (e_sched e) \<noteq> [] \<Longrightarrow> t_nextRun (e_tasks e (sched_top e)) = e_timerTarget e \<Longrightarrow> e_timerArmed e"
  shows "clocked now (configureSchedulerTimer e)"
  using assms by (auto simp: clocked_def configureSchedulerTimer_def sched_top_def key_of_def Len_def Let_def)

lemma clocked_push:
  assumes i: "pq_inv (e_sched e)" and c: "clocked now e" and p: "now < t_nextRun (e_tasks e p)"
    and f: "e_sched f = e_sched (snd (push_sched p e))" "e_timerArmed f = e_timerArmed e" "e_timerTarget f = e_timerTarget e"
      "\<And>q. t_nextRun (e_tasks f q) = t_nextRun (e_tasks e q)"
  shows "clocked now (configureSchedulerTimer f)"
proof -
  let ?s = "e_sched e" and ?t = "e_sched f"
  obtain el where q: "Push p (t_nextRun (e_tasks e p)) ?s = (el, ?t)"
    using f(1) by (cases "Push p (t_nextRun (e_tasks e p)) ?s") (simp add: push_sched_def)
  note pp = Push_props[OF i, of p "t_nextRun (e_tasks e p)", unfolded q, simplified]
  have set: "set (pq_slice ?t) = insert (pq_next ?s) (set (pq_slice ?s))"
    using pp(3) by (metis set_mset_add_mset_insert set_mset_mset)
  have fresh: "pq_next ?s \<notin> set (pq_slice ?s)" using i by (auto simp: pq_inv_def pq_wf_def)
  have k: "fst (key_of ?t x) = due_at f x" if "x \<in> set (pq_slice ?t)" for x
    using that c fresh f(4) pp(4,8) unfolding set clocked_def by auto
  show ?thesis
  proof (rule configure_clocked)
    assume ne: "pq_slice ?t \<noteq> []" and eq: "t_nextRun (e_tasks f (sched_top f)) = e_timerTarget f"
    show "e_timerArmed f"
    proof (rule ccontr)
      assume n: "\<not> e_timerArmed f"
      then have old: "pq_slice ?s = []" using c f(2) by (auto simp: clocked_def)
      have "pq_slice ?t ! 0 = pq_next ?s" using set old top_in[OF ne] by auto
      then have "sched_top f = p" using pp(8) by (simp add: sched_top_def)
      then show False using n eq c p f(2-4) by (simp add: clocked_def)
    qed
  qed (use k c f in \<open>auto simp: clocked_def\<close>)
qed

lemma clocked_take:
  assumes i: "pq_inv (e_sched e)" and c: "clocked now e"
    and q: "mset (pq_slice (e_sched e)) = add_mset el (mset (pq_slice q))" "key_of q = key_of (e_sched e)"
      "\<And>x. el_Value (pq_objs q x) = el_Value (pq_objs (e_sched e) x)"
  shows "clocked now (e\<lparr>e_sched := q\<rparr>)"
proof -
  have sub: "set (pq_slice q) \<subseteq> set (pq_slice (e_sched e))"
    using q(1) by (metis set_mset_add_mset_insert set_mset_mset subset_insertI)
  have "t_nextRun (e_tasks e (sched_top e)) \<le> t_nextRun (e_tasks e (sched_top (e\<lparr>e_sched := q\<rparr>)))" if "pq_slice q \<noteq> []"
  proof -
    have "pq_slice q ! 0 \<in> set (pq_slice (e_sched e))" using sub that by auto
    then show ?thesis using top_first[OF i] c q(3) by (auto simp: clocked_def sched_top_def)
  qed
  then show ?thesis using c sub q(2,3) by (fastforce simp: clocked_def)
qed

section \<open>Every turn of the loop\<close>

lemma executeTask_timer:
  "e_timerArmed (executeTask now p e) = e_timerArmed e" "e_timerTarget (executeTask now p e) = e_timerTarget e"
  "t_nextRun (e_tasks (executeTask now p e) q) = t_nextRun (e_tasks e q)"
  by (auto simp: executeTask_def setRunning_def case_prod_beta split: bool.split)

lemma push_timer [simp]:
  "e_timerArmed (snd (push_sched p e)) = e_timerArmed e" "e_timerTarget (snd (push_sched p e)) = e_timerTarget e"
  "e_timerArmed (snd (push_back p e)) = e_timerArmed e" "e_timerTarget (snd (push_back p e)) = e_timerTarget e"
  "e_sched (snd (push_back p e)) = e_sched e"
  by (simp_all add: push_sched_def push_back_def case_prod_beta)

lemma tryExecuteTask_clocked:
  assumes i: "pq_inv (e_sched e)" and c: "clocked now e"
  shows "clocked now (tryExecuteTask now p e)"
proof -
  have s: "clocked now (configureSchedulerTimer (upd_task p (\<lambda>t. t\<lparr>t_sQueueElement := x\<rparr>) (snd (push_sched p e))))"
    if "0 < Delay now (e_tasks e p)" for x
    by (rule clocked_push[OF i c]) (use that in \<open>simp_all add: Delay_def\<close>)
  have b: "clocked now (upd_task p (\<lambda>t. t\<lparr>t_queueElement := x\<rparr>) (snd (push_back p e)))" for x
    by (rule clocked_cong[OF c]) simp_all
  have e: "clocked now (executeTask now p e)"
    by (rule clocked_cong[OF c]) (simp_all add: executeTask_timer executeTask_frame)
  show ?thesis using s b e c by (auto simp: tryExecuteTask_def Let_def case_prod_beta)
qed

lemma tryRunNextTask_clocked:
  assumes i: "pq_inv (e_sched e)" and c: "clocked now e" and r: "tryRunNextTask now e = Ret (e', ok)"
  shows "clocked now e'"
proof -
  let ?f = "\<lambda>p. upd_task p (\<lambda>t. t\<lparr>t_queueElement := None\<rparr>) (e\<lparr>e_queue := tl (e_queue e)\<rparr>)"
  have "clocked now (?f p)" for p by (rule clocked_cong[OF c]) simp_all
  then have t: "clocked now (tryExecuteTask now p (?f p))" for p using i by (intro tryExecuteTask_clocked) simp_all
  have u: "clocked now (e\<lparr>e_status := st\<rparr>)" "clocked now (e\<lparr>e_status := st, e_termClosed := b\<rparr>)" for st b
    by (rule clocked_cong[OF c]; simp)+
  show ?thesis using r c t[of "snd (hd (e_queue e))"] u by (auto simp: tryRunNextTask_def Let_def split: if_splits)
qed

lemma run_queued_clocked:
  "live_inv C P e \<Longrightarrow> clocked now e \<Longrightarrow> run_queued k now e = Ret (e', ok) \<Longrightarrow> clocked now e'"
proof (induction k arbitrary: e)
  case (Suc k)
  obtain e1 ok1 where t: "tryRunNextTask now e = Ret (e1, ok1)" and n: "next_ok C P e (Ret (e1, ok1))"
    using tryRunNextTask_ok[OF Suc.prems(1), of now] by (cases "tryRunNextTask now e") auto
  have "clocked now e1" using tryRunNextTask_clocked[OF _ Suc.prems(2) t] Suc.prems(1) by (simp add: live_inv_def data_inv_def)
  then show ?case using Suc n t by (cases ok1) (auto split: if_splits)
qed simp

lemma completed_clocked:
  assumes i: "pq_inv (e_sched e)" and c: "clocked now e" and p: "p \<notin># scheduled e" and r: "completed now p e = Ret e'"
  shows "clocked now e'"
proof -
  have u: "clocked now (e\<lparr>e_running := x, e_tasks := (e_tasks e)(p := t)\<rparr>)" for x t
    by (rule clocked_cong[OF c]) (use p in auto)
  have v: "clocked now (e\<lparr>e_running := x\<rparr>)" for x by (rule clocked_cong[OF c]) auto
  let ?f = "\<lambda>t. e\<lparr>e_running := e_running e - 1, e_tasks := (e_tasks e)(p := t)\<rparr>"
  have s: "clocked now (configureSchedulerTimer (snd (push_sched p (?f t))))" if "0 < Delay now t" for t
    by (rule clocked_push[OF _ u]) (use i that in \<open>simp_all add: Delay_def\<close>)
  have b: "clocked now (snd (push_back p (?f t)))" for t by (rule clocked_cong[OF u]) simp_all
  show ?thesis using r u v s b
    by (auto simp: completed_def Let_def split: if_splits elim!: go_bind.elims)
qed

lemma Remove_clocked:
  assumes "pq_inv (e_sched e)" "clocked now e"
  shows "clocked now (e\<lparr>e_sched := snd (Remove el (e_sched e))\<rparr>)"
proof (cases "el \<in> set (pq_slice (e_sched e))")
  case True
  note r = Remove_props[OF assms(1) True]
  show ?thesis by (rule clocked_take[OF assms r(3,4,8)])
next
  case False
  then show ?thesis using Remove_not_member[OF assms(1)] assms(2) by simp
qed

lemma canceled_clocked:
  assumes i: "pq_inv (e_sched e)" and c: "clocked now e" and r: "canceled p e = Ret e'"
  shows "clocked now e'"
proof -
  let ?e = "upd_task p (\<lambda>t. if t_err t = None then t\<lparr>t_err := Some ContextCanceled\<rparr> else t) e"
  have ce: "clocked now ?e" by (rule clocked_cong[OF c]) auto
  have l: "clocked now f \<and> e_sched f = e_sched e" if "list_remove el ?e = Ret f" for el f
  proof -
    have "e_sched f = e_sched ?e" "e_timerArmed f = e_timerArmed ?e" "e_timerTarget f = e_timerTarget ?e" "e_tasks f = e_tasks ?e"
      using that by (auto simp: list_remove_def split: if_splits)
    then show ?thesis using clocked_cong[OF ce, of f] by simp
  qed
  have s: "clocked now (f\<lparr>e_sched := snd (Remove el (e_sched e))\<rparr>)" if "clocked now f" "e_sched f = e_sched e" for f el
    using Remove_clocked[of f now el] that i by simp
  show ?thesis
  proof (cases "t_queueElement (e_tasks ?e p)")
    case None
    then show ?thesis using r ce s[OF ce] by (auto simp: canceled_def Let_def split: if_splits option.splits)
  next
    case (Some el)
    then show ?thesis using r ce s l[of el]
      by (cases "list_remove el ?e") (auto simp: canceled_def Let_def split: if_splits option.splits)
  qed
qed

lemma cancel_now_clocked:
  assumes "pq_inv (e_sched e)" "clocked now e"
  shows "clocked now (snd (cancel_now e))"
proof -
  obtain els q where dr: "drain Pop (Len (e_sched e)) (e_sched e) = (els, q)" by fastforce
  have "pq_slice q = []" using pqueue.drain_sorted[OF assms(1) _ dr] by (simp add: Len_def)
  then show ?thesis using assms(2) by (simp add: cancel_now_def dr clocked_def Let_def)
qed

lemma handle_clocked:
  assumes l: "live_inv C (completed_task ev + P) e" and conc: "\<And>c. ev = UpdateConcurrencyEvent c \<Longrightarrow> 0 \<le> c \<and> c \<le> C"
    and c: "clocked now e" and p: "\<And>p. ev = TaskCompletedEvent p \<Longrightarrow> p \<notin># scheduled e"
    and h: "turn_state (handle now ev e) = Some e'"
  shows "clocked now e'"
proof -
  have i: "pq_inv (e_sched e)" using l by (simp add: live_inv_def data_inv_def)
  have st: "clocked now (e\<lparr>e_status := x\<rparr>)" "clocked now (e\<lparr>e_concurrency := y\<rparr>)" "clocked now (e\<lparr>e_capacity := z\<rparr>)" for x y z
    by (rule clocked_cong[OF c]; simp)+
  show ?thesis
  proof (cases ev)
    case (TaskCompletedEvent q)
    obtain f where f: "completed now q e = Ret f" "live_inv C P f"
      using completed_ok[of C q P e now] l TaskCompletedEvent by auto
    have "clocked now f" using completed_clocked[OF i c p[OF TaskCompletedEvent] f(1)] .
    then show ?thesis using h f TaskCompletedEvent tryRunNextTask_clocked[of f now e']
      by (auto simp: turn_of_state live_inv_def data_inv_def)
  next
    case CancelNowEvent
    have "pq_inv (e_sched (snd (cancel_now e)))"
      using cancel_now_ok[of C P e] l CancelNowEvent by (simp add: live_inv_def data_inv_def)
    then show ?thesis using h c cancel_now_clocked[OF i c] CancelNowEvent tryRunNextTask_clocked[of "snd (cancel_now e)" now e']
      by (auto simp: turn_of_state case_prod_beta Let_def split: if_splits)
  next
    case (UpdateConcurrencyEvent x)
    then have "live_inv C P (e\<lparr>e_concurrency := x\<rparr>)" using l conc by (simp add: live_inv_def run_inv_def)
    then show ?thesis using h UpdateConcurrencyEvent run_queued_clocked[OF _ st(2)] by (auto simp: turn_of_state)
  next
    case CancelEvent
    then show ?thesis using h c i st(1) tryRunNextTask_clocked[OF _ st(1)] by (auto simp: turn_of_state split: if_splits)
  qed (use h c st(3) canceled_clocked[OF i c] tryExecuteTask_clocked[OF i c] in \<open>auto split: go.splits\<close>)
qed

subsection \<open>The timer fires\<close>

text \<open>No two scheduled tasks are due at the same instant.\<close>

definition apart :: "'v executor \<Rightarrow> bool" where
  "apart e \<longleftrightarrow> distinct (map (due_at e) (pq_slice (e_sched e)))"

text \<open>After the head was taken, the next one is due later than the timer was set for.\<close>

lemma apart_next:
  assumes i: "pq_inv (e_sched e)" and c: "clocked now e" and a: "apart e" and pop: "Pop (e_sched e) = Ret (el, q)"
    and ne: "pq_slice q \<noteq> []"
  shows "e_timerTarget e < t_nextRun (e_tasks e (el_Value (pq_objs q (pq_slice q ! 0))))"
proof -
  note pp = Pop_props[OF i pop]
  have "pq_slice (e_sched e) \<noteq> []" using pp(3) by auto
  then have top: "e_timerTarget e \<le> due_at e el" using c pp(1) by (simp add: clocked_def sched_top_def)
  let ?x = "pq_slice q ! 0"
  have d: "distinct (pq_slice (e_sched e))" using a by (simp add: apart_def distinct_map)
  have "count (mset (pq_slice (e_sched e))) x \<le> 1" for x using d by (simp add: distinct_count_atmost_1)
  then have "el \<notin> set (pq_slice q)" using pp(3) by (metis Suc_le_mono count_add_mset count_eq_zero_iff le_0_eq One_nat_def set_mset_mset)
  moreover have x: "?x \<in> set (pq_slice q)" using ne by simp
  ultimately have ne': "?x \<noteq> el" by auto
  have in0: "?x \<in> set (pq_slice (e_sched e))" "el \<in> set (pq_slice (e_sched e))"
    using pp(3) x by (metis insertCI set_mset_add_mset_insert set_mset_mset)+
  have "due_at e el \<le> due_at e ?x" using top_first[OF i _ in0(1)] c pp(1) by (simp add: clocked_def sched_top_def)
  moreover have "due_at e ?x \<noteq> due_at e el" using a in0 ne' by (auto simp: apart_def distinct_map inj_on_def)
  ultimately show ?thesis using top pp(8) by simp
qed

lemma timer_fired_clocked:
  assumes i: "pq_inv (e_sched e)" and c: "clocked now e" and a: "apart e" and t: "e_timerTarget e \<le> now"
  shows "clocked now (timer_fired now e)"
proof (cases "pq_slice (e_sched e) = []")
  case True
  then show ?thesis using t by (simp add: timer_fired_def clocked_def Len_def)
next
  case False
  obtain el q where pop: "Pop (e_sched e) = Ret (el, q)" using Pop_Ret[OF False] by blast
  note pp = Pop_props[OF i pop]
  let ?e = "e\<lparr>e_timerArmed := False\<rparr>"
  have top: "el_Value (pq_objs q el) = sched_top e" using pp(1,8) by (simp add: sched_top_def)
  show ?thesis
  proof (cases "t_nextRun (e_tasks e (sched_top e)) \<le> now")
    case True
    let ?p = "sched_top e"
    let ?f = "upd_task ?p (\<lambda>t. t\<lparr>t_sQueueElement := None\<rparr>) (?e\<lparr>e_sched := q\<rparr>)"
    let ?g = "tryExecuteTask now ?p ?f"
    have d: "\<not> 0 < Delay now (e_tasks ?f ?p)" using True by (simp add: Delay_def)
    have g: "e_sched ?g = q" "\<not> e_timerArmed ?g" "e_timerTarget ?g = e_timerTarget e"
      "t_nextRun (e_tasks ?g x) = t_nextRun (e_tasks e x)" for x
      using d by (simp_all add: tryExecuteTask_def executeTask_timer executeTask_frame case_prod_beta Let_def)
    have ct: "clocked now (e\<lparr>e_sched := q\<rparr>)" by (rule clocked_take[OF i c pp(3,4,8)])
    have "clocked now (configureSchedulerTimer ?g)"
    proof (rule configure_clocked)
      show "\<forall>x \<in> set (pq_slice (e_sched ?g)). fst (key_of (e_sched ?g) x) = due_at ?g x"
        using ct g(1,4) by (simp add: clocked_def)
      show "\<not> e_timerArmed ?g \<longrightarrow> e_timerTarget ?g \<le> now" using t g(3) by simp
      assume "pq_slice (e_sched ?g) \<noteq> []" "t_nextRun (e_tasks ?g (sched_top ?g)) = e_timerTarget ?g"
      then show "e_timerArmed ?g" using apart_next[OF i c a pop] g(1,3,4) by (simp add: sched_top_def)
    qed
    then show ?thesis using False True pop top by (simp add: timer_fired_def Len_def sched_top_def Let_def)
  next
    case late: False
    have "clocked now (configureSchedulerTimer ?e)"
      by (rule configure_clocked) (use c t late in \<open>auto simp: clocked_def sched_top_def\<close>)
    then show ?thesis using False late by (simp add: timer_fired_def Len_def sched_top_def Let_def)
  qed
qed

section \<open>Histories\<close>

text \<open>The histories, from an idle moment after the timer was first set, in which never two scheduled tasks are due at the same
  instant. Anything else may happen, cancellations included.\<close>

inductive timed :: "int \<Rightarrow> 'v system \<Rightarrow> bool" for C where
  timed_start: "sys_reachable C s \<Longrightarrow> places s = {#} \<Longrightarrow> sys_pending s = {#} \<Longrightarrow> e_timerTarget (sys_ex s) \<le> sys_now s \<Longrightarrow> timed C s"
| timed_step: "timed C s \<Longrightarrow> sys_step C s t \<Longrightarrow> apart (sys_ex s) \<Longrightarrow> timed C t"

lemma timed_reachable: "timed C s \<Longrightarrow> sys_reachable C s"
  by (induction rule: timed.induct) (auto intro: sys_reachable.step)

lemma clocked_later: "clocked now e \<Longrightarrow> now \<le> n \<Longrightarrow> clocked n e"
  by (auto simp: clocked_def)

lemma receive_clocked:
  assumes i: "sys_inv C s" and pl: "place_inv s" and c: "clocked (sys_now s) (sys_ex s)" and a: "sys_alive s"
    and ev: "ev \<in># sys_pending s" and h: "turn_state (handle (sys_now s) ev (sys_ex s)) = Some e"
  shows "clocked (sys_now s) e"
proof (rule handle_clocked[OF _ _ c _ h])
  show "live_inv C (completed_task ev + completions (sys_pending s - {#ev#})) (sys_ex s)"
    using i a completions_remove[OF ev] by (simp add: sys_inv_def)
  fix p
  assume "ev = TaskCompletedEvent p"
  then have "p \<in># completions (sys_pending s)" using completions_remove[OF ev] by simp
  moreover have "count (places s) p \<le> 1" using pl by (simp add: place_inv_def)
  ultimately show "p \<notin># scheduled (sys_ex s)" by (auto simp: places_def holds_def simp flip: count_greater_zero_iff)
qed (use i ev in \<open>auto simp: sys_inv_def\<close>)

lemma clocked_step:
  assumes st: "sys_step C s t" and i: "sys_inv C s" and pl: "place_inv s" and c: "clocked (sys_now s) (sys_ex s)" and a: "apart (sys_ex s)"
  shows "clocked (sys_now t) (sys_ex t)"
  using st
proof cases
  case (tick n)
  then show ?thesis using clocked_later[OF c] by simp
next
  case (submit d0 d ty e p)
  then have e: "p = e_nextTask (sys_ex s)" "e_sched e = e_sched (sys_ex s)" "e_timerArmed e = e_timerArmed (sys_ex s)"
    "e_timerTarget e = e_timerTarget (sys_ex s)" "\<And>q. q \<noteq> p \<Longrightarrow> e_tasks e q = e_tasks (sys_ex s) q"
    by (auto simp: schedule_def Let_def split: if_splits)
  have "p \<notin># scheduled (sys_ex s)" using pl e(1) by (auto simp: place_inv_def places_def holds_def)
  then have "clocked (sys_now s) e" using clocked_cong[OF c e(2-4)] e(5) by metis
  then show ?thesis using submit by simp
next
  case (await p)
  have "clocked (sys_now s) (sys_ex t)"
    by (rule clocked_cong[OF c]) (use await in \<open>auto simp: Await_def Let_def split: option.split\<close>)
  then show ?thesis using await by simp
next
  case (cancel_task p u)
  then have "t_nextRun u = t_nextRun (e_tasks (sys_ex s) p)"
    by (auto simp: Cancel_def cancel_ctx_def close_done_def split: if_splits option.splits done_chn.splits)
  then have "clocked (sys_now s) (sys_ex t)" by (intro clocked_cong[OF c]) (use cancel_task in auto)
  then show ?thesis using cancel_task by simp
next
  case (task_ends p out e)
  have u: "t_nextRun t' = t_nextRun x" if "setDone v err x = Ret (b, t')" for v err b and x t' :: "'a task"
    using that by (auto simp: setDone_def cancel_ctx_def close_done_def Let_def split: if_splits option.splits done_chn.splits)
  have "e_timerArmed e = e_timerArmed (sys_ex s)" "e_timerTarget e = e_timerTarget (sys_ex s)"
    "\<And>q. t_nextRun (e_tasks e q) = t_nextRun (e_tasks (sys_ex s) q)"
    using task_ends(3) by (cases out; auto simp: finish_def Let_def u split: if_splits elim!: go_bind.elims)+
  then have "clocked (sys_now s) e" using clocked_cong[OF c finish_frame(6)[OF task_ends(3)]] by blast
  then show ?thesis using task_ends by simp
next
  case (receive ev e r)
  then show ?thesis using receive_clocked[OF i pl c, of ev e] by simp
next
  case (loop_returns ev e r)
  then show ?thesis using receive_clocked[OF i pl c, of ev e] by simp
next
  case timer
  have "pq_inv (e_sched (sys_ex s))" using i timer by (simp add: sys_inv_def live_inv_def data_inv_def)
  then show ?thesis using timer_fired_clocked[OF _ c a timer(4)] timer by simp
qed (use c in simp_all)

lemma timed_clocked: "timed C s \<Longrightarrow> clocked (sys_now s) (sys_ex s)"
proof (induction rule: timed.induct)
  case (timed_start s)
  then show ?case by (auto simp: clocked_def places_def holds_def scheduled_def)
next
  case (timed_step s t)
  then show ?case using clocked_step reachable_inv reachable_places timed_reachable by metis
qed

lemma timer_fired_takes_first:
  assumes i: "pq_inv (e_sched e)" and ne: "pq_slice (e_sched e) \<noteq> []" and d: "t_nextRun (e_tasks e (sched_top e)) \<le> now"
  shows "add_mset (sched_top e) (scheduled (timer_fired now e)) = scheduled e"
proof -
  obtain el q where pop: "Pop (e_sched e) = Ret (el, q)" using Pop_Ret[OF ne] by blast
  note pp = Pop_props[OF i pop]
  have top: "el_Value (pq_objs q el) = sched_top e" using pp(1,8) by (simp add: sched_top_def)
  let ?f = "upd_task (sched_top e) (\<lambda>t. t\<lparr>t_sQueueElement := None\<rparr>) (e\<lparr>e_timerArmed := False, e_sched := q\<rparr>)"
  have "\<not> 0 < Delay now (e_tasks ?f (sched_top e))" using d by (simp add: Delay_def)
  then have "e_sched (tryExecuteTask now (sched_top e) ?f) = q"
    by (simp add: tryExecuteTask_def executeTask_frame case_prod_beta Let_def)
  then have "e_sched (timer_fired now e) = q"
    using ne d pop top by (simp add: timer_fired_def Len_def sched_top_def Let_def)
  then show ?thesis using pp(3,8) top by (simp add: scheduled_def)
qed

text \<open>C15. As long as never two scheduled tasks are due at the same instant, no wake-up is lost: when a scheduled task is due, the timer
  of the loop is armed for an instant that has passed, so its branch can be taken, and taking it takes the task that is due
  first out of the scheduled queue, whatever was submitted, changed or cancelled before.\<close>

theorem due_task_wakes_loop:
  assumes t: "timed C s" and a: "sys_alive s" and el: "el \<in> set (pq_slice (e_sched (sys_ex s)))"
    and d: "t_nextRun (e_tasks (sys_ex s) (el_Value (pq_objs (e_sched (sys_ex s)) el))) \<le> sys_now s"
  shows "e_timerArmed (sys_ex s) \<and> e_timerTarget (sys_ex s) \<le> sys_now s \<and>
    sys_step C s (s\<lparr>sys_ex := timer_fired (sys_now s) (sys_ex s)\<rparr>) \<and>
    t_nextRun (e_tasks (sys_ex s) (sched_top (sys_ex s))) \<le> t_nextRun (e_tasks (sys_ex s) (el_Value (pq_objs (e_sched (sys_ex s)) el))) \<and>
    add_mset (sched_top (sys_ex s)) (scheduled (timer_fired (sys_now s) (sys_ex s))) = scheduled (sys_ex s)"
proof -
  have c: "clocked (sys_now s) (sys_ex s)" using timed_clocked[OF t] .
  have i: "pq_inv (e_sched (sys_ex s))"
    using reachable_inv[OF timed_reachable[OF t]] a by (simp add: sys_inv_def live_inv_def data_inv_def)
  have ne: "pq_slice (e_sched (sys_ex s)) \<noteq> []" using el by auto
  have top: "t_nextRun (e_tasks (sys_ex s) (sched_top (sys_ex s))) \<le> due_at (sys_ex s) el"
    using top_first[OF i _ el] c by (simp add: clocked_def)
  have "e_timerArmed (sys_ex s)" "e_timerTarget (sys_ex s) \<le> sys_now s" using c ne top d by (auto simp: clocked_def)
  moreover from this have "sys_step C s (s\<lparr>sys_ex := timer_fired (sys_now s) (sys_ex s)\<rparr>)" using a by (intro sys_step.timer)
  ultimately show ?thesis using top d timer_fired_takes_first[OF i ne] by auto
qed

text \<open>A task submitted with a delay of 10, received, and the clock moved to 10.\<close>

definition sys_delayed :: "nat system" where
  "sys_delayed = send (TaskSubmittedEvent 0)
     (sys0\<lparr>sys_ex := (case Schedule 0 10 (sys_ex sys0) of Inr (e, _) \<Rightarrow> e | Inl _ \<Rightarrow> sys_ex sys0)\<rparr>)"

definition sys_scheduled :: "nat system" where
  "sys_scheduled = sys_delayed\<lparr>sys_ex := tryExecuteTask 0 0 (sys_ex sys_delayed), sys_pending := {#}\<rparr>"

lemma sys_delayed_ex:
  "sys_ex sys_delayed = (sys_ex sys0)\<lparr>e_taskCount := 1, e_nextTask := 1,
     e_tasks := (e_tasks (sys_ex sys0))(0 := (newTask 0 1 TaskTypeOnce 10 0)\<lparr>t_ctx := Some False\<rparr>)\<rparr>"
  by (simp add: sys_delayed_def sys_hist_defs configureContext_def Let_def)

lemma sys_due: "timed 1 (sys_scheduled\<lparr>sys_now := 10\<rparr>)" "sys_alive sys_scheduled"
  "pq_slice (e_sched (sys_ex sys_scheduled)) = [0]" "el_Value (pq_objs (e_sched (sys_ex sys_scheduled)) 0) = 0"
  "t_nextRun (e_tasks (sys_ex sys_scheduled) 0) = 10"
proof -
  have s: "sys_alive sys0" "sys_now sys0 = 0" "sys_pending sys0 = {#}" by (simp_all add: sys0_def)
  obtain e where e: "Schedule 0 10 (sys_ex sys0) = Inr (e, 0)" by (simp add: sys_hist_defs Let_def)
  have "sys_step 1 sys0 sys_delayed"
    using sys_step.submit[of sys0 10 0 TaskTypeOnce e 0 1] e s by (simp add: sys_delayed_def Schedule_def)
  moreover have "timed 1 sys0" using timed_start[OF sys0_reachable sys0_idle(1)] s by (simp add: sys0_def NewDefaultExecutor_def)
  moreover have "apart (sys_ex sys0)" by (simp add: apart_def sys0_def NewDefaultExecutor_def NewPriorityQueue_def)
  ultimately have t1: "timed 1 sys_delayed" using timed_step by blast
  have "sys_step 1 sys_delayed (sys_delayed\<lparr>sys_ex := tryExecuteTask 0 0 (sys_ex sys_delayed),
      sys_pending := sys_pending sys_delayed - {#TaskSubmittedEvent 0#}\<rparr>)"
    by (rule sys_step.receive[where ev = "TaskSubmittedEvent 0"]) (simp_all add: sys_delayed_def s)
  then have "sys_step 1 sys_delayed sys_scheduled" by (simp add: sys_scheduled_def sys_delayed_def s)
  moreover have "apart (sys_ex sys_delayed)" by (simp add: sys_delayed_ex apart_def sys0_def NewDefaultExecutor_def NewPriorityQueue_def)
  ultimately have t2: "timed 1 sys_scheduled" using t1 timed_step by blast
  let ?e = "sys_ex sys_delayed"
  let ?q = "NewPriorityQueue 0 mem0 0 0 :: nat pqueue"
  have q0: "e_sched ?e = ?q" "pq_slice ?q = []" "pq_next ?q = 0" "t_nextRun (e_tasks ?e 0) = 10"
    by (simp_all add: sys_delayed_ex sys0_def NewDefaultExecutor_def NewPriorityQueue_def newTask_def)
  have i: "pq_inv ?q" by (rule NewPriorityQueue_inv) simp
  have sc: "e_sched (sys_ex sys_scheduled) = snd (Push 0 10 ?q)" "t_nextRun (e_tasks (sys_ex sys_scheduled) 0) = 10"
    using q0 by (simp_all add: sys_scheduled_def tryExecuteTask_def Runnable_def Delay_def push_sched_def case_prod_beta Let_def)
      (simp_all add: sys_delayed_ex newTask_def)
  have "mset (pq_slice (snd (Push 0 10 ?q))) = {#0#}" "el_Value (pq_objs (snd (Push 0 10 ?q)) 0) = 0"
    using Push_props(3,8)[OF i, of 0 10] q0 by simp_all
  then show sl: "pq_slice (e_sched (sys_ex sys_scheduled)) = [0]" "el_Value (pq_objs (e_sched (sys_ex sys_scheduled)) 0) = 0"
    using sc by simp_all
  show "t_nextRun (e_tasks (sys_ex sys_scheduled) 0) = 10" "sys_alive sys_scheduled"
    using sc(2) s by (simp_all add: sys_scheduled_def sys_delayed_def)
  have "apart (sys_ex sys_scheduled)" using sl by (simp add: apart_def)
  moreover have "sys_step 1 sys_scheduled (sys_scheduled\<lparr>sys_now := 10\<rparr>)"
    by (rule sys_step.tick) (simp add: sys_scheduled_def sys_delayed_def s)
  ultimately show "timed 1 (sys_scheduled\<lparr>sys_now := 10\<rparr>)" using t2 timed_step by blast
qed

theorem due_task_wakes_loop_witness:
  "e_timerArmed (sys_ex sys_scheduled) \<and> e_timerTarget (sys_ex sys_scheduled) \<le> 10 \<and> scheduled (timer_fired 10 (sys_ex sys_scheduled)) = {#}"
proof -
  have "scheduled (sys_ex sys_scheduled) = {#0#}" using sys_due(3,4) by (simp add: scheduled_def)
  with due_task_wakes_loop[OF sys_due(1), of 0] sys_due(2-) show ?thesis by auto
qed

end
