(* ===== verification/LeaseLock.thy ===== *)
theory LeaseLock
  imports Prelude
begin

text \<open>
  The contract of package \<^verbatim>\<open>distributedlock\<close> (\<^verbatim>\<open>distributedlock.go\<close>): the fields that every lock
  shares, the goroutine of \<^verbatim>\<open>autoExtend\<close>, and, as the locale \<open>lease_lock\<close>, what an implementation
  promises about the holder of a resource over time. The theories \<open>RedisLock\<close> and \<open>PostgresLock\<close>
  interpret the locale. Instants are integers; the zero time of Go is \<open>None\<close>.
\<close>

section \<open>Fields shared by the locks\<close>

record base_lock =
  bl_resource :: string
  bl_id :: string
  bl_ttl :: int
  bl_expiration :: "int option"
  bl_extendedCount :: int
  bl_autoExtenderCancel :: bool

definition new_base_lock :: "string \<Rightarrow> string \<Rightarrow> int \<Rightarrow> base_lock" where
  "new_base_lock resource ident ttl =
     \<lparr>bl_resource = resource, bl_id = ident, bl_ttl = ttl, bl_expiration = None, bl_extendedCount = 0,
      bl_autoExtenderCancel = False\<rparr>"

definition Resource :: "base_lock \<Rightarrow> string" where
  "Resource l = bl_resource l"

definition TTL :: "base_lock \<Rightarrow> int" where
  "TTL l = bl_ttl l"

definition Expiration :: "base_lock \<Rightarrow> int option" where
  "Expiration l = bl_expiration l"

definition ExtendedCount :: "base_lock \<Rightarrow> int" where
  "ExtendedCount l = bl_extendedCount l"

text \<open>What the two servers' \<open>Unlock\<close> does to the lock object after the server answered.\<close>

definition forget :: "base_lock \<Rightarrow> base_lock" where
  "forget l = l\<lparr>bl_autoExtenderCancel := False, bl_extendedCount := 0, bl_expiration := None\<rparr>"

text \<open>How a call to a server ends: it is answered, it never reached the server, or its answer was lost.\<close>

datatype net = Delivered | NotSent string | AnswerLost string

section \<open>Extending a lock in the background\<close>

datatype lock_err = ErrBadState string | ErrLockNotAutoExtended string | ErrServer string | ErrCtx string

text \<open>\<open>autoExtend\<close> refuses a cancelled context and a lock that is not held.\<close>

definition autoExtend :: "lock_err option \<Rightarrow> base_lock \<Rightarrow> (lock_err option \<times> base_lock)" where
  "autoExtend ctxErr l =
     (case ctxErr of
        Some e \<Rightarrow> (Some e, l)
      | None \<Rightarrow>
          if Expiration l = None then (Some (ErrBadState (Resource l)), l)
          else (None, l\<lparr>bl_autoExtenderCancel := True\<rparr>))"

text \<open>The goroutine: at each tick, every half of the time to live, the context is done or an extension
  is tried. The result is the number of ticks that passed and the cause with which the context was
  cancelled, if any; \<open>None\<close> as cause of the whole means that the goroutine still runs.\<close>

datatype tick = CtxDone | Extended "lock_err + bool"

datatype auto_end = StillRunning | StoppedByCtx | CancelledWith lock_err

fun auto_loop :: "string \<Rightarrow> tick list \<Rightarrow> auto_end" where
  "auto_loop resource [] = StillRunning"
| "auto_loop resource (CtxDone # ts) = StoppedByCtx"
| "auto_loop resource (Extended (Inl e) # ts) = CancelledWith e"
| "auto_loop resource (Extended (Inr b) # ts) =
     (if b then auto_loop resource ts else CancelledWith (ErrLockNotAutoExtended resource))"

text \<open>The holder's context is cancelled at the first extension that did not succeed and not before.\<close>

lemma auto_loop_extends:
  "(\<forall>t \<in> set ts. t = Extended (Inr True)) \<longleftrightarrow> auto_loop resource ts = StillRunning"
  by (induction resource ts rule: auto_loop.induct) auto

lemma auto_loop_append:
  "auto_loop resource ts = StillRunning \<Longrightarrow> auto_loop resource (ts @ us) = auto_loop resource us"
  by (induction resource ts rule: auto_loop.induct) (auto split: if_splits)

section \<open>The contract of a lease\<close>

datatype lease_op = OpTry | OpUnlock | OpExtend

text \<open>A history of calls: the instant, the caller, the operation, and what the network does to it. The
  implementation is the function \<open>call\<close>, which answers and changes the state.\<close>

type_synonym ('f, 'id) lease_event = "int \<times> 'id \<times> lease_op \<times> 'f"

fun lease_run ::
    "(int \<Rightarrow> 'id \<Rightarrow> lease_op \<Rightarrow> 'f \<Rightarrow> 's \<Rightarrow> (lock_err + bool) \<times> 's) \<Rightarrow> ('f, 'id) lease_event list \<Rightarrow> 's \<Rightarrow>
     (lock_err + bool) list \<times> 's" where
  "lease_run call [] s = ([], s)"
| "lease_run call ((t, i, op, f) # evs) s =
     (let (r, s') = call t i op f s; (rs, s'') = lease_run call evs s' in (r # rs, s''))"

text \<open>Events in the order of time, none before \<open>now\<close>.\<close>

fun timed :: "int \<Rightarrow> ('f, 'id) lease_event list \<Rightarrow> bool" where
  "timed now [] \<longleftrightarrow> True"
| "timed now ((t, e) # evs) \<longleftrightarrow> now \<le> t \<and> timed t evs"

fun unlocked_by :: "'id \<Rightarrow> ('f, 'id) lease_event list \<Rightarrow> bool" where
  "unlocked_by i [] \<longleftrightarrow> False"
| "unlocked_by i ((t, j, op, f) # evs) \<longleftrightarrow> (j = i \<and> op = OpUnlock) \<or> unlocked_by i evs"

lemma lease_run_append:
  "lease_run call (xs @ ys) s =
     (let (rs, s') = lease_run call xs s; (qs, s'') = lease_run call ys s' in (rs @ qs, s''))"
  by (induction call xs s rule: lease_run.induct) (auto simp: Let_def split: prod.splits)

lemma lease_run_length: "length (fst (lease_run call evs s)) = length evs"
  by (induction call evs s rule: lease_run.induct) (auto simp: Let_def split: prod.splits)

lemma timed_append: "timed now (xs @ (t, e) # ys) \<Longrightarrow> timed now xs \<and> timed t ys \<and> now \<le> t \<and> (\<forall>x \<in> set xs. fst x \<le> t)"
  by (induction now xs rule: timed.induct) (auto simp: order_trans)

text \<open>The laws: a call that finds a holder does not acquire and does not disturb the holder's lease,
  unless it is the holder's own unlock; a call that reports success leaves the caller the holder for
  its time to live; a renewal of the holder either changes nothing or gives it a full lease.\<close>

locale lease_lock =
  fixes inv :: "'s \<Rightarrow> bool"
    and holder :: "int \<Rightarrow> 's \<Rightarrow> 'id option"
    and ttl :: "'id \<Rightarrow> int"
    and call :: "int \<Rightarrow> 'id \<Rightarrow> lease_op \<Rightarrow> 'f \<Rightarrow> 's \<Rightarrow> (lock_err + bool) \<times> 's"
  assumes call_inv: "inv s \<Longrightarrow> call t i op f s = (r, s') \<Longrightarrow> inv s'"
    and try_held: "inv s \<Longrightarrow> holder t s = Some j \<Longrightarrow> call t i OpTry f s = (r, s') \<Longrightarrow> r \<noteq> Inr True"
    and held_kept: "inv s \<Longrightarrow> holder t s = Some j \<Longrightarrow> call t i op f s = (r, s') \<Longrightarrow> i \<noteq> j \<or> op = OpTry \<Longrightarrow>
          t \<le> u \<Longrightarrow> holder u s' = holder u s"
    and acquired: "inv s \<Longrightarrow> call t i op f s = (Inr True, s') \<Longrightarrow> op \<noteq> OpUnlock \<Longrightarrow> t \<le> u \<Longrightarrow> u < t + ttl i \<Longrightarrow>
          holder u s' = Some i"
    and renewed: "inv s \<Longrightarrow> holder t s = Some i \<Longrightarrow> call t i OpExtend f s = (r, s') \<Longrightarrow>
          (\<forall>u \<ge> t. holder u s' = holder u s) \<or> (\<forall>u. t \<le> u \<and> u < t + ttl i \<longrightarrow> holder u s' = Some i)"
begin

lemma run_inv: "inv s \<Longrightarrow> lease_run call evs s = (rs, s') \<Longrightarrow> inv s'"
proof (induction evs arbitrary: s rs)
  case (Cons e evs)
  then show ?case by (cases e) (auto simp: Let_def split: prod.splits dest: call_inv)
qed simp

text \<open>One call keeps the lease of \<open>i\<close> up to the instant \<open>d\<close>.\<close>

lemma lease_step:
  assumes i: "inv s" and own: "\<And>u. t \<le> u \<Longrightarrow> u < d \<Longrightarrow> holder u s = Some i" and d: "t < d" "d \<le> t + ttl i"
    and c: "call t j op f s = (r, s')" and no: "\<not> (j = i \<and> op = OpUnlock)" and u: "t \<le> u" "u < d"
  shows "holder u s' = Some i"
proof -
  have h: "holder t s = Some i" using own d by simp
  show ?thesis
  proof (cases "j \<noteq> i \<or> op = OpTry")
    case True
    then show ?thesis using held_kept[OF i h c _ u(1)] own[OF u] by auto
  next
    case False
    then have "j = i" "op = OpExtend" using no by (cases op; auto)+
    then show ?thesis using renewed[OF i h, of f r s'] c own[OF u] u d by auto
  qed
qed

lemma lease_kept:
  "inv s \<Longrightarrow> (\<And>u. now \<le> u \<Longrightarrow> u < d \<Longrightarrow> holder u s = Some i) \<Longrightarrow> d \<le> now + ttl i \<Longrightarrow> timed now evs \<Longrightarrow>
   \<forall>e \<in> set evs. fst e < d \<Longrightarrow> \<not> unlocked_by i evs \<Longrightarrow> lease_run call evs s = (rs, s') \<Longrightarrow>
   timed now (evs @ [(t, x)]) \<Longrightarrow> t < d \<Longrightarrow> holder t s' = Some i"
proof (induction evs arbitrary: s now rs)
  case (Cons e evs)
  obtain t1 j op f where e: "e = (t1, j, op, f)" by (cases e)
  obtain r s1 where c: "call t1 j op f s = (r, s1)" by fastforce
  obtain qs where run: "lease_run call evs s1 = (qs, s')" using Cons.prems(7) e c by (auto simp: Let_def split: prod.splits)
  have t1: "now \<le> t1" "t1 < d" and tm: "timed t1 evs" "timed t1 (evs @ [(t, x)])"
    using Cons.prems(4,5,8) e by auto
  have own: "holder u s = Some i" if "t1 \<le> u" "u < d" for u using Cons.prems(2) that t1 by auto
  have "holder u s1 = Some i" if "t1 \<le> u" "u < d" for u
    using lease_step[OF Cons.prems(1) own t1(2) _ c _ that] Cons.prems(3,6) e t1(1) by auto
  from Cons.IH[OF call_inv[OF Cons.prems(1) c] this _ tm(1) _ _ run tm(2) Cons.prems(9)]
  show ?case using Cons.prems(3,5,6) e t1(1) by auto
qed simp

theorem mutual_exclusion:
  assumes i: "inv s"
    and tm: "timed now (pre @ (t, i, op, f) # mid @ (t', j, OpTry, f') # post)"
    and run: "lease_run call (pre @ (t, i, op, f) # mid @ (t', j, OpTry, f') # post) s = (rs, s')"
    and got: "rs ! length pre = Inr True" "op \<noteq> OpUnlock" and live: "t' < t + ttl i"
    and no: "\<not> unlocked_by i mid"
  shows "rs ! (length pre + 1 + length mid) \<noteq> Inr True"
proof -
  obtain rs1 s1 where r1: "lease_run call pre s = (rs1, s1)" by fastforce
  obtain r s2 where c: "call t i op f s1 = (r, s2)" by fastforce
  obtain rs2 s3 where r2: "lease_run call mid s2 = (rs2, s3)" by fastforce
  obtain q s4 where c': "call t' j OpTry f' s3 = (q, s4)" by fastforce
  obtain rs3 where "lease_run call post s4 = (rs3, s')" and rs: "rs = rs1 @ r # rs2 @ q # rs3"
    using run r1 c r2 c' by (auto simp: lease_run_append Let_def split: prod.splits)
  have len: "length rs1 = length pre" "length rs2 = length mid"
    using lease_run_length[of call pre s] lease_run_length[of call mid s2] r1 r2 by simp_all
  have i1: "inv s1" using run_inv[OF i r1] .
  have "r = Inr True" using got(1) rs len by (simp add: nth_append)
  then have own: "holder u s2 = Some i" if "t \<le> u" "u < t + ttl i" for u
    using acquired[OF i1, of t i op f s2 u] c got(2) that by simp
  have tm2: "timed t (mid @ (t', j, OpTry, f') # post)" using timed_append[OF tm] by simp
  from timed_append[OF this] have m: "timed t mid" "\<forall>x \<in> set mid. fst x \<le> t'" "t \<le> t'" by auto
  have tm3: "timed t (mid @ [(t', j, OpTry, f')])"
    using tm2 by (induction t mid rule: timed.induct) auto
  have i2: "inv s2" using call_inv[OF i1 c] .
  have "holder t' s3 = Some i"
    using lease_kept[OF i2 own order_refl m(1) _ no r2 tm3 live] m(2) live by force
  from try_held[OF run_inv[OF i2 r2] this c'] show ?thesis using rs len by (simp add: nth_append)
qed

end

end
