(* ===== verification/RedisLock.thy ===== *)
theory RedisLock
  imports LeaseLock
begin

text \<open>
  File \<^verbatim>\<open>distributedlock_redis.go\<close>: the three Lua scripts and the methods around them. The Redis
  server is a parameter: a record of the commands the scripts use, at the server's clock in
  milliseconds. What the lock relies on is the predicate \<open>redis_ok\<close>, which states the documented
  behaviour of those commands; \<open>redis_mem\<close> is a server that has it. A script runs atomically; the
  call that carries it may fail before or after the script ran. The clock of the client is the
  server's.
\<close>

section \<open>The server\<close>

record 'r redis_srv =
  rs_GET :: "int \<Rightarrow> string \<Rightarrow> 'r \<Rightarrow> string option"
  rs_SET_PX :: "int \<Rightarrow> string \<Rightarrow> string \<Rightarrow> int \<Rightarrow> 'r \<Rightarrow> 'r"
  rs_SET_NX_PX :: "int \<Rightarrow> string \<Rightarrow> string \<Rightarrow> int \<Rightarrow> 'r \<Rightarrow> bool \<times> 'r"
  rs_DEL :: "int \<Rightarrow> string list \<Rightarrow> 'r \<Rightarrow> int \<times> 'r"
  rs_EXPIRE :: "int \<Rightarrow> string \<Rightarrow> int \<Rightarrow> 'r \<Rightarrow> 'r"
  rs_INCR :: "int \<Rightarrow> string \<Rightarrow> 'r \<Rightarrow> int \<times> 'r"
  rs_PTTL :: "int \<Rightarrow> string \<Rightarrow> 'r \<Rightarrow> int"

text \<open>Documented behaviour of the commands, for keys that expire.\<close>

definition redis_ok :: "'r redis_srv \<Rightarrow> bool" where
  "redis_ok R \<longleftrightarrow>
     (\<forall>now k v px r t. 0 < px \<longrightarrow> now \<le> t \<longrightarrow>
        rs_GET R t k (rs_SET_PX R now k v px r) = (if t < now + px then Some v else None) \<and>
        (t < now + px \<longrightarrow> rs_PTTL R t k (rs_SET_PX R now k v px r) = now + px - t)) \<and>
     (\<forall>now k v px r t. rs_GET R t k (rs_SET_PX R now k v px r) \<in> {None, Some v}) \<and>
     (\<forall>now k v px r. rs_SET_NX_PX R now k v px r =
        (if rs_GET R now k r = None then (True, rs_SET_PX R now k v px r) else (False, r))) \<and>
     (\<forall>now ks k r t. rs_GET R t k (snd (rs_DEL R now ks r)) = (if k \<in> set ks then None else rs_GET R t k r) \<and>
        fst (rs_DEL R now ks r) \<ge> 0) \<and>
     (\<forall>now k r n. rs_GET R now k r = None \<or> rs_GET R now k r = Some (show_nat n) \<longrightarrow>
        (\<exists>m. fst (rs_INCR R now k r) = int (Suc m) \<and> (\<forall>t. rs_GET R t k (snd (rs_INCR R now k r))
           \<in> {None, Some (show_nat (Suc m)), rs_GET R t k r}))) \<and>
     (\<forall>now k s r t. rs_GET R t k (rs_EXPIRE R now k s r) \<in> {None, rs_GET R now k r, rs_GET R t k r}) \<and>
     (\<forall>now k k' v px s r t. k' \<noteq> k \<longrightarrow>
        rs_GET R t k' (rs_SET_PX R now k v px r) = rs_GET R t k' r \<and>
        rs_GET R t k' (rs_EXPIRE R now k s r) = rs_GET R t k' r \<and>
        rs_GET R t k' (snd (rs_INCR R now k r)) = rs_GET R t k' r \<and>
        rs_PTTL R t k' (rs_SET_PX R now k v px r) = rs_PTTL R t k' r \<and>
        rs_PTTL R t k' (rs_EXPIRE R now k s r) = rs_PTTL R t k' r \<and>
        rs_PTTL R t k' (snd (rs_INCR R now k r)) = rs_PTTL R t k' r)"

section \<open>The lock\<close>

definition Milliseconds :: "int \<Rightarrow> int" where
  "Milliseconds d = (if d < 0 then - ((- d) div 1000000) else d div 1000000)"

definition NewDistributedRedisLock :: "string \<Rightarrow> string \<Rightarrow> int \<Rightarrow> base_lock" where
  "NewDistributedRedisLock resource uuid ttl = new_base_lock resource uuid ttl"

definition extendedCountKey :: "base_lock \<Rightarrow> string" where
  "extendedCountKey l = bl_resource l @ ''::'' @ bl_id l @ ''::extended_count''"

text \<open>The scripts; \<open>k1\<close> and \<open>k2\<close> are KEYS, \<open>a1\<close> and \<open>a2\<close> are ARGV.\<close>

definition setNXAndExtendedCountScript ::
    "'r redis_srv \<Rightarrow> int \<Rightarrow> string \<Rightarrow> string \<Rightarrow> string \<Rightarrow> int \<Rightarrow> 'r \<Rightarrow> int \<times> 'r" where
  "setNXAndExtendedCountScript R now k1 k2 a1 a2 r =
     (let (set, r1) = rs_SET_NX_PX R now k1 a1 a2 r
      in if set then (1, rs_SET_PX R now k2 ''0'' a2 r1) else (0, r1))"

definition deleteKeysScript ::
    "'r redis_srv \<Rightarrow> int \<Rightarrow> string \<Rightarrow> string \<Rightarrow> string \<Rightarrow> 'r \<Rightarrow> int \<times> 'r" where
  "deleteKeysScript R now k1 k2 a1 r =
     (if rs_GET R now k1 r = Some a1 then rs_DEL R now [k1, k2] r else (0, r))"

definition extendSetsAndIncrExtendedCountScript ::
    "'r redis_srv \<Rightarrow> int \<Rightarrow> string \<Rightarrow> string \<Rightarrow> string \<Rightarrow> int \<Rightarrow> 'r \<Rightarrow> int \<times> 'r" where
  "extendSetsAndIncrExtendedCountScript R now k1 k2 a1 a2 r =
     (if rs_GET R now k1 r = Some a1
      then rs_INCR R now k2 (rs_EXPIRE R now k2 a2 (rs_SET_PX R now k1 a1 a2 r))
      else (0, r))"

text \<open>\<^verbatim>\<open>rdb.Eval\<close>: the answer of the script, or an error after which it may have run.\<close>

fun Eval :: "net \<Rightarrow> ('r \<Rightarrow> int \<times> 'r) \<Rightarrow> 'r \<Rightarrow> (lock_err + int) \<times> 'r" where
  "Eval Delivered script r = (let (n, r') = script r in (Inr n, r'))"
| "Eval (NotSent e) script r = (Inl (ErrServer e), r)"
| "Eval (AnswerLost e) script r = (Inl (ErrServer e), snd (script r))"

text \<open>The methods; \<open>now2\<close> is the later instant of the second call that asks for the time to live.\<close>

definition redis_TryLock ::
    "'r redis_srv \<Rightarrow> net \<Rightarrow> int \<Rightarrow> int \<Rightarrow> base_lock \<Rightarrow> 'r \<Rightarrow> (lock_err + bool) \<times> base_lock \<times> 'r" where
  "redis_TryLock R f now now2 l r =
     (let (ans, r1) = Eval f (setNXAndExtendedCountScript R now (bl_resource l) (extendedCountKey l)
                                (bl_id l) (Milliseconds (bl_ttl l))) r
      in case ans of
           Inl e \<Rightarrow> (Inl e, l, r1)
         | Inr n \<Rightarrow>
             if n \<noteq> 0 then
               (Inr True, l\<lparr>bl_extendedCount := 0,
                            bl_expiration := Some (now2 + rs_PTTL R now2 (bl_resource l) r1)\<rparr>, r1)
             else (Inr False, l, r1))"

definition redis_Unlock ::
    "'r redis_srv \<Rightarrow> net \<Rightarrow> int \<Rightarrow> base_lock \<Rightarrow> 'r \<Rightarrow> lock_err option \<times> base_lock \<times> 'r" where
  "redis_Unlock R f now l r =
     (let (ans, r1) = Eval f (deleteKeysScript R now (bl_resource l) (extendedCountKey l) (bl_id l)) r
      in case ans of Inl e \<Rightarrow> (Some e, l, r1) | Inr n \<Rightarrow> (None, forget l, r1))"

definition redis_Extend ::
    "'r redis_srv \<Rightarrow> net \<Rightarrow> int \<Rightarrow> int \<Rightarrow> base_lock \<Rightarrow> 'r \<Rightarrow> (lock_err + bool) \<times> base_lock \<times> 'r" where
  "redis_Extend R f now now2 l r =
     (let (ans, r1) = Eval f (extendSetsAndIncrExtendedCountScript R now (bl_resource l) (extendedCountKey l)
                                (bl_id l) (Milliseconds (bl_ttl l))) r
      in case ans of
           Inl e \<Rightarrow> (Inl e, l, r1)
         | Inr n \<Rightarrow>
             if n \<noteq> 0 then
               (Inr True, l\<lparr>bl_extendedCount := n,
                            bl_expiration := Some (now2 + rs_PTTL R now2 (bl_resource l) r1)\<rparr>, r1)
             else (Inr False, l\<lparr>bl_expiration := None, bl_extendedCount := 0\<rparr>, r1))"

text \<open>\<open>Lock\<close>: try, then sleep with jitter, until the lock is held or a call fails. One list entry is one
  round: the network, the instants, what the rest of the world did before it, the random number, and
  the error with which the sleep ended. The result is \<open>None\<close> while the caller still waits.\<close>

fun redis_Lock ::
    "'r redis_srv \<Rightarrow> (net \<times> int \<times> int \<times> ('r \<Rightarrow> 'r) \<times> lock_err option) list \<Rightarrow> base_lock \<Rightarrow> 'r \<Rightarrow>
     (lock_err option \<times> base_lock \<times> 'r) go option" where
  "redis_Lock R [] l r = None"
| "redis_Lock R ((f, now, now2, env, sleepErr) # rounds) l r =
     (case redis_TryLock R f now now2 l (env r) of
        (Inl e, l1, r1) \<Rightarrow> Some (Ret (Some e, l1, r1))
      | (Inr True, l1, r1) \<Rightarrow> Some (Ret (None, l1, r1))
      | (Inr False, l1, r1) \<Rightarrow>
          if bl_ttl l div 10 \<le> 0 then Some (Panic ''invalid argument to Int63n'')
          else (case sleepErr of
                  Some e \<Rightarrow> Some (Ret (Some e, l1, r1))
                | None \<Rightarrow> redis_Lock R rounds l1 r1))"

section \<open>A server with the documented behaviour\<close>

text \<open>Keys with a value and, unless they never expire, the instant at which they do.\<close>

type_synonym redis_db = "string \<Rightarrow> (string \<times> int option) option"

definition live :: "int \<Rightarrow> (string \<times> int option) option \<Rightarrow> string option" where
  "live t x = (case x of None \<Rightarrow> None | Some (v, None) \<Rightarrow> Some v | Some (v, Some d) \<Rightarrow> if t < d then Some v else None)"

definition read_nat :: "string \<Rightarrow> nat" where
  "read_nat s = fold (\<lambda>c n. 10 * n + (of_char c - 48)) s 0"

definition redis_mem :: "redis_db redis_srv" where
  "redis_mem = \<lparr>
     rs_GET = \<lambda>t k r. live t (r k),
     rs_SET_PX = \<lambda>now k v px r. r(k \<mapsto> (v, Some (now + px))),
     rs_SET_NX_PX = \<lambda>now k v px r. if live now (r k) = None then (True, r(k \<mapsto> (v, Some (now + px)))) else (False, r),
     rs_DEL = \<lambda>now ks r. (int (length (List.filter (\<lambda>k. live now (r k) \<noteq> None) ks)), \<lambda>k. if k \<in> set ks then None else r k),
     rs_EXPIRE = \<lambda>now k s r. (case r k of
          Some (v, d) \<Rightarrow> if live now (r k) = None then r else r(k \<mapsto> (v, Some (now + 1000 * s))) | None \<Rightarrow> r),
     rs_INCR = \<lambda>now k r. (case live now (r k) of
          None \<Rightarrow> (1, r(k \<mapsto> (show_nat 1, None)))
        | Some v \<Rightarrow> (int (Suc (read_nat v)), r(k \<mapsto> (show_nat (Suc (read_nat v)), snd (the (r k)))))),
     rs_PTTL = \<lambda>t k r. (case r k of Some (v, Some d) \<Rightarrow> if t < d then d - t else -2 | Some (v, None) \<Rightarrow> -1 | None \<Rightarrow> -2)\<rparr>"

lemma redis_mem_ok: "redis_ok redis_mem"
  unfolding redis_ok_def
proof (intro conjI allI impI, goal_cases)
  case (7 now k r n)
  show ?case
  proof (cases "live now (r k)")
    case None
    then show ?thesis by (intro exI[of _ 0]) (auto simp: redis_mem_def live_def)
  next
    case (Some v)
    then obtain d where "r k = Some (v, d)" by (auto simp: live_def split: option.splits if_splits)
    then show ?thesis using Some
      by (intro exI[of _ "read_nat v"]) (auto simp: redis_mem_def live_def split: option.splits)
  qed
qed (auto simp: redis_mem_def live_def split: option.splits if_splits)

section \<open>The Redis lock is a lease lock\<close>

lemma redis_laws:
  assumes "redis_ok R"
  shows get_set: "0 < px \<Longrightarrow> now \<le> t \<Longrightarrow> rs_GET R t k (rs_SET_PX R now k v px r) = (if t < now + px then Some v else None)"
    and pttl_set: "0 < px \<Longrightarrow> now \<le> t \<Longrightarrow> t < now + px \<Longrightarrow> rs_PTTL R t k (rs_SET_PX R now k v px r) = now + px - t"
    and get_set_any: "rs_GET R t k (rs_SET_PX R now k v px r) \<in> {None, Some v}"
    and set_nx: "rs_SET_NX_PX R now k v px r =
        (if rs_GET R now k r = None then (True, rs_SET_PX R now k v px r) else (False, r))"
    and get_del: "rs_GET R t k (snd (rs_DEL R now ks r)) = (if k \<in> set ks then None else rs_GET R t k r)"
    and incr: "rs_GET R now k r = None \<or> rs_GET R now k r = Some (show_nat n) \<Longrightarrow>
        \<exists>m. fst (rs_INCR R now k r) = int (Suc m) \<and>
          (\<forall>t. rs_GET R t k (snd (rs_INCR R now k r)) \<in> {None, Some (show_nat (Suc m)), rs_GET R t k r})"
    and get_expire: "rs_GET R t k (rs_EXPIRE R now k s r) \<in> {None, rs_GET R now k r, rs_GET R t k r}"
    and other: "k' \<noteq> k \<Longrightarrow> rs_GET R t k' (rs_SET_PX R now k v px r) = rs_GET R t k' r"
      "k' \<noteq> k \<Longrightarrow> rs_GET R t k' (rs_EXPIRE R now k s r) = rs_GET R t k' r"
      "k' \<noteq> k \<Longrightarrow> rs_GET R t k' (snd (rs_INCR R now k r)) = rs_GET R t k' r"
      "k' \<noteq> k \<Longrightarrow> rs_PTTL R t k' (rs_SET_PX R now k v px r) = rs_PTTL R t k' r"
      "k' \<noteq> k \<Longrightarrow> rs_PTTL R t k' (rs_EXPIRE R now k s r) = rs_PTTL R t k' r"
      "k' \<noteq> k \<Longrightarrow> rs_PTTL R t k' (snd (rs_INCR R now k r)) = rs_PTTL R t k' r"
  using assms unfolding redis_ok_def by (blast | simp)+

text \<open>The lock objects of all clients of one resource, and the server.\<close>

type_synonym 'r redis_world = "(string \<Rightarrow> base_lock) \<times> 'r"

fun redis_call ::
    "'r redis_srv \<Rightarrow> int \<Rightarrow> string \<Rightarrow> lease_op \<Rightarrow> net \<times> int \<Rightarrow> 'r redis_world \<Rightarrow> (lock_err + bool) \<times> 'r redis_world" where
  "redis_call R now i OpTry (f, now2) (L, r) =
     (let (a, l, r') = redis_TryLock R f now now2 (L i) r in (a, L(i := l), r'))"
| "redis_call R now i OpUnlock (f, now2) (L, r) =
     (let (e, l, r') = redis_Unlock R f now (L i) r
      in (case e of None \<Rightarrow> Inr True | Some x \<Rightarrow> Inl x, L(i := l), r'))"
| "redis_call R now i OpExtend (f, now2) (L, r) =
     (let (a, l, r') = redis_Extend R f now now2 (L i) r in (a, L(i := l), r'))"

text \<open>The counters on the server are decimal numbers, and the fields of the lock objects are as made.\<close>

definition counter_ok :: "'r redis_srv \<Rightarrow> string \<Rightarrow> 'r \<Rightarrow> bool" where
  "counter_ok R k r \<longleftrightarrow> (\<forall>t. rs_GET R t k r = None \<or> (\<exists>n. rs_GET R t k r = Some (show_nat n)))"

definition redis_inv :: "'r redis_srv \<Rightarrow> string \<Rightarrow> (string \<Rightarrow> int) \<Rightarrow> 'r redis_world \<Rightarrow> bool" where
  "redis_inv R res ttl w \<longleftrightarrow> redis_ok R \<and>
     (\<forall>i. bl_resource (fst w i) = res \<and> bl_id (fst w i) = i \<and> bl_ttl (fst w i) = ttl i \<and>
          0 < Milliseconds (ttl i) \<and> counter_ok R (extendedCountKey (fst w i)) (snd w))"

lemma key_res: "extendedCountKey l \<noteq> bl_resource l" "bl_resource l \<noteq> extendedCountKey l"
  by (auto simp: extendedCountKey_def)

lemma show_nat_0: "show_nat 0 = ''0''"
  by code_simp

text \<open>The commands of the scripts keep the counters decimal.\<close>

lemma counter_step:
  assumes ok: "redis_ok R" and c: "counter_ok R k r"
  shows "k \<noteq> k' \<or> v = ''0'' \<Longrightarrow> counter_ok R k (rs_SET_PX R now k' v px r)"
    and "counter_ok R k (rs_EXPIRE R now k' s r)"
    and "counter_ok R k (snd (rs_INCR R now k' r))"
    and "counter_ok R k (snd (rs_DEL R now ks r))"
proof -
  note laws = redis_laws[OF ok]
  show "counter_ok R k (rs_SET_PX R now k' v px r)" if "k \<noteq> k' \<or> v = ''0''"
    using that c laws(3)[of _ k now v px r] laws(8)[of k k']
    by (cases "k = k'") (auto simp: counter_ok_def show_nat_0[symmetric])
  show "counter_ok R k (rs_EXPIRE R now k' s r)"
    using c laws(7)[of _ k now s r] laws(9)[of k k']
    by (cases "k = k'") (auto simp: counter_ok_def, metis)
  show "counter_ok R k (snd (rs_DEL R now ks r))" using c laws(5) by (auto simp: counter_ok_def)
  show "counter_ok R k (snd (rs_INCR R now k' r))"
  proof (cases "k = k'")
    case True
    have "\<exists>n. rs_GET R now k r = None \<or> rs_GET R now k r = Some (show_nat n)" using c by (auto simp: counter_ok_def)
    then obtain m where "\<forall>t. rs_GET R t k (snd (rs_INCR R now k r)) \<in> {None, Some (show_nat (Suc m)), rs_GET R t k r}"
      using laws(6) by blast
    then show ?thesis using c True by (auto simp: counter_ok_def) metis
  qed (use c laws(10) in \<open>auto simp: counter_ok_def\<close>)
qed

text \<open>What the three scripts do to the holder of the resource.\<close>

lemma script_try:
  fixes R :: "'r redis_srv" and r :: 'r and now px :: int and a k1 k2 :: string
  assumes ok: "redis_ok R" and px: "0 < px" and k: "k1 \<noteq> k2"
  defines "out \<equiv> setNXAndExtendedCountScript R now k1 k2 a px r"
  shows "rs_GET R now k1 r \<noteq> None \<Longrightarrow> out = (0, r)"
    and "rs_GET R now k1 r = None \<Longrightarrow> fst out = 1 \<and>
      (\<forall>t \<ge> now. rs_GET R t k1 (snd out) = (if t < now + px then Some a else None)) \<and>
      (\<forall>t. now \<le> t \<and> t < now + px \<longrightarrow> rs_PTTL R t k1 (snd out) = now + px - t)"
  using redis_laws[OF ok] px k by (auto simp: out_def setNXAndExtendedCountScript_def)

lemma script_unlock:
  assumes ok: "redis_ok R"
  shows "rs_GET R now k1 r \<noteq> Some a \<Longrightarrow> deleteKeysScript R now k1 k2 a r = (0, r)"
    and "rs_GET R now k1 r = Some a \<Longrightarrow> rs_GET R t k1 (snd (deleteKeysScript R now k1 k2 a r)) = None"
  using redis_laws[OF ok] by (auto simp: deleteKeysScript_def)

lemma script_extend:
  fixes R :: "'r redis_srv" and r :: 'r and now px :: int and a k1 k2 :: string
  assumes ok: "redis_ok R" and px: "0 < px" and k: "k1 \<noteq> k2" and c: "counter_ok R k2 r"
  defines "out \<equiv> extendSetsAndIncrExtendedCountScript R now k1 k2 a px r"
  shows "rs_GET R now k1 r \<noteq> Some a \<Longrightarrow> out = (0, r)"
    and "rs_GET R now k1 r = Some a \<Longrightarrow> fst out > 0 \<and>
      (\<forall>t \<ge> now. rs_GET R t k1 (snd out) = (if t < now + px then Some a else None)) \<and>
      (\<forall>t. now \<le> t \<and> t < now + px \<longrightarrow> rs_PTTL R t k1 (snd out) = now + px - t)"
proof -
  note laws = redis_laws[OF ok]
  show "rs_GET R now k1 r \<noteq> Some a \<Longrightarrow> out = (0, r)" by (simp add: out_def extendSetsAndIncrExtendedCountScript_def)
  let ?r = "rs_EXPIRE R now k2 px (rs_SET_PX R now k1 a px r)"
  have "counter_ok R k2 ?r" using counter_step[OF ok] c k by (metis)
  then have "\<exists>n. rs_GET R now k2 ?r = None \<or> rs_GET R now k2 ?r = Some (show_nat n)" by (auto simp: counter_ok_def)
  then obtain m where "fst (rs_INCR R now k2 ?r) = int (Suc m)" using laws(6)[of now k2 ?r] by blast
  then have "fst (rs_INCR R now k2 ?r) > 0" by simp
  then show "rs_GET R now k1 r = Some a \<Longrightarrow> fst out > 0 \<and>
      (\<forall>t \<ge> now. rs_GET R t k1 (snd out) = (if t < now + px then Some a else None)) \<and>
      (\<forall>t. now \<le> t \<and> t < now + px \<longrightarrow> rs_PTTL R t k1 (snd out) = now + px - t)"
    using laws px k by (simp add: out_def extendSetsAndIncrExtendedCountScript_def)
qed

text \<open>The methods keep the counters and the fields of the lock objects.\<close>

lemma Eval_cases:
  "Eval f sc r = (x, r') \<Longrightarrow> (x = Inr (fst (sc r)) \<and> r' = snd (sc r)) \<or> (\<exists>e. x = Inl e \<and> (r' = r \<or> r' = snd (sc r)))"
  by (cases f) (auto split: prod.splits)

lemma script_counters:
  assumes "redis_ok R" "counter_ok R k r" "k \<noteq> k1"
  shows "counter_ok R k (snd (setNXAndExtendedCountScript R now k1 k2 a px r))"
    "counter_ok R k (snd (deleteKeysScript R now k1 k2 a r))"
    "counter_ok R k (snd (extendSetsAndIncrExtendedCountScript R now k1 k2 a px r))"
  using assms redis_laws(4)[OF assms(1)]
  by (auto simp: setNXAndExtendedCountScript_def deleteKeysScript_def extendSetsAndIncrExtendedCountScript_def
      intro!: counter_step)

lemma redis_call_fields:
  assumes "redis_call R t i op f (L, r) = (x, L', r')"
  shows "bl_resource (L' j) = bl_resource (L j)" "bl_id (L' j) = bl_id (L j)" "bl_ttl (L' j) = bl_ttl (L j)"
  using assms
  by (cases op; cases f; auto simp: redis_TryLock_def redis_Unlock_def redis_Extend_def forget_def Let_def
      split: prod.splits sum.splits if_splits)+

lemma extendedCountKey_cong:
  "bl_resource l = bl_resource l' \<Longrightarrow> bl_id l = bl_id l' \<Longrightarrow> extendedCountKey l = extendedCountKey l'"
  by (simp add: extendedCountKey_def)

text \<open>The state of the server after a call is unchanged or the one the script leaves; the answer is the
  script's.\<close>

lemma redis_call_try:
  assumes "redis_call R t i OpTry f (L, r) = (x, L', r')"
  defines "out \<equiv> setNXAndExtendedCountScript R t (bl_resource (L i)) (extendedCountKey (L i)) (bl_id (L i))
                   (Milliseconds (bl_ttl (L i))) r"
  shows "r' = r \<or> r' = snd out" "x = Inr True \<Longrightarrow> fst out \<noteq> 0 \<and> r' = snd out"
  using assms
  by (cases f; cases "fst f"; auto simp: redis_TryLock_def Let_def split: prod.splits sum.splits if_splits)+

lemma redis_call_extend:
  assumes "redis_call R t i OpExtend f (L, r) = (x, L', r')"
  defines "out \<equiv> extendSetsAndIncrExtendedCountScript R t (bl_resource (L i)) (extendedCountKey (L i)) (bl_id (L i))
                   (Milliseconds (bl_ttl (L i))) r"
  shows "r' = r \<or> r' = snd out" "x = Inr True \<Longrightarrow> fst out \<noteq> 0 \<and> r' = snd out"
  using assms
  by (cases f; cases "fst f"; auto simp: redis_Extend_def Let_def split: prod.splits sum.splits if_splits)+

lemma redis_call_unlock:
  assumes "redis_call R t i OpUnlock f (L, r) = (x, L', r')"
  shows "r' = r \<or> r' = snd (deleteKeysScript R t (bl_resource (L i)) (extendedCountKey (L i)) (bl_id (L i)) r)"
  using assms
  by (cases f; cases "fst f"; auto simp: redis_Unlock_def Let_def split: prod.splits sum.splits if_splits)

lemma redis_call_inv:
  assumes inv: "redis_inv R res ttl (L, r)" and c: "redis_call R t i op f (L, r) = (x, L', r')"
  shows "redis_inv R res ttl (L', r')"
proof -
  have ok: "redis_ok R" using inv by (simp add: redis_inv_def)
  note fl = redis_call_fields[OF c]
  have "counter_ok R (extendedCountKey (L j)) r'" for j
  proof -
    have cj: "counter_ok R (extendedCountKey (L j)) r" and k: "extendedCountKey (L j) \<noteq> bl_resource (L i)"
      using inv key_res[of "L j"] by (auto simp: redis_inv_def)
    note sc = script_counters[OF ok cj k]
    show ?thesis
      using c cj sc redis_call_try[of R t i f L r x L' r'] redis_call_extend[of R t i f L r x L' r']
        redis_call_unlock[of R t i f L r x L' r'] by (cases op) metis+
  qed
  moreover have "extendedCountKey (L' j) = extendedCountKey (L j)" for j
    using fl by (intro extendedCountKey_cong) auto
  ultimately show ?thesis using inv fl by (simp add: redis_inv_def)
qed

interpretation redis_lease: lease_lock "redis_inv R res ttl" "\<lambda>t w. rs_GET R t res (snd w)"
    "\<lambda>i. Milliseconds (ttl i)" "redis_call R"
proof unfold_locales
  fix w w' :: "'a redis_world" and t i op f x
  assume "redis_inv R res ttl w" "redis_call R t i op f w = (x, w')"
  then show "redis_inv R res ttl w'" using redis_call_inv by (cases w; cases w') simp
next
  fix w w' :: "'a redis_world" and t j i f x
  assume inv: "redis_inv R res ttl w" and h: "rs_GET R t res (snd w) = Some j" and c: "redis_call R t i OpTry f w = (x, w')"
  obtain L r L' r' where w: "w = (L, r)" "w' = (L', r')" by (cases w; cases w')
  have ok: "redis_ok R" "bl_resource (L i) = res" "0 < Milliseconds (bl_ttl (L i))"
    using inv w by (auto simp: redis_inv_def)
  then show "x \<noteq> Inr True"
    using redis_call_try(2)[of R t i f L r x L' r'] script_try(1)[OF ok(1,3), of res "extendedCountKey (L i)" t r] h c w
      key_res[of "L i"] by auto
next
  fix w w' :: "'a redis_world" and t j i op f x u
  assume inv: "redis_inv R res ttl w" and h: "rs_GET R t res (snd w) = Some j" and c: "redis_call R t i op f w = (x, w')"
    and d: "i \<noteq> j \<or> op = OpTry"
  obtain L r L' r' where w: "w = (L, r)" "w' = (L', r')" by (cases w; cases w')
  have ok: "redis_ok R" "bl_resource (L i) = res" "bl_id (L i) = i" "0 < Milliseconds (bl_ttl (L i))"
    "counter_ok R (extendedCountKey (L i)) r"
    using inv w by (auto simp: redis_inv_def)
  have "r' = r"
    using script_try(1)[OF ok(1,4), of res "extendedCountKey (L i)" t r i]
      script_extend(1)[OF ok(1,4) _ ok(5), of res t i] script_unlock(1)[OF ok(1), of t res r i "extendedCountKey (L i)"]
      redis_call_try(1)[of R t i f L r x L' r'] redis_call_extend(1)[of R t i f L r x L' r']
      redis_call_unlock[of R t i f L r x L' r'] h c w d key_res[of "L i"] ok(2,3) by (cases op) auto
  then show "rs_GET R u res (snd w') = rs_GET R u res (snd w)" using w by simp
next
  fix w w' :: "'a redis_world" and t i op f u
  assume inv: "redis_inv R res ttl w" and c: "redis_call R t i op f w = (Inr True, w')" and op: "op \<noteq> OpUnlock"
    and u: "t \<le> u" "u < t + Milliseconds (ttl i)"
  obtain L r L' r' where w: "w = (L, r)" "w' = (L', r')" by (cases w; cases w')
  have ok: "redis_ok R" "bl_resource (L i) = res" "bl_id (L i) = i" "0 < Milliseconds (bl_ttl (L i))"
    "counter_ok R (extendedCountKey (L i)) r" "bl_ttl (L i) = ttl i"
    using inv w by (auto simp: redis_inv_def)
  show "rs_GET R u res (snd w') = Some i"
    using script_try[OF ok(1,4), of res "extendedCountKey (L i)" t r i]
      script_extend[OF ok(1,4) _ ok(5), of res t i]
      redis_call_try(2)[of R t i f L r "Inr True" L' r'] redis_call_extend(2)[of R t i f L r "Inr True" L' r']
      c w key_res[of "L i"] ok(2,3,6) op u
    by (cases op; cases "rs_GET R t res r = None"; cases "rs_GET R t res r = Some i") auto
next
  fix w w' :: "'a redis_world" and t i f x
  assume inv: "redis_inv R res ttl w" and h: "rs_GET R t res (snd w) = Some i" and c: "redis_call R t i OpExtend f w = (x, w')"
  obtain L r L' r' where w: "w = (L, r)" "w' = (L', r')" by (cases w; cases w')
  have ok: "redis_ok R" "bl_resource (L i) = res" "bl_id (L i) = i" "0 < Milliseconds (bl_ttl (L i))"
    "counter_ok R (extendedCountKey (L i)) r" "bl_ttl (L i) = ttl i"
    using inv w by (auto simp: redis_inv_def)
  show "(\<forall>u \<ge> t. rs_GET R u res (snd w') = rs_GET R u res (snd w)) \<or>
      (\<forall>u. t \<le> u \<and> u < t + Milliseconds (ttl i) \<longrightarrow> rs_GET R u res (snd w') = Some i)"
    using script_extend(2)[OF ok(1,4) _ ok(5), of res t i]
      redis_call_extend(1)[of R t i f L r x L' r'] c w key_res[of "L i"] ok(2,3,6) h by auto
qed

text \<open>C4. Two clients of a Redis lock never hold a resource at once: after a client was told that it
  acquired or extended the lock, no client is told that it acquired it before the time to live has
  passed, unless the first one unlocked; whatever calls were lost in between.\<close>

theorem redis_lock_exclusive:
  assumes "redis_ok R" and "\<forall>i. 0 < Milliseconds (ttl i)"
    and "L = (\<lambda>i. NewDistributedRedisLock res i (ttl i))" and "\<forall>t i. rs_GET R t (extendedCountKey (L i)) r = None"
    and "timed now (pre @ (t, i, op, f) # mid @ (t', j, OpTry, f') # post)"
    and "lease_run (redis_call R) (pre @ (t, i, op, f) # mid @ (t', j, OpTry, f') # post) (L, r) = (rs, w)"
    and "rs ! length pre = Inr True" "op \<noteq> OpUnlock" "t' < t + Milliseconds (ttl i)" "\<not> unlocked_by i mid"
  shows "rs ! (length pre + 1 + length mid) \<noteq> Inr True"
proof -
  have "redis_inv R res ttl (L, r)"
    using assms(1-4) by (simp add: redis_inv_def counter_ok_def NewDistributedRedisLock_def new_base_lock_def)
  from redis_lease.mutual_exclusion[OF this assms(5-)] show ?thesis .
qed

theorem redis_lock_exclusive_witness:
  "let L = (\<lambda>i. NewDistributedRedisLock ''job'' i 5000000); d = (Delivered, 3);
       evs = [(0, ''a'', OpTry, d), (2, ''b'', OpExtend, d), (4, ''b'', OpTry, d)]
   in fst (lease_run (redis_call redis_mem) evs (L, \<lambda>_. None)) = [Inr True, Inr False, Inr False]"
proof -
  let ?L = "\<lambda>i. NewDistributedRedisLock ''job'' i 5000000" and ?d = "(Delivered, 3)"
  let ?evs = "[] @ (0, ''a'', OpTry, ?d) # [(2, ''b'', OpExtend, ?d)] @ (4, ''b'', OpTry, ?d) # []"
  obtain rs w where r: "lease_run (redis_call redis_mem) ?evs (?L, \<lambda>_. None) = (rs, w)" using prod.exhaust by blast
  have e: "\<forall>t i. rs_GET redis_mem t (extendedCountKey (?L i)) (\<lambda>_. None) = None"
    by (simp add: redis_mem_def live_def)
  have rs: "rs ! length [] = Inr True" "rs ! 1 = Inr False" "\<exists>b. rs ! 2 = Inr b" "length rs = 3"
    using r by (auto simp: redis_mem_def live_def redis_TryLock_def redis_Extend_def setNXAndExtendedCountScript_def
        extendSetsAndIncrExtendedCountScript_def NewDistributedRedisLock_def new_base_lock_def Milliseconds_def
        extendedCountKey_def Let_def)
  have "timed 0 ?evs" by simp
  from redis_lock_exclusive[OF redis_mem_ok _ refl e this r] have "rs ! 2 \<noteq> Inr True"
    using rs by (simp add: Milliseconds_def numeral_2_eq_2)
  then have "rs = [Inr True, Inr False, Inr False]"
    using rs by (intro nth_equalityI) (auto simp: less_Suc_eq numeral_eq_Suc)
  then show ?thesis using r by (simp add: Let_def del: lease_run.simps)
qed

text \<open>After a successful \<open>TryLock\<close> or \<open>Extend\<close> the expiration that the lock object reports is the
  instant at which the server drops the key, and until then the server names this client.\<close>

lemma redis_expiration_is_servers:
  assumes "redis_ok R" "0 < Milliseconds (bl_ttl l)" "counter_ok R (extendedCountKey l) r"
    and "now \<le> now2" "now2 < now + Milliseconds (bl_ttl l)"
    and "redis_TryLock R f now now2 l r = (Inr True, l', r') \<or> redis_Extend R f now now2 l r = (Inr True, l', r')"
  shows "Expiration l' = Some (now + Milliseconds (bl_ttl l)) \<and>
     (\<forall>t \<ge> now. rs_GET R t (bl_resource l) r' = (if t < now + Milliseconds (bl_ttl l) then Some (bl_id l) else None))"
proof -
  have later: "now + Milliseconds (bl_ttl l) \<le> t \<Longrightarrow> now \<le> t" for t using assms(2) by simp
  show ?thesis
  proof (cases "redis_TryLock R f now now2 l r = (Inr True, l', r')")
    case True
    then show ?thesis
      using later script_try[OF assms(1,2), of "bl_resource l" "extendedCountKey l" now r "bl_id l"] assms(4,5) key_res[of l]
      by (cases f; cases "rs_GET R now (bl_resource l) r = None")
        (auto simp: redis_TryLock_def Expiration_def Let_def not_less split: prod.splits if_splits)
  next
    case False
    then have e: "redis_Extend R f now now2 l r = (Inr True, l', r')" using assms(6) by blast
    then show ?thesis
      using later script_extend[OF assms(1,2) _ assms(3), of "bl_resource l" now "bl_id l"] assms(4,5) key_res[of l]
      by (cases f; cases "rs_GET R now (bl_resource l) r = Some (bl_id l)")
        (auto simp: redis_Extend_def Expiration_def Let_def not_less split: prod.splits if_splits)
  qed
qed

lemma redis_expiration_is_servers_witness:
  "\<exists>l' r'. redis_TryLock redis_mem Delivered 7 9 (NewDistributedRedisLock ''job'' ''a'' 5000000) (\<lambda>_. None) = (Inr True, l', r') \<and>
     Expiration l' = Some 12"
proof -
  let ?l = "NewDistributedRedisLock ''job'' ''a'' 5000000"
  obtain l' r' where t: "redis_TryLock redis_mem Delivered 7 9 ?l (\<lambda>_. None) = (Inr True, l', r')"
    by (auto simp: redis_mem_def live_def redis_TryLock_def setNXAndExtendedCountScript_def
        NewDistributedRedisLock_def new_base_lock_def Milliseconds_def extendedCountKey_def Let_def)
  have ttl: "Milliseconds (bl_ttl ?l) = 5" by (simp add: NewDistributedRedisLock_def new_base_lock_def Milliseconds_def)
  have "counter_ok redis_mem (extendedCountKey ?l) (\<lambda>_. None)" by (simp add: counter_ok_def redis_mem_def live_def)
  from redis_expiration_is_servers[OF redis_mem_ok _ this _ _ disjI1[OF t]] show ?thesis using t ttl by auto
qed

end
