(* ===== verification/PostgresLock.thy ===== *)
theory PostgresLock
  imports LeaseLock
begin

text \<open>
  File \<^verbatim>\<open>distributedlock_postgres.go\<close>. The database is a parameter: reading and writing the row
  of a resource in the table \<^verbatim>\<open>distributed_lock.lock\<close>, whose primary key is the resource. The SQL
  statements are translated over it, with \<^verbatim>\<open>now()\<close> as an argument; \<open>pg_ok\<close> says that a row reads
  back as written. \<^verbatim>\<open>TryLock\<close> is modelled outside a surrounding transaction: it commits at its end, and
  every failure rolls its statements back, except that the answer of the commit may be lost.
\<close>

section \<open>The table\<close>

record lock_row =
  lr_instance_id :: string
  lr_expiration :: int
  lr_extended_count :: int

record 's pg =
  pg_get :: "string \<Rightarrow> 's \<Rightarrow> lock_row option"
  pg_put :: "string \<Rightarrow> lock_row \<Rightarrow> 's \<Rightarrow> 's"

definition pg_ok :: "'s pg \<Rightarrow> bool" where
  "pg_ok P \<longleftrightarrow> (\<forall>k v s. pg_get P k (pg_put P k v s) = Some v) \<and>
     (\<forall>k k' v s. k' \<noteq> k \<longrightarrow> pg_get P k' (pg_put P k v s) = pg_get P k' s)"

section \<open>The statements\<close>

text \<open>\<^verbatim>\<open>SELECT instance_id ... FOR UPDATE\<close> scanned into a string that starts empty.\<close>

definition select_instance :: "'s pg \<Rightarrow> string \<Rightarrow> 's \<Rightarrow> string" where
  "select_instance P res s = (case pg_get P res s of None \<Rightarrow> [] | Some r \<Rightarrow> lr_instance_id r)"

text \<open>The take-over of an expired lock, and the insertion of a new one; the result is the returned
  expiration, if a row was written.\<close>

definition update_expired :: "'s pg \<Rightarrow> int \<Rightarrow> base_lock \<Rightarrow> string \<Rightarrow> 's \<Rightarrow> int option \<times> 's" where
  "update_expired P now l cur s =
     (case pg_get P (bl_resource l) s of
        Some r \<Rightarrow>
          if lr_instance_id r = cur \<and> lr_expiration r < now then
            (Some (now + bl_ttl l),
             pg_put P (bl_resource l) (r\<lparr>lr_instance_id := bl_id l, lr_expiration := now + bl_ttl l\<rparr>) s)
          else (None, s)
      | None \<Rightarrow> (None, s))"

definition insert_lock :: "'s pg \<Rightarrow> int \<Rightarrow> base_lock \<Rightarrow> 's \<Rightarrow> int option \<times> 's" where
  "insert_lock P now l s =
     (case pg_get P (bl_resource l) s of
        Some r \<Rightarrow> (None, s)
      | None \<Rightarrow>
          (Some (now + bl_ttl l),
           pg_put P (bl_resource l)
             \<lparr>lr_instance_id = bl_id l, lr_expiration = now + bl_ttl l, lr_extended_count = 0\<rparr> s))"

definition write_lock :: "'s pg \<Rightarrow> int \<Rightarrow> base_lock \<Rightarrow> string \<Rightarrow> 's \<Rightarrow> int option \<times> 's" where
  "write_lock P now l cur s = (if cur \<noteq> [] then update_expired P now l cur s else insert_lock P now l s)"

definition expire_own :: "'s pg \<Rightarrow> int \<Rightarrow> base_lock \<Rightarrow> 's \<Rightarrow> 's" where
  "expire_own P now l s =
     (case pg_get P (bl_resource l) s of
        Some r \<Rightarrow>
          if lr_instance_id r = bl_id l \<and> lr_expiration r > now
          then pg_put P (bl_resource l) (r\<lparr>lr_expiration := now\<rparr>) s else s
      | None \<Rightarrow> s)"

definition extend_own :: "'s pg \<Rightarrow> int \<Rightarrow> base_lock \<Rightarrow> 's \<Rightarrow> (int \<times> int) option \<times> 's" where
  "extend_own P now l s =
     (case pg_get P (bl_resource l) s of
        Some r \<Rightarrow>
          if lr_instance_id r = bl_id l \<and> lr_expiration r > now then
            (Some (now + bl_ttl l, lr_extended_count r + 1),
             pg_put P (bl_resource l)
               (r\<lparr>lr_expiration := now + bl_ttl l, lr_extended_count := lr_extended_count r + 1\<rparr>) s)
          else (None, s)
      | None \<Rightarrow> (None, s))"

section \<open>The methods\<close>

definition NewDistributedPostgresLock :: "string \<Rightarrow> string \<Rightarrow> int \<Rightarrow> base_lock" where
  "NewDistributedPostgresLock resource uuid ttl = new_base_lock resource uuid ttl"

text \<open>What the database does to the calls of one method: the outcome of \<^verbatim>\<open>setupDB\<close>, where a race of two
  instances makes it roll back and begin again, and errors of the statements and of the commit.\<close>

datatype setup_outcome = SetupDone | SetupRaced "lock_err option" | SetupFailed lock_err

record pg_faults =
  pf_setup :: setup_outcome
  pf_select :: "lock_err option"
  pf_write :: "lock_err option"
  pf_commit :: net

definition commit_tx :: "net \<Rightarrow> 's \<Rightarrow> 's \<Rightarrow> lock_err option \<times> 's" where
  "commit_tx c before after =
     (case c of Delivered \<Rightarrow> (None, after)
      | NotSent e \<Rightarrow> (Some (ErrServer e), before)
      | AnswerLost e \<Rightarrow> (Some (ErrServer e), after))"

definition pg_TryLock ::
    "'s pg \<Rightarrow> pg_faults \<Rightarrow> int \<Rightarrow> base_lock \<Rightarrow> 's \<Rightarrow> bool \<times> lock_err option \<times> base_lock \<times> 's" where
  "pg_TryLock P f now l s =
     (case pf_setup f of
        SetupFailed e \<Rightarrow> (False, Some e, l, s)
      | SetupRaced (Some e) \<Rightarrow> (False, Some e, l, s)
      | _ \<Rightarrow>
          (case pf_select f of
             Some e \<Rightarrow> (False, Some e, l, s)
           | None \<Rightarrow>
               (case pf_write f of
                  Some e \<Rightarrow> (False, Some e, l, s)
                | None \<Rightarrow>
                    let (until, s1) = write_lock P now l (select_instance P (bl_resource l) s) s;
                        (err, s2) = commit_tx (pf_commit f) s s1
                    in (case until of
                          Some u \<Rightarrow> (True, err, l\<lparr>bl_expiration := Some u\<rparr>, s2)
                        | None \<Rightarrow> (False, err, l, s2)))))"

definition pg_Unlock :: "'s pg \<Rightarrow> net \<Rightarrow> int \<Rightarrow> base_lock \<Rightarrow> 's \<Rightarrow> lock_err option \<times> base_lock \<times> 's" where
  "pg_Unlock P f now l s =
     (let (err, s1) = commit_tx f s (expire_own P now l s)
      in (case err of Some e \<Rightarrow> (Some e, l, s1) | None \<Rightarrow> (None, forget l, s1)))"

definition pg_Extend ::
    "'s pg \<Rightarrow> net \<Rightarrow> int \<Rightarrow> base_lock \<Rightarrow> 's \<Rightarrow> (lock_err + bool) \<times> base_lock \<times> 's" where
  "pg_Extend P f now l s =
     (let (row, s') = extend_own P now l s; (err, s1) = commit_tx f s s'
      in (case err of
            Some e \<Rightarrow> (Inl e, l, s1)
          | None \<Rightarrow>
              (case row of
                 None \<Rightarrow> (Inr False, l\<lparr>bl_expiration := None, bl_extendedCount := 0\<rparr>, s1)
               | Some (until, n) \<Rightarrow> (Inr True, l\<lparr>bl_expiration := Some until, bl_extendedCount := n\<rparr>, s1))))"

text \<open>\<open>Lock\<close> repeats \<open>TryLock\<close> with a jittered sleep, as in the Redis lock; \<open>None\<close> while it still waits.\<close>

fun pg_Lock ::
    "'s pg \<Rightarrow> (pg_faults \<times> int \<times> ('s \<Rightarrow> 's) \<times> lock_err option) list \<Rightarrow> base_lock \<Rightarrow> 's \<Rightarrow>
     (lock_err option \<times> base_lock \<times> 's) go option" where
  "pg_Lock P [] l s = None"
| "pg_Lock P ((f, now, env, sleepErr) # rounds) l s =
     (case pg_TryLock P f now l (env s) of
        (locked, Some e, l1, s1) \<Rightarrow> Some (Ret (Some e, l1, s1))
      | (locked, None, l1, s1) \<Rightarrow>
          if locked then Some (Ret (None, l1, s1))
          else if bl_ttl l div 10 \<le> 0 then Some (Panic ''invalid argument to Int63n'')
          else (case sleepErr of
                  Some e \<Rightarrow> Some (Ret (Some e, l1, s1))
                | None \<Rightarrow> pg_Lock P rounds l1 s1))"

section \<open>The Postgres lock is a lease lock\<close>

text \<open>A table as a function from resources to rows.\<close>

definition pg_mem :: "(string \<Rightarrow> lock_row option) pg" where
  "pg_mem = \<lparr>pg_get = \<lambda>k s. s k, pg_put = \<lambda>k v s. s(k \<mapsto> v)\<rparr>"

lemma pg_mem_ok: "pg_ok pg_mem"
  by (simp add: pg_ok_def pg_mem_def)

definition pg_holder :: "'s pg \<Rightarrow> string \<Rightarrow> int \<Rightarrow> 's \<Rightarrow> string option" where
  "pg_holder P res t s =
     (case pg_get P res s of None \<Rightarrow> None | Some r \<Rightarrow> if t < lr_expiration r then Some (lr_instance_id r) else None)"

type_synonym 's pg_world = "(string \<Rightarrow> base_lock) \<times> 's"

fun pg_call ::
    "'s pg \<Rightarrow> int \<Rightarrow> string \<Rightarrow> lease_op \<Rightarrow> pg_faults \<Rightarrow> 's pg_world \<Rightarrow> (lock_err + bool) \<times> 's pg_world" where
  "pg_call P now i OpTry f (L, s) =
     (let (locked, err, l, s') = pg_TryLock P f now (L i) s
      in (case err of Some e \<Rightarrow> Inl e | None \<Rightarrow> Inr locked, L(i := l), s'))"
| "pg_call P now i OpUnlock f (L, s) =
     (let (err, l, s') = pg_Unlock P (pf_commit f) now (L i) s
      in (case err of Some e \<Rightarrow> Inl e | None \<Rightarrow> Inr True, L(i := l), s'))"
| "pg_call P now i OpExtend f (L, s) =
     (let (a, l, s') = pg_Extend P (pf_commit f) now (L i) s in (a, L(i := l), s'))"

definition pg_inv :: "'s pg \<Rightarrow> string \<Rightarrow> (string \<Rightarrow> int) \<Rightarrow> 's pg_world \<Rightarrow> bool" where
  "pg_inv P res ttl w \<longleftrightarrow> pg_ok P \<and>
     (\<forall>i. bl_resource (fst w i) = res \<and> bl_id (fst w i) = i \<and> bl_ttl (fst w i) = ttl i)"

text \<open>Whatever the select saw, a lock row is written only over an expired or absent lock.\<close>

lemma write_lock_holder:
  assumes ok: "pg_ok P" and w: "write_lock P now l cur s = (until, s')"
  shows "pg_holder P (bl_resource l) now s \<noteq> None \<Longrightarrow> until = None \<and> s' = s"
    and "until = None \<Longrightarrow> s' = s"
    and "until = Some u \<Longrightarrow> u = now + bl_ttl l \<and>
      (\<forall>t. pg_holder P (bl_resource l) t s' = (if t < now + bl_ttl l then Some (bl_id l) else None))"
  using ok w
  by (auto simp: write_lock_def update_expired_def insert_lock_def pg_holder_def pg_ok_def
      split: option.splits if_splits)

lemma expire_own_holder:
  "pg_ok P \<Longrightarrow> pg_holder P (bl_resource l) now s \<noteq> Some (bl_id l) \<Longrightarrow> expire_own P now l s = s"
  by (auto simp: expire_own_def pg_holder_def pg_ok_def split: option.splits if_splits)

lemma extend_own_holder:
  assumes ok: "pg_ok P" and e: "extend_own P now l s = (row, s')"
  shows "pg_holder P (bl_resource l) now s \<noteq> Some (bl_id l) \<Longrightarrow> row = None \<and> s' = s"
    and "row = None \<Longrightarrow> s' = s"
    and "row = Some x \<Longrightarrow>
      (\<forall>t. pg_holder P (bl_resource l) t s' = (if t < now + bl_ttl l then Some (bl_id l) else None))"
  using ok e by (auto simp: extend_own_def pg_holder_def pg_ok_def split: option.splits if_splits)

text \<open>After a call the table is unchanged or as the statement left it; success is the statement's.\<close>

lemma pg_call_try:
  assumes "pg_call P t i OpTry f (L, s) = (x, L', s')"
  defines "out \<equiv> write_lock P t (L i) (select_instance P (bl_resource (L i)) s) s"
  shows "s' = s \<or> s' = snd out" "x = Inr True \<Longrightarrow> fst out \<noteq> None \<and> s' = snd out"
  using assms
  by (auto simp: pg_TryLock_def commit_tx_def Let_def split: prod.splits option.splits setup_outcome.splits net.splits)

lemma pg_call_extend:
  assumes "pg_call P t i OpExtend f (L, s) = (x, L', s')"
  defines "out \<equiv> extend_own P t (L i) s"
  shows "s' = s \<or> s' = snd out" "x = Inr True \<Longrightarrow> fst out \<noteq> None \<and> s' = snd out"
  using assms
  by (auto simp: pg_Extend_def commit_tx_def Let_def split: prod.splits option.splits net.splits)

lemma pg_call_unlock:
  assumes "pg_call P t i OpUnlock f (L, s) = (x, L', s')"
  shows "s' = s \<or> s' = expire_own P t (L i) s"
  using assms by (auto simp: pg_Unlock_def commit_tx_def Let_def split: prod.splits option.splits net.splits)

lemma pg_call_fields:
  assumes "pg_call P t i op f (L, s) = (x, L', s')"
  shows "bl_resource (L' j) = bl_resource (L j)" "bl_id (L' j) = bl_id (L j)" "bl_ttl (L' j) = bl_ttl (L j)"
  using assms
  by (cases op; auto simp: pg_TryLock_def pg_Unlock_def pg_Extend_def forget_def Let_def
      split: prod.splits option.splits setup_outcome.splits)+

interpretation pg_lease: lease_lock "pg_inv P res ttl" "\<lambda>t w. pg_holder P res t (snd w)" ttl "pg_call P"
proof unfold_locales
  fix w w' :: "'a pg_world" and t i op f x
  assume "pg_inv P res ttl w" "pg_call P t i op f w = (x, w')"
  then show "pg_inv P res ttl w'"
    using pg_call_fields[of P t i op f "fst w" "snd w" x "fst w'" "snd w'"] by (simp add: pg_inv_def)
next
  fix w w' :: "'a pg_world" and t j i f x
  assume inv: "pg_inv P res ttl w" and h: "pg_holder P res t (snd w) = Some j" and c: "pg_call P t i OpTry f w = (x, w')"
  obtain L s L' s' where w: "w = (L, s)" "w' = (L', s')" by (cases w; cases w')
  have ok: "pg_ok P" "bl_resource (L i) = res" using inv w by (auto simp: pg_inv_def)
  show "x \<noteq> Inr True"
    using pg_call_try(2)[of P t i f L s x L' s'] write_lock_holder(1)[OF ok(1) prod.collapse[symmetric], of "L i" t s] h c w ok(2)
    by auto
next
  fix w w' :: "'a pg_world" and t j i op f x u
  assume inv: "pg_inv P res ttl w" and h: "pg_holder P res t (snd w) = Some j" and c: "pg_call P t i op f w = (x, w')"
    and d: "i \<noteq> j \<or> op = OpTry"
  obtain L s L' s' where w: "w = (L, s)" "w' = (L', s')" by (cases w; cases w')
  have ok: "pg_ok P" "bl_resource (L i) = res" "bl_id (L i) = i" using inv w by (auto simp: pg_inv_def)
  have "s' = s"
    using pg_call_try(1)[of P t i f L s x L' s'] pg_call_extend(1)[of P t i f L s x L' s'] pg_call_unlock[of P t i f L s x L' s']
      write_lock_holder(1)[OF ok(1) prod.collapse[symmetric], of "L i" t s] expire_own_holder[OF ok(1), of "L i" t s]
      extend_own_holder(1)[OF ok(1) prod.collapse[symmetric], of "L i" t s] h c w d ok(2,3)
    by (cases op) auto
  then show "pg_holder P res u (snd w') = pg_holder P res u (snd w)" using w by simp
next
  fix w w' :: "'a pg_world" and t i op f u
  assume inv: "pg_inv P res ttl w" and c: "pg_call P t i op f w = (Inr True, w')" and op: "op \<noteq> OpUnlock"
    and u: "t \<le> u" "u < t + ttl i"
  obtain L s L' s' where w: "w = (L, s)" "w' = (L', s')" by (cases w; cases w')
  have ok: "pg_ok P" "bl_resource (L i) = res" "bl_id (L i) = i" "bl_ttl (L i) = ttl i" using inv w by (auto simp: pg_inv_def)
  show "pg_holder P res u (snd w') = Some i"
    using pg_call_try(2)[of P t i f L s "Inr True" L' s'] pg_call_extend(2)[of P t i f L s "Inr True" L' s']
      write_lock_holder(3)[OF ok(1) prod.collapse[symmetric], of t "L i" "select_instance P (bl_resource (L i)) s" s]
      extend_own_holder(3)[OF ok(1) prod.collapse[symmetric], of t "L i" s] c w op ok(2-4) u
    by (cases op) auto
next
  fix w w' :: "'a pg_world" and t i f x
  assume inv: "pg_inv P res ttl w" and h: "pg_holder P res t (snd w) = Some i" and c: "pg_call P t i OpExtend f w = (x, w')"
  obtain L s L' s' where w: "w = (L, s)" "w' = (L', s')" by (cases w; cases w')
  have ok: "pg_ok P" "bl_resource (L i) = res" "bl_id (L i) = i" "bl_ttl (L i) = ttl i" using inv w by (auto simp: pg_inv_def)
  show "(\<forall>u \<ge> t. pg_holder P res u (snd w') = pg_holder P res u (snd w)) \<or>
      (\<forall>u. t \<le> u \<and> u < t + ttl i \<longrightarrow> pg_holder P res u (snd w') = Some i)"
    using pg_call_extend(1)[of P t i f L s x L' s']
      extend_own_holder(2)[OF ok(1) prod.collapse[symmetric], of t "L i" s] extend_own_holder(3)[OF ok(1) prod.collapse[symmetric], of t "L i" s] c w ok(2-4)
    by (cases "fst (extend_own P t (L i) s)") auto
qed

text \<open>C18. Two clients of a Postgres lock never hold a resource at once: after a client was told that it
  acquired or extended the lock, no client is told that it acquired it before the time to live has
  passed, unless the first one unlocked; whatever statements and commits failed in between.\<close>

theorem postgres_lock_exclusive:
  assumes "pg_ok P" and "L = (\<lambda>i. NewDistributedPostgresLock res i (ttl i))"
    and "timed now (pre @ (t, i, op, f) # mid @ (t', j, OpTry, f') # post)"
    and "lease_run (pg_call P) (pre @ (t, i, op, f) # mid @ (t', j, OpTry, f') # post) (L, s) = (rs, w)"
    and "rs ! length pre = Inr True" "op \<noteq> OpUnlock" "t' < t + ttl i" "\<not> unlocked_by i mid"
  shows "rs ! (length pre + 1 + length mid) \<noteq> Inr True"
proof -
  have "pg_inv P res ttl (L, s)" using assms(1,2) by (simp add: pg_inv_def NewDistributedPostgresLock_def new_base_lock_def)
  from pg_lease.mutual_exclusion[OF this assms(3-)] show ?thesis .
qed

theorem postgres_lock_exclusive_witness:
  "let L = (\<lambda>i. NewDistributedPostgresLock ''job'' i 5);
       d = \<lparr>pf_setup = SetupDone, pf_select = None, pf_write = None, pf_commit = Delivered\<rparr>;
       evs = [(0, ''a'', OpTry, d), (2, ''b'', OpExtend, d), (4, ''b'', OpTry, d)]
   in fst (lease_run (pg_call pg_mem) evs (L, \<lambda>_. None)) = [Inr True, Inr False, Inr False]"
proof -
  let ?L = "\<lambda>i. NewDistributedPostgresLock ''job'' i 5"
  let ?d = "\<lparr>pf_setup = SetupDone, pf_select = None, pf_write = None, pf_commit = Delivered\<rparr>"
  let ?evs = "[] @ (0, ''a'', OpTry, ?d) # [(2, ''b'', OpExtend, ?d)] @ (4, ''b'', OpTry, ?d) # []"
  obtain rs w where r: "lease_run (pg_call pg_mem) ?evs (?L, \<lambda>_. None) = (rs, w)" using prod.exhaust by blast
  have rs: "rs ! length [] = Inr True" "rs ! 1 = Inr False" "\<exists>b. rs ! 2 = Inr b" "length rs = 3"
    using r by (auto simp: pg_mem_def pg_TryLock_def pg_Extend_def write_lock_def update_expired_def insert_lock_def
        extend_own_def select_instance_def commit_tx_def NewDistributedPostgresLock_def new_base_lock_def Let_def)
  have "timed 0 ?evs" by simp
  from postgres_lock_exclusive[OF pg_mem_ok refl this r] have "rs ! 2 \<noteq> Inr True"
    using rs by (simp add: numeral_2_eq_2)
  then have "rs = [Inr True, Inr False, Inr False]"
    using rs by (intro nth_equalityI) (auto simp: less_Suc_eq numeral_eq_Suc)
  then show ?thesis using r by (simp add: Let_def del: lease_run.simps)
qed

text \<open>Whatever the select of \<open>TryLock\<close> saw before another instance wrote the table, the write that
  follows succeeds only if at that moment nobody holds the resource, and then it gives the caller the
  resource for its time to live.\<close>

lemma postgres_write_checks_again:
  assumes "pg_ok P" "write_lock P now l cur s = (Some until, s')"
  shows "pg_holder P (bl_resource l) now s = None \<and> until = now + bl_ttl l \<and>
     (\<forall>t. pg_holder P (bl_resource l) t s' = (if t < until then Some (bl_id l) else None))"
  using write_lock_holder[OF assms] by (cases "pg_holder P (bl_resource l) now s") auto

lemma postgres_write_checks_again_witness:
  "let l = NewDistributedPostgresLock ''job'' ''b'' 5; row = \<lparr>lr_instance_id = ''a'', lr_expiration = 8, lr_extended_count = 2\<rparr>
   in pg_holder pg_mem ''job'' 9 (\<lambda>_. Some row) = None \<and>
      pg_holder pg_mem ''job'' 10 (snd (write_lock pg_mem 9 l ''a'' (\<lambda>_. Some row))) = Some ''b''"
  using postgres_write_checks_again[OF pg_mem_ok, of 9 "NewDistributedPostgresLock ''job'' ''b'' 5" "''a''"
      "\<lambda>_. Some \<lparr>lr_instance_id = ''a'', lr_expiration = 8, lr_extended_count = 2\<rparr>" 14]
  by (simp add: write_lock_def update_expired_def pg_mem_def NewDistributedPostgresLock_def new_base_lock_def)

end
