(* ===== verification/LocalLock.thy ===== *)
theory LocalLock
  imports LeaseLock
begin

text \<open>
  File \<^verbatim>\<open>distributedlock_local.go\<close>: a lock on a file with \<^verbatim>\<open>flock\<close>. The system call belongs to an
  open file description, so each lock object has its own; \<open>None\<close> means that nobody holds the file. Each
  method runs under the mutex of its object and is one step; the mutex being taken is an argument of
  \<open>TryLock\<close>. The goroutine that \<^verbatim>\<open>doLock\<close> starts is the step \<open>watch\<close>.
\<close>

record local_lock =
  ll_base :: base_lock
  ll_path :: string
  ll_fd :: nat
  ll_locked :: bool

definition NewDistributedLocalLock :: "string \<Rightarrow> string \<Rightarrow> nat \<Rightarrow> string \<Rightarrow> int \<Rightarrow> local_lock" where
  "NewDistributedLocalLock uuid path fd resource ttl =
     \<lparr>ll_base = new_base_lock resource uuid ttl, ll_path = path, ll_fd = fd, ll_locked = False\<rparr>"

section \<open>The system call\<close>

datatype flock_result = FlockOk | EWOULDBLOCK | FlockError string

text \<open>\<^verbatim>\<open>LOCK_EX | LOCK_NB\<close>: the file is free, or held by this or by another description.\<close>

definition flock_ex_nb :: "nat \<Rightarrow> nat option \<Rightarrow> flock_result \<times> nat option" where
  "flock_ex_nb fd os = (if os = None \<or> os = Some fd then (FlockOk, Some fd) else (EWOULDBLOCK, os))"

text \<open>\<^verbatim>\<open>LOCK_EX\<close> waits while another description holds the file; \<open>None\<close> is waiting.\<close>

definition flock_ex :: "nat \<Rightarrow> nat option \<Rightarrow> nat option option" where
  "flock_ex fd os = (if os = None \<or> os = Some fd then Some (Some fd) else None)"

definition flock_un :: "nat \<Rightarrow> nat option \<Rightarrow> nat option" where
  "flock_un fd os = (if os = Some fd then None else os)"

section \<open>The methods\<close>

definition doLock :: "int \<Rightarrow> local_lock \<Rightarrow> local_lock" where
  "doLock now l = l\<lparr>ll_base := (ll_base l)\<lparr>bl_expiration := Some (now + bl_ttl (ll_base l))\<rparr>, ll_locked := True\<rparr>"

definition local_Lock ::
    "lock_err option \<Rightarrow> int \<Rightarrow> local_lock \<Rightarrow> nat option \<Rightarrow> (lock_err option \<times> local_lock \<times> nat option) option" where
  "local_Lock err now l os =
     (case err of
        Some e \<Rightarrow> Some (Some e, l, os)
      | None \<Rightarrow> (case flock_ex (ll_fd l) os of
                   None \<Rightarrow> None
                 | Some os' \<Rightarrow> Some (None, doLock now l, os')))"

definition local_TryLock ::
    "bool \<Rightarrow> lock_err option \<Rightarrow> int \<Rightarrow> local_lock \<Rightarrow> nat option \<Rightarrow> (lock_err + bool) \<times> local_lock \<times> nat option" where
  "local_TryLock muFree err now l os =
     (if \<not> muFree then (Inr False, l, os)
      else if ll_locked l then (Inr False, l, os)
      else (case err of
              Some e \<Rightarrow> (Inl e, l, os)
            | None \<Rightarrow> (case flock_ex_nb (ll_fd l) os of
                         (EWOULDBLOCK, os') \<Rightarrow> (Inr False, l, os')
                       | (FlockError m, os') \<Rightarrow> (Inl (ErrServer m), l, os')
                       | (FlockOk, os') \<Rightarrow> (Inr True, doLock now l, os'))))"

definition local_Unlock ::
    "lock_err option \<Rightarrow> local_lock \<Rightarrow> nat option \<Rightarrow> lock_err option \<times> local_lock \<times> nat option" where
  "local_Unlock err l os =
     (case err of
        Some e \<Rightarrow> (Some e, l, os)
      | None \<Rightarrow> (None, l\<lparr>ll_base := forget (ll_base l), ll_locked := False\<rparr>, flock_un (ll_fd l) os))"

definition local_Extend :: "int \<Rightarrow> local_lock \<Rightarrow> bool \<times> local_lock" where
  "local_Extend now l =
     (if \<not> ll_locked l then (False, l)
      else (case bl_expiration (ll_base l) of
              None \<Rightarrow> (False, l)
            | Some d \<Rightarrow>
                if d < now then (False, l)
                else (True, l\<lparr>ll_base := (ll_base l)\<lparr>bl_extendedCount := bl_extendedCount (ll_base l) + 1,
                                                     bl_expiration := Some (now + bl_ttl (ll_base l))\<rparr>\<rparr>)))"

text \<open>One turn of the goroutine of \<^verbatim>\<open>doLock\<close>: it stops, sleeps for half of the time to live, or unlocks.
  The zero time is before every instant.\<close>

datatype watch_end = WatchStops | WatchSleeps int | WatchUnlocked "lock_err option"

definition watch :: "lock_err option \<Rightarrow> int \<Rightarrow> local_lock \<Rightarrow> nat option \<Rightarrow> watch_end \<times> local_lock \<times> nat option" where
  "watch err now l os =
     (if \<not> ll_locked l then (WatchStops, l, os)
      else if (case bl_expiration (ll_base l) of None \<Rightarrow> False | Some d \<Rightarrow> now < d)
      then (WatchSleeps (bl_ttl (ll_base l) div 2), l, os)
      else (let (e, l', os') = local_Unlock err l os in (WatchUnlocked e, l', os')))"

section \<open>All lock objects of one file\<close>

datatype local_call =
    CallLock "lock_err option" int | CallTryLock bool "lock_err option" int | CallUnlock "lock_err option"
  | CallExtend int | CallWatch "lock_err option" int

text \<open>One call on the object with the given description; a call that waits does not change anything.\<close>

fun local_exec :: "nat \<times> local_call \<Rightarrow> (nat \<Rightarrow> local_lock) \<times> nat option \<Rightarrow> (nat \<Rightarrow> local_lock) \<times> nat option" where
  "local_exec (fd, CallLock err now) (L, os) =
     (case local_Lock err now (L fd) os of None \<Rightarrow> (L, os) | Some (e, l, os') \<Rightarrow> (L(fd := l), os'))"
| "local_exec (fd, CallTryLock mu err now) (L, os) =
     (let (r, l, os') = local_TryLock mu err now (L fd) os in (L(fd := l), os'))"
| "local_exec (fd, CallUnlock err) (L, os) = (let (e, l, os') = local_Unlock err (L fd) os in (L(fd := l), os'))"
| "local_exec (fd, CallExtend now) (L, os) = (L(fd := snd (local_Extend now (L fd))), os)"
| "local_exec (fd, CallWatch err now) (L, os) = (let (e, l, os') = watch err now (L fd) os in (L(fd := l), os'))"

definition local_inv :: "(nat \<Rightarrow> local_lock) \<times> nat option \<Rightarrow> bool" where
  "local_inv w \<longleftrightarrow> (\<forall>fd. ll_fd (fst w fd) = fd \<and> (ll_locked (fst w fd) \<longrightarrow> snd w = Some fd) \<and>
     (ll_locked (fst w fd) \<longrightarrow> bl_expiration (ll_base (fst w fd)) \<noteq> None))"

lemma local_exec_inv: "local_inv w \<Longrightarrow> local_inv (local_exec c w)"
proof -
  assume i: "local_inv w"
  obtain fd a L os where c: "c = (fd, a)" "w = (L, os)" by (cases c; cases w)
  have fd: "ll_fd (L fd) = fd" using i c by (simp add: local_inv_def)
  show ?thesis
    using i c fd
    by (cases a)
      (auto simp: local_inv_def local_Lock_def local_TryLock_def local_Unlock_def local_Extend_def watch_def doLock_def
        flock_ex_def flock_ex_nb_def flock_un_def Let_def split: option.splits if_splits)
qed

text \<open>C35. Whatever calls the holders of several lock objects of a file make, and whenever their
  goroutines look, at most one object believes that it holds the lock, and it holds the file.\<close>

theorem local_lock_exclusive:
  assumes "\<forall>fd. \<exists>uuid path resource ttl. L fd = NewDistributedLocalLock uuid path fd resource ttl"
    and "w = fold local_exec cs (L, None)"
  shows "(ll_locked (fst w a) \<longrightarrow> snd w = Some a) \<and> (ll_locked (fst w a) \<and> ll_locked (fst w b) \<longrightarrow> a = b)"
proof -
  have "local_inv (L, None)"
    unfolding local_inv_def
  proof (intro allI)
    fix fd
    obtain uuid path resource ttl where "L fd = NewDistributedLocalLock uuid path fd resource ttl" using assms(1) by blast
    then show "ll_fd (fst (L, None) fd) = fd \<and> (ll_locked (fst (L, None) fd) \<longrightarrow> snd (L, None) = Some fd) \<and>
       (ll_locked (fst (L, None) fd) \<longrightarrow> bl_expiration (ll_base (fst (L, None) fd)) \<noteq> None)"
      by (simp add: NewDistributedLocalLock_def)
  qed
  moreover have "local_inv v \<Longrightarrow> local_inv (fold local_exec cs v)" for v
  proof (induction cs arbitrary: v)
    case (Cons c cs)
    from Cons.IH[OF local_exec_inv[OF Cons.prems]] show ?case by simp
  qed simp
  ultimately have "local_inv w" using assms(2) by blast
  then show ?thesis unfolding local_inv_def by (metis option.inject)
qed

theorem local_lock_exclusive_witness:
  "let L = (\<lambda>fd. NewDistributedLocalLock ''u'' ''/tmp/f'' fd ''job'' 10);
       w = fold local_exec [(1, CallTryLock True None 0), (2, CallTryLock True None 5), (1, CallWatch None 11), (2, CallTryLock True None 12)] (L, None)
   in ll_locked (fst w 2) \<and> snd w = Some 2 \<and> \<not> ll_locked (fst w 1)"
proof -
  let ?L = "\<lambda>fd. NewDistributedLocalLock ''u'' ''/tmp/f'' fd ''job'' 10"
  let ?w = "fold local_exec [(1, CallTryLock True None 0), (2, CallTryLock True None 5), (1, CallWatch None 11), (2, CallTryLock True None 12)] (?L, None)"
  have "ll_locked (fst ?w 2)"
    by (simp add: local_TryLock_def local_Unlock_def watch_def doLock_def flock_ex_nb_def flock_un_def
        NewDistributedLocalLock_def new_base_lock_def)
  then show ?thesis using local_lock_exclusive[OF _ refl, of ?L "[(1, CallTryLock True None 0), (2, CallTryLock True None 5),
      (1, CallWatch None 11), (2, CallTryLock True None 12)]" 2 1] unfolding Let_def by (metis numeral_eq_one_iff semiring_norm(85))
qed

text \<open>\<open>Lock\<close> on an object that already holds its file does not wait: it returns without an error
  and starts a new lease, where \<open>TryLock\<close> on the same object reports false.\<close>

lemma local_Lock_does_not_wait_for_itself:
  assumes "ll_locked l" "os = Some (ll_fd l)"
  shows "local_Lock None now l os = Some (None, doLock now l, os) \<and> local_TryLock True None now l os = (Inr False, l, os)"
  using assms by (simp add: local_Lock_def local_TryLock_def flock_ex_def)

lemma local_Lock_does_not_wait_for_itself_witness:
  "let l = doLock 0 (NewDistributedLocalLock ''u'' ''/tmp/f'' 1 ''job'' 10)
   in local_Lock None 4 l (Some 1) = Some (None, doLock 4 l, Some 1)"
  using local_Lock_does_not_wait_for_itself[of "doLock 0 (NewDistributedLocalLock ''u'' ''/tmp/f'' 1 ''job'' 10)" "Some 1" 4]
  by (simp add: Let_def doLock_def NewDistributedLocalLock_def)

end
