(* ===== verification/Functional.thy ===== *)
theory Functional
  imports Prelude
begin

text \<open>
  Packages \<^verbatim>\<open>functional/slices\<close>, \<^verbatim>\<open>functional/maps\<close> and \<^verbatim>\<open>functional/predicates\<close>. A slice is a list
  (the nil slice is the empty one), a loop over a slice is a recursion that carries the index and what
  the loop has built, and an error is the left of a sum. The zero value of a result type, which the
  search functions return when nothing is found, is an argument. Go iterates over a map in an
  unspecified order: the functions on maps take the entries in the order of the iteration.
\<close>

section \<open>Slices\<close>

fun FilterI_loop :: "(nat \<Rightarrow> 'e \<Rightarrow> bool) \<Rightarrow> nat \<Rightarrow> 'e list \<Rightarrow> 'e list \<Rightarrow> 'e list" where
  "FilterI_loop p i [] filtered = filtered"
| "FilterI_loop p i (e # s) filtered =
     FilterI_loop p (Suc i) s (if p i e then filtered @ [e] else filtered)"

definition FilterI :: "(nat \<Rightarrow> 'e \<Rightarrow> bool) \<Rightarrow> 'e list \<Rightarrow> 'e list" where
  "FilterI p s = FilterI_loop p 0 s []"

definition Filter :: "('e \<Rightarrow> bool) \<Rightarrow> 'e list \<Rightarrow> 'e list" where
  "Filter p s = FilterI (\<lambda>_ e. p e) s"

text \<open>\<open>MapI\<close> fills a slice made with the length of the argument; \<open>z\<close> is the zero value in it.\<close>

fun MapI_loop :: "(nat \<Rightarrow> 'e \<Rightarrow> 'r) \<Rightarrow> nat \<Rightarrow> 'e list \<Rightarrow> 'r list \<Rightarrow> 'r list" where
  "MapI_loop f i [] mapped = mapped"
| "MapI_loop f i (e # s) mapped = MapI_loop f (Suc i) s (mapped[i := f i e])"

definition MapI :: "'r \<Rightarrow> (nat \<Rightarrow> 'e \<Rightarrow> 'r) \<Rightarrow> 'e list \<Rightarrow> 'r list" where
  "MapI z f s = MapI_loop f 0 s (replicate (length s) z)"

definition Map :: "'r \<Rightarrow> ('e \<Rightarrow> 'r) \<Rightarrow> 'e list \<Rightarrow> 'r list" where
  "Map z f s = MapI z (\<lambda>_ e. f e) s"

fun MapIE_loop :: "(nat \<Rightarrow> 'e \<Rightarrow> 'err + 'r) \<Rightarrow> nat \<Rightarrow> 'e list \<Rightarrow> 'r list \<Rightarrow> 'err + 'r list" where
  "MapIE_loop f i [] mapped = Inr mapped"
| "MapIE_loop f i (e # s) mapped =
     (case f i e of Inl err \<Rightarrow> Inl err | Inr r \<Rightarrow> MapIE_loop f (Suc i) s (mapped[i := r]))"

definition MapIE :: "'r \<Rightarrow> (nat \<Rightarrow> 'e \<Rightarrow> 'err + 'r) \<Rightarrow> 'e list \<Rightarrow> 'err + 'r list" where
  "MapIE z f s = MapIE_loop f 0 s (replicate (length s) z)"

fun FlatMapI_loop :: "(nat \<Rightarrow> 'e \<Rightarrow> 'r list) \<Rightarrow> nat \<Rightarrow> 'e list \<Rightarrow> 'r list \<Rightarrow> 'r list" where
  "FlatMapI_loop f i [] mapped = mapped"
| "FlatMapI_loop f i (e # s) mapped = FlatMapI_loop f (Suc i) s (mapped @ f i e)"

definition FlatMapI :: "(nat \<Rightarrow> 'e \<Rightarrow> 'r list) \<Rightarrow> 'e list \<Rightarrow> 'r list" where
  "FlatMapI f s = FlatMapI_loop f 0 s []"

definition FlatMap :: "('e \<Rightarrow> 'r list) \<Rightarrow> 'e list \<Rightarrow> 'r list" where
  "FlatMap f s = FlatMapI (\<lambda>_ e. f e) s"

fun FlatMapIE_loop :: "(nat \<Rightarrow> 'e \<Rightarrow> 'err + 'r list) \<Rightarrow> nat \<Rightarrow> 'e list \<Rightarrow> 'r list \<Rightarrow> 'err + 'r list" where
  "FlatMapIE_loop f i [] mapped = Inr mapped"
| "FlatMapIE_loop f i (e # s) mapped =
     (case f i e of Inl err \<Rightarrow> Inl err | Inr rs \<Rightarrow> FlatMapIE_loop f (Suc i) s (mapped @ rs))"

definition FlatMapIE :: "(nat \<Rightarrow> 'e \<Rightarrow> 'err + 'r list) \<Rightarrow> 'e list \<Rightarrow> 'err + 'r list" where
  "FlatMapIE f s = FlatMapIE_loop f 0 s []"

text \<open>The searches return the value and the index, or the zero value and -1.\<close>

fun FindMapI_loop :: "'r \<Rightarrow> (nat \<Rightarrow> 'e \<Rightarrow> 'r \<times> bool) \<Rightarrow> nat \<Rightarrow> 'e list \<Rightarrow> 'r \<times> int" where
  "FindMapI_loop z f i [] = (z, -1)"
| "FindMapI_loop z f i (e # s) =
     (let (v, found) = f i e in if found then (v, int i) else FindMapI_loop z f (Suc i) s)"

definition FindMapI :: "'r \<Rightarrow> (nat \<Rightarrow> 'e \<Rightarrow> 'r \<times> bool) \<Rightarrow> 'e list \<Rightarrow> 'r \<times> int" where
  "FindMapI z f s = FindMapI_loop z f 0 s"

definition FindMap :: "'r \<Rightarrow> ('e \<Rightarrow> 'r \<times> bool) \<Rightarrow> 'e list \<Rightarrow> 'r \<times> int" where
  "FindMap z f s = FindMapI z (\<lambda>_ e. f e) s"

fun FindMapIE_loop :: "'r \<Rightarrow> (nat \<Rightarrow> 'e \<Rightarrow> 'r \<times> bool \<times> 'err option) \<Rightarrow> nat \<Rightarrow> 'e list \<Rightarrow> 'r \<times> int \<times> 'err option" where
  "FindMapIE_loop z f i [] = (z, -1, None)"
| "FindMapIE_loop z f i (e # s) =
     (case f i e of
        (v, found, Some err) \<Rightarrow> (z, -1, Some err)
      | (v, found, None) \<Rightarrow> if found then (v, int i, None) else FindMapIE_loop z f (Suc i) s)"

definition FindMapIE :: "'r \<Rightarrow> (nat \<Rightarrow> 'e \<Rightarrow> 'r \<times> bool \<times> 'err option) \<Rightarrow> 'e list \<Rightarrow> 'r \<times> int \<times> 'err option" where
  "FindMapIE z f s = FindMapIE_loop z f 0 s"

text \<open>The loops of the backward searches run while the index is greater than zero; \<open>k\<close> is the index.\<close>

fun FindLastMapI_loop :: "'r \<Rightarrow> (nat \<Rightarrow> 'e \<Rightarrow> 'r \<times> bool) \<Rightarrow> 'e list \<Rightarrow> nat \<Rightarrow> 'r \<times> int" where
  "FindLastMapI_loop z f s 0 = (z, -1)"
| "FindLastMapI_loop z f s (Suc k) =
     (let (v, found) = f (Suc k) (s ! Suc k) in if found then (v, int (Suc k)) else FindLastMapI_loop z f s k)"

definition FindLastMapI :: "'r \<Rightarrow> (nat \<Rightarrow> 'e \<Rightarrow> 'r \<times> bool) \<Rightarrow> 'e list \<Rightarrow> 'r \<times> int" where
  "FindLastMapI z f s = (if s = [] then (z, -1) else FindLastMapI_loop z f s (length s - 1))"

definition FindLastMap :: "'r \<Rightarrow> ('e \<Rightarrow> 'r \<times> bool) \<Rightarrow> 'e list \<Rightarrow> 'r \<times> int" where
  "FindLastMap z f s = FindLastMapI z (\<lambda>_ e. f e) s"

fun FindLastMapIE_loop :: "'r \<Rightarrow> (nat \<Rightarrow> 'e \<Rightarrow> 'r \<times> bool \<times> 'err option) \<Rightarrow> 'e list \<Rightarrow> nat \<Rightarrow> 'r \<times> int \<times> 'err option" where
  "FindLastMapIE_loop z f s 0 = (z, -1, None)"
| "FindLastMapIE_loop z f s (Suc k) =
     (case f (Suc k) (s ! Suc k) of
        (v, found, Some err) \<Rightarrow> (z, -1, Some err)
      | (v, found, None) \<Rightarrow> if found then (v, int (Suc k), None) else FindLastMapIE_loop z f s k)"

definition FindLastMapIE :: "'r \<Rightarrow> (nat \<Rightarrow> 'e \<Rightarrow> 'r \<times> bool \<times> 'err option) \<Rightarrow> 'e list \<Rightarrow> 'r \<times> int \<times> 'err option" where
  "FindLastMapIE z f s = (if s = [] then (z, -1, None) else FindLastMapIE_loop z f s (length s - 1))"

section \<open>Maps\<close>

definition ToSlice :: "('k \<times> 'v) list \<Rightarrow> ('k \<times> 'v) list" where
  "ToSlice order = order"

fun maps_Filter_loop :: "('k \<times> 'v \<Rightarrow> bool) \<Rightarrow> ('k \<times> 'v) list \<Rightarrow> ('k \<rightharpoonup> 'v) \<Rightarrow> ('k \<rightharpoonup> 'v)" where
  "maps_Filter_loop p [] filtered = filtered"
| "maps_Filter_loop p ((k, v) # order) filtered =
     maps_Filter_loop p order (if p (k, v) then filtered(k \<mapsto> v) else filtered)"

definition maps_Filter :: "('k \<times> 'v) list \<Rightarrow> ('k \<times> 'v \<Rightarrow> bool) \<Rightarrow> ('k \<rightharpoonup> 'v)" where
  "maps_Filter order p = maps_Filter_loop p order Map.empty"

fun MapE_loop :: "('k \<times> 'v \<Rightarrow> 'err + 'k2 \<times> 'v2) \<Rightarrow> ('k \<times> 'v) list \<Rightarrow> ('k2 \<rightharpoonup> 'v2) \<Rightarrow> 'err + ('k2 \<rightharpoonup> 'v2)" where
  "MapE_loop f [] mapped = Inr mapped"
| "MapE_loop f (e # order) mapped =
     (case f e of Inl err \<Rightarrow> Inl err | Inr (k, v) \<Rightarrow> MapE_loop f order (mapped(k \<mapsto> v)))"

definition MapE :: "('k \<times> 'v) list \<Rightarrow> ('k \<times> 'v \<Rightarrow> 'err + 'k2 \<times> 'v2) \<Rightarrow> 'err + ('k2 \<rightharpoonup> 'v2)" where
  "MapE order f = MapE_loop f order Map.empty"

definition maps_Map :: "('k \<times> 'v) list \<Rightarrow> ('k \<times> 'v \<Rightarrow> 'k2 \<times> 'v2) \<Rightarrow> ('k2 \<rightharpoonup> 'v2)" where
  "maps_Map order f = (case MapE order (\<lambda>e. Inr (f e) :: string + _) of Inr m \<Rightarrow> m | Inl _ \<Rightarrow> Map.empty)"

fun FromEntries_loop :: "('k \<times> 'v) list \<Rightarrow> ('k \<rightharpoonup> 'v) \<Rightarrow> ('k \<rightharpoonup> 'v)" where
  "FromEntries_loop [] m = m"
| "FromEntries_loop ((k, v) # es) m = FromEntries_loop es (m(k \<mapsto> v))"

definition FromEntries :: "('k \<times> 'v) list \<Rightarrow> ('k \<rightharpoonup> 'v)" where
  "FromEntries es = FromEntries_loop es Map.empty"

section \<open>Predicates\<close>

text \<open>The values that reflection distinguishes here: nil or the length of channels, maps and slices, nil
  or the target of pointers and interfaces, nil functions, and plain values with their zero value.\<close>

datatype go_val =
    VNil
  | VChan "nat option" | VMap "nat option" | VSlice "nat option"
  | VFunc bool | VUnsafePointer bool
  | VPtr "go_val option"
  | VInt int | VBool bool | VString string
  | VStruct "go_val list"

definition Not :: "('e \<Rightarrow> bool) \<Rightarrow> 'e \<Rightarrow> bool" where
  "Not f e \<longleftrightarrow> \<not> f e"

definition NotI :: "(nat \<Rightarrow> 'e \<Rightarrow> bool) \<Rightarrow> nat \<Rightarrow> 'e \<Rightarrow> bool" where
  "NotI f i e \<longleftrightarrow> \<not> f i e"

fun NilI :: "nat \<Rightarrow> go_val \<Rightarrow> bool" where
  "NilI i VNil \<longleftrightarrow> True"
| "NilI i (VChan x) \<longleftrightarrow> x = None"
| "NilI i (VMap x) \<longleftrightarrow> x = None"
| "NilI i (VSlice x) \<longleftrightarrow> x = None"
| "NilI i (VFunc isnil) \<longleftrightarrow> isnil"
| "NilI i (VUnsafePointer isnil) \<longleftrightarrow> isnil"
| "NilI i (VPtr x) \<longleftrightarrow> x = None"
| "NilI i _ \<longleftrightarrow> False"

definition Nil_pred :: "go_val \<Rightarrow> bool" where
  "Nil_pred e = NilI 0 e"

text \<open>\<^verbatim>\<open>reflect.DeepEqual(e, zero)\<close>: the fields of a struct are zero.\<close>

fun is_zero :: "go_val \<Rightarrow> bool" where
  "is_zero VNil \<longleftrightarrow> True"
| "is_zero (VChan x) \<longleftrightarrow> x = None"
| "is_zero (VMap x) \<longleftrightarrow> x = None"
| "is_zero (VSlice x) \<longleftrightarrow> x = None"
| "is_zero (VFunc isnil) \<longleftrightarrow> isnil"
| "is_zero (VUnsafePointer isnil) \<longleftrightarrow> isnil"
| "is_zero (VPtr x) \<longleftrightarrow> x = None"
| "is_zero (VInt n) \<longleftrightarrow> n = 0"
| "is_zero (VBool b) \<longleftrightarrow> \<not> b"
| "is_zero (VString s) \<longleftrightarrow> s = []"
| "is_zero (VStruct fs) \<longleftrightarrow> (\<forall>f \<in> set fs. is_zero f)"

fun EmptyI :: "nat \<Rightarrow> go_val \<Rightarrow> bool" where
  "EmptyI i VNil \<longleftrightarrow> True"
| "EmptyI i (VChan x) \<longleftrightarrow> (case x of None \<Rightarrow> True | Some n \<Rightarrow> n = 0)"
| "EmptyI i (VMap x) \<longleftrightarrow> (case x of None \<Rightarrow> True | Some n \<Rightarrow> n = 0)"
| "EmptyI i (VSlice x) \<longleftrightarrow> (case x of None \<Rightarrow> True | Some n \<Rightarrow> n = 0)"
| "EmptyI i (VPtr None) \<longleftrightarrow> True"
| "EmptyI i (VPtr (Some e)) \<longleftrightarrow> EmptyI 0 e"
| "EmptyI i e \<longleftrightarrow> is_zero e"

definition Empty :: "go_val \<Rightarrow> bool" where
  "Empty e = EmptyI 0 e"

section \<open>Pointers\<close>

text \<open>A pointer is its value, or none when it is nil (\<^verbatim>\<open>ptr/ptr.go\<close>). \<open>sprint\<close> is \<^verbatim>\<open>fmt.Sprintf("%v", v)\<close> and \<open>zero\<close> the zero value of the type.\<close>

definition FormatPtr :: "('a \<Rightarrow> string) \<Rightarrow> 'a option \<Rightarrow> string" where
  "FormatPtr sprint p = (case p of None \<Rightarrow> ''<nil>'' | Some v \<Rightarrow> sprint v)"

definition ToPtr :: "'a \<Rightarrow> 'a option" where "ToPtr v = Some v"

definition ToValue :: "'a \<Rightarrow> 'a option \<Rightarrow> 'a" where
  "ToValue zero p = (case p of None \<Rightarrow> zero | Some v \<Rightarrow> v)"

lemma pointers_read_back: "ToValue zero (ToPtr v) = v" "FormatPtr sprint (ToPtr v) = sprint v"
  by (simp_all add: ToValue_def ToPtr_def FormatPtr_def)

section \<open>Equivalence with the list functions\<close>

lemma FilterI_loop: "FilterI_loop p i s acc = acc @ map snd (filter (\<lambda>(j, e). p j e) (enumerate i s))"
  by (induction p i s acc rule: FilterI_loop.induct) auto

lemma MapI_loop:
  "length mapped = i + length s \<Longrightarrow>
   MapI_loop f i s mapped = take i mapped @ map (\<lambda>(j, e). f j e) (enumerate i s)"
proof (induction f i s mapped rule: MapI_loop.induct)
  case (2 f i e s mapped)
  then have "MapI_loop f i (e # s) mapped = take (Suc i) (mapped[i := f i e]) @ map (\<lambda>(j, e). f j e) (enumerate (Suc i) s)"
    by simp
  also have "take (Suc i) (mapped[i := f i e]) = take i mapped @ [f i e]"
    using 2(2) by (simp add: take_Suc_conv_app_nth)
  finally show ?case by simp
qed simp

lemma FlatMapI_loop: "FlatMapI_loop f i s acc = acc @ concat (map (\<lambda>(j, e). f j e) (enumerate i s))"
  by (induction f i s acc rule: FlatMapI_loop.induct) auto

lemma enumerate_value: "map (\<lambda>(j, e). f e) (enumerate i s) = map f s"
  "map snd (filter (\<lambda>(j, e). p e) (enumerate i s)) = filter p s"
  by (induction s arbitrary: i) auto

lemma Filter_is_filter: "Filter p s = filter p s"
  by (simp add: Filter_def FilterI_def FilterI_loop enumerate_value)

text \<open>C36. \<open>Filter\<close>, \<open>Map\<close> and \<open>FlatMap\<close> are the functions of their name on lists, and the variants with
  an index apply the callback to each element with its position.\<close>

theorem slices_are_list_functions:
  "Filter p s = filter p s \<and> Map z f s = map f s \<and> FlatMap g s = concat (map g s) \<and>
   FilterI pI s = map snd (filter (\<lambda>(i, e). pI i e) (enumerate 0 s)) \<and>
   MapI z fI s = map (\<lambda>(i, e). fI i e) (enumerate 0 s) \<and>
   FlatMapI gI s = concat (map (\<lambda>(i, e). gI i e) (enumerate 0 s))"
proof (intro conjI)
  show "Filter p s = filter p s" by (rule Filter_is_filter)
  show "Map z f s = map f s" by (simp add: Map_def MapI_def MapI_loop enumerate_value)
  show "FlatMap g s = concat (map g s)" by (simp add: FlatMap_def FlatMapI_def FlatMapI_loop enumerate_value)
qed (simp_all add: FilterI_def FilterI_loop MapI_def MapI_loop FlatMapI_def FlatMapI_loop)

lemma MapIE_loop_error:
  "k < length s \<Longrightarrow> f (i + k) (s ! k) = Inl err \<Longrightarrow> (\<And>j. j < k \<Longrightarrow> \<exists>r. f (i + j) (s ! j) = Inr r) \<Longrightarrow>
   MapIE_loop f i s acc = Inl err"
proof (induction s arbitrary: i k acc)
  case (Cons e s)
  show ?case
  proof (cases k)
    case (Suc k')
    obtain r where r: "f i e = Inr r" using Cons.prems(3)[of 0] Suc by auto
    have "MapIE_loop f (Suc i) s (acc[i := r]) = Inl err"
    proof (rule Cons.IH[of k'])
      show "\<And>j. j < k' \<Longrightarrow> \<exists>r. f (Suc i + j) (s ! j) = Inr r" using Cons.prems(3)[of "Suc _"] Suc by simp
    qed (use Cons.prems(1,2) Suc in auto)
    then show ?thesis using r by simp
  qed (use Cons.prems(2) in simp)
qed simp

lemma FlatMapIE_loop_error:
  "k < length s \<Longrightarrow> f (i + k) (s ! k) = Inl err \<Longrightarrow> (\<And>j. j < k \<Longrightarrow> \<exists>r. f (i + j) (s ! j) = Inr r) \<Longrightarrow>
   FlatMapIE_loop f i s acc = Inl err"
proof (induction s arbitrary: i k acc)
  case (Cons e s)
  show ?case
  proof (cases k)
    case (Suc k')
    obtain r where r: "f i e = Inr r" using Cons.prems(3)[of 0] Suc by auto
    have "FlatMapIE_loop f (Suc i) s (acc @ r) = Inl err"
    proof (rule Cons.IH[of k'])
      show "\<And>j. j < k' \<Longrightarrow> \<exists>r. f (Suc i + j) (s ! j) = Inr r" using Cons.prems(3)[of "Suc _"] Suc by simp
    qed (use Cons.prems(1,2) Suc in auto)
    then show ?thesis using r by simp
  qed (use Cons.prems(2) in simp)
qed simp

lemma MapIE_loop_ok: "MapIE_loop (\<lambda>i e. Inr (f i e)) i s acc = Inr (MapI_loop f i s acc)"
  by (induction f i s acc rule: MapI_loop.induct) auto

lemma FlatMapIE_loop_ok: "FlatMapIE_loop (\<lambda>i e. Inr (f i e)) i s acc = Inr (FlatMapI_loop f i s acc)"
  by (induction f i s acc rule: FlatMapI_loop.induct) auto

text \<open>\<open>MapIE\<close> and \<open>FlatMapIE\<close> agree with \<open>MapI\<close> and \<open>FlatMapI\<close> when no callback fails, and otherwise
  return the error of the first element whose callback fails, and no result.\<close>

lemma mapping_stops_at_first_error:
  "MapIE z (\<lambda>i e. Inr (f i e)) s = Inr (MapI z f s) \<and> FlatMapIE (\<lambda>i e. Inr (g i e)) s = Inr (FlatMapI g s) \<and>
   (k < length s \<and> fE k (s ! k) = Inl err \<and> (\<forall>j < k. \<exists>r. fE j (s ! j) = Inr r) \<longrightarrow> MapIE z fE s = Inl err) \<and>
   (k < length s \<and> gE k (s ! k) = Inl err \<and> (\<forall>j < k. \<exists>r. gE j (s ! j) = Inr r) \<longrightarrow> FlatMapIE gE s = Inl err)"
  using MapIE_loop_error[of k s fE 0 err] FlatMapIE_loop_error[of k s gE 0 err]
  by (auto simp: MapIE_def MapI_def FlatMapIE_def FlatMapI_def MapIE_loop_ok FlatMapIE_loop_ok)

lemma mapping_stops_at_first_error_witness:
  "MapIE 0 (\<lambda>i e. if e = 0 then Inl i else Inr (10 div e)) [5, 0, 0::nat] = Inl (1::nat)"
proof -
  let ?f = "\<lambda>i e. if e = 0 then Inl i else Inr (10 div e) :: nat + nat" and ?s = "[5, 0, 0::nat]"
  have "1 < length ?s \<and> ?f 1 (?s ! 1) = Inl 1 \<and> (\<forall>j < 1. \<exists>r. ?f j (?s ! j) = Inr r)" by simp
  then show ?thesis using mapping_stops_at_first_error[where s = ?s and k = 1 and fE = ?f and err = 1] by blast
qed

text \<open>The positions after the first one that the callback accepts, in order.\<close>

definition accepted :: "(nat \<Rightarrow> 'e \<Rightarrow> 'r \<times> bool) \<Rightarrow> 'e list \<Rightarrow> nat \<Rightarrow> nat list" where
  "accepted f s n = filter (\<lambda>i. snd (f i (s ! i))) [1..<n]"

lemma FindLastMapI_loop:
  "FindLastMapI_loop z f s k =
     (if accepted f s (Suc k) = [] then (z, -1)
      else let i = last (accepted f s (Suc k)) in (fst (f i (s ! i)), int i))"
  by (induction k) (auto simp: accepted_def case_prod_beta Let_def)

text \<open>\<open>FindLastMapI\<close> never looks at the first element: if no element after it is accepted it reports
  that nothing was found, and otherwise it returns the value and position of the last accepted one.\<close>

lemma find_last_skips_first:
  "FindLastMapI z f s =
     (if accepted f s (length s) = [] then (z, -1)
      else let i = last (accepted f s (length s)) in (fst (f i (s ! i)), int i))"
  by (cases s) (simp_all add: FindLastMapI_def FindLastMapI_loop accepted_def Let_def)

lemma FindMapI_loop_first:
  "k < length s \<Longrightarrow> f (i + k) (s ! k) = (v, True) \<Longrightarrow> (\<And>j. j < k \<Longrightarrow> \<not> snd (f (i + j) (s ! j))) \<Longrightarrow>
   FindMapI_loop z f i s = (v, int (i + k))"
proof (induction s arbitrary: i k)
  case (Cons e s)
  show ?case
  proof (cases k)
    case (Suc k')
    have "\<not> snd (f i e)" using Cons.prems(3)[of 0] Suc by simp
    moreover have "FindMapI_loop z f (Suc i) s = (v, int (Suc i + k'))"
    proof (rule Cons.IH)
      show "\<And>j. j < k' \<Longrightarrow> \<not> snd (f (Suc i + j) (s ! j))" using Cons.prems(3)[of "Suc _"] Suc by simp
    qed (use Cons.prems(1,2) Suc in auto)
    ultimately show ?thesis using Suc by (simp add: case_prod_beta)
  qed (use Cons.prems(2) in simp)
qed simp

section \<open>Maps and predicates\<close>

lemma FromEntries_loop: "FromEntries_loop es m = m ++ map_of (rev es)"
  by (induction es arbitrary: m) (auto simp: fun_eq_iff map_add_def split: option.splits)

lemma maps_Filter_loop: "maps_Filter_loop p es m = m ++ map_of (rev (filter p es))"
  by (induction es arbitrary: m) (auto simp: fun_eq_iff map_add_def split: option.splits)

lemma MapE_loop_ok: "MapE_loop (\<lambda>e. Inr (f e)) es m = Inr (m ++ map_of (rev (map f es)))"
  by (induction es arbitrary: m) (auto simp: fun_eq_iff map_add_def split: prod.splits option.splits)

lemma map_of_rev_distinct: "distinct (map fst xs) \<Longrightarrow> map_of (rev xs) = map_of xs"
  by (subst map_of_inject_set) (simp_all add: rev_map[symmetric])

text \<open>Turning a map into entries and back gives the map, filtering keeps exactly the accepted
  entries, and mapping with a function that keeps different keys different does not depend on the
  order in which Go iterates over the map.\<close>

lemma maps_order_independent:
  assumes "distinct (map fst order)" "m = map_of order" "distinct (map fst order')" "map_of order' = m"
    and "inj_on (fst \<circ> f) (set order)"
  shows "FromEntries (ToSlice order) = m \<and>
     (\<forall>k v. maps_Filter order p k = Some v \<longleftrightarrow> m k = Some v \<and> p (k, v)) \<and> maps_Map order f = maps_Map order' f"
proof (intro conjI)
  note rv = map_of_rev_distinct
  show "FromEntries (ToSlice order) = m" using assms(1,2) rv by (simp add: FromEntries_def ToSlice_def FromEntries_loop)
  have df: "distinct (map fst (filter p order))" using assms(1) by (rule distinct_map_filter)
  then show "\<forall>k v. maps_Filter order p k = Some v \<longleftrightarrow> m k = Some v \<and> p (k, v)"
    using assms(1,2) by (auto simp: maps_Filter_def maps_Filter_loop rv[OF df])
  have so: "set order' = set order" using assms(1-4) by (metis map_of_inject_set)
  have "distinct (map fst (map f order))"
    using assms(1,5) by (simp add: distinct_map comp_inj_on o_def)
  moreover have "distinct (map fst (map f order'))"
    using assms(3,5) so by (simp add: distinct_map comp_inj_on o_def)
  ultimately have "map_of (rev (map f order)) = map_of (rev (map f order'))"
    using so map_of_inject_set[of "map f order" "map f order'"] rv[of "map f order"] rv[of "map f order'"] by simp
  then show "maps_Map order f = maps_Map order' f" by (simp add: maps_Map_def MapE_def MapE_loop_ok)
qed

lemma maps_order_independent_witness:
  "maps_Map [(1::nat, ''a''), (2, ''b'')] (\<lambda>(k, v). (v, k)) = maps_Map [(2, ''b''), (1, ''a'')] (\<lambda>(k, v). (v, k))"
  using maps_order_independent[of "[(1::nat, ''a''), (2, ''b'')]" "map_of [(1, ''a''), (2, ''b'')]" "[(2, ''b''), (1, ''a'')]" "\<lambda>(k, v). (v, k)"]
  by (simp add: fun_eq_iff)

text \<open>Every nil value is empty, a zero value is empty, and a pointer is empty exactly when it is nil
  or points to an empty value.\<close>

lemma nil_and_zero_are_empty:
  "(Nil_pred e \<longrightarrow> Empty e) \<and> (is_zero e \<longrightarrow> Empty e) \<and>
   (Empty (VPtr x) \<longleftrightarrow> (case x of None \<Rightarrow> True | Some d \<Rightarrow> Empty d)) \<and> Not (Not q) = q"
  by (cases e; cases x) (auto simp: Nil_pred_def Empty_def Not_def fun_eq_iff split: option.splits)

lemma nil_and_zero_are_empty_witness: "Nil_pred (VSlice None) \<and> Empty (VSlice None)"
proof -
  have "Nil_pred (VSlice None)" by (simp add: Nil_pred_def)
  then show ?thesis using nil_and_zero_are_empty[of "VSlice None"] by blast
qed

end
