(* ===== verification/SyncMap.thy ===== *)
theory SyncMap
  imports Prelude
begin

text \<open>
  Package \<^verbatim>\<open>sync\<close>, files \<^verbatim>\<open>map.go\<close> and \<^verbatim>\<open>sync.go\<close>. The contents of \<^verbatim>\<open>sync.Map\<close> are a map; its operations
  are atomic. \<open>LoadOrStoreFunc\<close> takes several atomic steps, so it is a program counter per goroutine
  and a step relation over all of them, with the mutex as its owner. The other methods, and a round of
  \<^verbatim>\<open>Range\<close> with the entries in the order in which it visits them, are functions.
\<close>

section \<open>Atomic operations\<close>

type_synonym ('k, 'v) contents = "'k \<rightharpoonup> 'v"

definition NewMap :: "('k, 'v) contents" where
  "NewMap = Map.empty"

definition Store :: "'k \<Rightarrow> 'v \<Rightarrow> ('k, 'v) contents \<Rightarrow> ('k, 'v) contents" where
  "Store key value m = m(key \<mapsto> value)"

definition Load :: "'v \<Rightarrow> 'k \<Rightarrow> ('k, 'v) contents \<Rightarrow> 'v \<times> bool" where
  "Load zero key m = (case m key of None \<Rightarrow> (zero, False) | Some v \<Rightarrow> (v, True))"

definition LoadOrStore :: "'k \<Rightarrow> 'v \<Rightarrow> ('k, 'v) contents \<Rightarrow> ('v \<times> bool) \<times> ('k, 'v) contents" where
  "LoadOrStore key store m =
     (case m key of Some v \<Rightarrow> ((v, True), m) | None \<Rightarrow> ((store, False), m(key \<mapsto> store)))"

definition Delete :: "'k \<Rightarrow> ('k, 'v) contents \<Rightarrow> ('k, 'v) contents" where
  "Delete key m = m(key := None)"

text \<open>\<open>LoadOrStoreFunc\<close> for a call that no other one interrupts; a generator that panics stores nothing.\<close>

definition LoadOrStoreFunc :: "'k \<Rightarrow> ('k \<Rightarrow> 'v go) \<Rightarrow> ('k, 'v) contents \<Rightarrow> 'v go \<times> ('k, 'v) contents" where
  "LoadOrStoreFunc key generator m =
     (case m key of
        Some v \<Rightarrow> (Ret v, m)
      | None \<Rightarrow> (case generator key of Ret v \<Rightarrow> (Ret v, Store key v m) | Panic p \<Rightarrow> (Panic p, m)))"

text \<open>\<open>Range\<close> visits entries until the callback says stop; \<open>st\<close> is what the callback has built.\<close>

fun Range_loop :: "('k \<Rightarrow> 'v \<Rightarrow> 'st \<Rightarrow> bool \<times> 'st) \<Rightarrow> ('k \<times> 'v) list \<Rightarrow> 'st \<Rightarrow> 'st" where
  "Range_loop f [] st = st"
| "Range_loop f ((k, v) # es) st = (let (go, st') = f k v st in if go then Range_loop f es st' else st')"

definition Clear :: "('k \<times> 'v) list \<Rightarrow> ('k, 'v) contents \<Rightarrow> ('k, 'v) contents" where
  "Clear visited m = Range_loop (\<lambda>k v st. (True, Delete k st)) visited m"

definition Values :: "('k \<times> 'v) list \<Rightarrow> 'v list" where
  "Values visited = Range_loop (\<lambda>k v st. (True, st @ [v])) visited []"

definition Keys :: "('k \<times> 'v) list \<Rightarrow> 'k list" where
  "Keys visited = Range_loop (\<lambda>k v st. (True, st @ [k])) visited []"

text \<open>\<^verbatim>\<open>Sleep\<close>: the timer or the context, whichever is ready; a context that is done carries its cause.\<close>

definition Sleep :: "bool \<Rightarrow> 'e option \<Rightarrow> 'e option option" where
  "Sleep timerFired ctxCause =
     (case ctxCause of Some e \<Rightarrow> Some (Some e) | None \<Rightarrow> if timerFired then Some None else None)"

section \<open>The steps of LoadOrStoreFunc\<close>

datatype ('k, 'v) pc =
    Idle | Loading 'k | Waiting 'k | Locked 'k | Generating 'k | Storing 'k 'v | Returned 'k 'v

text \<open>The state: the map, the owner of the mutex, the goroutines, and how often the generator was called
  for each key.\<close>

record ('k, 'v) sync_state =
  sm_map :: "('k, 'v) contents"
  sm_mutex :: "nat option"
  sm_pc :: "nat \<Rightarrow> ('k, 'v) pc"
  sm_calls :: "'k \<Rightarrow> nat"

text \<open>\<open>quiet\<close> says that nobody uses \<open>LoadOrStore\<close> at the same time; nobody stores or deletes.\<close>

inductive los_step :: "bool \<Rightarrow> ('k, 'v) sync_state \<Rightarrow> ('k, 'v) sync_state \<Rightarrow> bool" for quiet where
  call: "sm_pc s i = Idle \<Longrightarrow> los_step quiet s (s\<lparr>sm_pc := (sm_pc s)(i := Loading k)\<rparr>)"
| hit: "sm_pc s i = Loading k \<Longrightarrow> sm_map s k = Some v \<Longrightarrow>
     los_step quiet s (s\<lparr>sm_pc := (sm_pc s)(i := Returned k v)\<rparr>)"
| miss: "sm_pc s i = Loading k \<Longrightarrow> sm_map s k = None \<Longrightarrow>
     los_step quiet s (s\<lparr>sm_pc := (sm_pc s)(i := Waiting k)\<rparr>)"
| lock: "sm_pc s i = Waiting k \<Longrightarrow> sm_mutex s = None \<Longrightarrow>
     los_step quiet s (s\<lparr>sm_pc := (sm_pc s)(i := Locked k), sm_mutex := Some i\<rparr>)"
| hit_locked: "sm_pc s i = Locked k \<Longrightarrow> sm_map s k = Some v \<Longrightarrow>
     los_step quiet s (s\<lparr>sm_pc := (sm_pc s)(i := Returned k v), sm_mutex := None\<rparr>)"
| miss_locked: "sm_pc s i = Locked k \<Longrightarrow> sm_map s k = None \<Longrightarrow>
     los_step quiet s (s\<lparr>sm_pc := (sm_pc s)(i := Generating k)\<rparr>)"
| generate: "sm_pc s i = Generating k \<Longrightarrow>
     los_step quiet s (s\<lparr>sm_pc := (sm_pc s)(i := Storing k v), sm_calls := (sm_calls s)(k := Suc (sm_calls s k))\<rparr>)"
| store: "sm_pc s i = Storing k v \<Longrightarrow>
     los_step quiet s (s\<lparr>sm_pc := (sm_pc s)(i := Returned k v), sm_map := Store k v (sm_map s), sm_mutex := None\<rparr>)"
| other: "\<not> quiet \<Longrightarrow> los_step quiet s (s\<lparr>sm_map := snd (LoadOrStore k v (sm_map s))\<rparr>)"
| again: "sm_pc s i = Returned k v \<Longrightarrow> los_step quiet s (s\<lparr>sm_pc := (sm_pc s)(i := Idle)\<rparr>)"

definition los_start :: "('k, 'v) contents \<Rightarrow> ('k, 'v) sync_state" where
  "los_start m = \<lparr>sm_map = m, sm_mutex = None, sm_pc = \<lambda>_. Idle, sm_calls = \<lambda>_. 0\<rparr>"

fun in_section :: "('k, 'v) pc \<Rightarrow> bool" where
  "in_section (Locked k) = True"
| "in_section (Generating k) = True"
| "in_section (Storing k v) = True"
| "in_section _ = False"

text \<open>The owner of the mutex is about to store a value for the key.\<close>

definition storing :: "'k \<Rightarrow> ('k, 'v) sync_state \<Rightarrow> bool" where
  "storing k s \<longleftrightarrow> (\<exists>i v. sm_mutex s = Some i \<and> sm_pc s i = Storing k v)"

text \<open>The owner of the mutex is the one goroutine between the lock and the unlock; a key whose generator
  was called has a value, or its value is about to be stored.\<close>

definition los_inv :: "('k, 'v) sync_state \<Rightarrow> bool" where
  "los_inv s \<longleftrightarrow>
     (\<forall>i. in_section (sm_pc s i) \<longrightarrow> sm_mutex s = Some i) \<and>
     (\<forall>k i. sm_pc s i = Generating k \<longrightarrow> sm_calls s k = 0) \<and>
     (\<forall>k. sm_calls s k \<le> 1) \<and> (\<forall>k. sm_calls s k \<noteq> 0 \<longrightarrow> sm_map s k \<noteq> None \<or> storing k s)"

lemma los_invD:
  assumes "los_inv s"
  shows "sm_pc s i = Locked k \<Longrightarrow> sm_mutex s = Some i" "sm_pc s i = Generating k \<Longrightarrow> sm_mutex s = Some i"
    "sm_pc s i = Storing k v \<Longrightarrow> sm_mutex s = Some i" "sm_pc s i = Generating k \<Longrightarrow> sm_calls s k = 0"
    "in_section (sm_pc s i) \<Longrightarrow> sm_mutex s = Some i"
    "sm_calls s k \<noteq> 0 \<Longrightarrow> sm_map s k \<noteq> None \<or> storing k s"
  using assms by (auto simp: los_inv_def)

lemma los_inv_outside:
  assumes "los_inv s" "\<not> in_section (sm_pc s i)" "\<not> in_section x"
  shows "los_inv (s\<lparr>sm_pc := (sm_pc s)(i := x)\<rparr>)"
proof -
  have "storing k (s\<lparr>sm_pc := (sm_pc s)(i := x)\<rparr>) = storing k s" for k
    using assms(2,3) by (auto simp: storing_def)
  then show ?thesis using assms by (auto simp: los_inv_def)
qed

lemma los_step_inv: "los_step quiet s t \<Longrightarrow> los_inv s \<Longrightarrow> los_inv t"
proof (induction rule: los_step.induct)
  case (lock s i k)
  have "\<not> in_section (sm_pc s j)" "\<not> storing k' s" for j k' using los_invD(5)[OF lock(3), of j] lock(2) by (auto simp: storing_def)
  then show ?case using lock(2,3) by (auto simp: los_inv_def)
next
  case (hit_locked s i k v)
  note m = los_invD(1)[OF hit_locked(3,1)]
  have "\<not> in_section (sm_pc s j)" if "j \<noteq> i" for j using los_invD(5)[OF hit_locked(3), of j] m that by auto
  moreover have "\<not> storing k' s" for k' using m hit_locked(1) by (auto simp: storing_def)
  ultimately show ?case using hit_locked(3) by (auto simp: los_inv_def)
next
  case (miss_locked s i k)
  note m = los_invD(1)[OF miss_locked(3,1)]
  have ns: "\<not> storing k' s" for k' using m miss_locked(1) by (auto simp: storing_def)
  then have "sm_calls s k = 0" using los_invD(6)[OF miss_locked(3), of k] miss_locked(2) by auto
  then show ?case using miss_locked(3) ns m by (auto simp: los_inv_def)
next
  case (generate s i k v)
  note m = los_invD(2)[OF generate(2,1)]
  have "\<not> in_section (sm_pc s j)" if "j \<noteq> i" for j using los_invD(5)[OF generate(2), of j] m that by auto
  moreover have "\<not> storing k' s" for k' using m generate(1) by (auto simp: storing_def)
  moreover have "storing k (s\<lparr>sm_pc := (sm_pc s)(i := Storing k v), sm_calls := (sm_calls s)(k := Suc (sm_calls s k))\<rparr>)"
    using m by (simp add: storing_def)
  ultimately show ?case using generate(2) m los_invD(4)[OF generate(2,1)]
    by (auto simp: los_inv_def) (metis in_section.simps(2))
next
  case (store s i k v)
  note m = los_invD(3)[OF store(2,1)]
  have "\<not> in_section (sm_pc s j)" if "j \<noteq> i" for j using los_invD(5)[OF store(2), of j] m that by auto
  moreover have "storing k' s \<Longrightarrow> k' = k" for k' using m store(1) by (auto simp: storing_def)
  ultimately show ?case using store(2) by (auto simp: los_inv_def Store_def) metis
next
  case (other s k v)
  have "storing k' (s\<lparr>sm_map := m\<rparr>) = storing k' s" for k' m by (simp add: storing_def)
  then show ?case using other by (auto simp: los_inv_def LoadOrStore_def split: option.splits)
qed (auto intro: los_inv_outside)

lemma los_steps_inv: "(los_step quiet)\<^sup>*\<^sup>* (los_start m) s \<Longrightarrow> los_inv s"
proof (induction rule: rtranclp_induct)
  case base
  show ?case by (simp add: los_inv_def los_start_def)
qed (rule los_step_inv)

text \<open>Without other writers, a returned value is the one in the map, and a key for which the generator
  runs is absent.\<close>

definition los_agree :: "('k, 'v) sync_state \<Rightarrow> bool" where
  "los_agree s \<longleftrightarrow> (\<forall>i k v. sm_pc s i = Returned k v \<longrightarrow> sm_map s k = Some v) \<and>
     (\<forall>i k. sm_pc s i = Generating k \<longrightarrow> sm_map s k = None) \<and> (\<forall>i k v. sm_pc s i = Storing k v \<longrightarrow> sm_map s k = None)"

lemma los_step_agree:
  assumes "los_step True s t" "los_inv s" "los_agree s"
  shows "los_agree t"
  using assms
proof (induction rule: los_step.induct)
  case (store s i k v)
  note m = los_invD(3)[OF store(2,1)]
  have "\<not> in_section (sm_pc s j)" if "j \<noteq> i" for j using los_invD(5)[OF store(2), of j] m that by auto
  then have "sm_pc s j \<noteq> Generating k'" "sm_pc s j \<noteq> Storing k' v'" if "j \<noteq> i" for j k' v' using that by force+
  moreover have "sm_pc s j \<noteq> Returned k v'" for j v' using store(1,3) by (fastforce simp: los_agree_def)
  ultimately show ?case using store(3) by (auto simp: los_agree_def Store_def split: if_splits)
qed (auto simp: los_agree_def split: if_splits)

lemma los_steps_agree: "(los_step True)\<^sup>*\<^sup>* (los_start m) s \<Longrightarrow> los_agree s"
proof (induction rule: rtranclp_induct)
  case base
  show ?case by (simp add: los_agree_def los_start_def)
next
  case (step s t)
  then show ?case using los_step_agree los_steps_inv by blast
qed



section \<open>Sequential behaviour\<close>

lemma Values_Keys: "Values es = map snd es" "Keys es = map fst es"
proof -
  have "Range_loop (\<lambda>k v st. (True, st @ [v])) es acc = acc @ map snd es" for acc by (induction es arbitrary: acc) auto
  then show "Values es = map snd es" by (simp add: Values_def)
  have "Range_loop (\<lambda>k v st. (True, st @ [k])) es acc = acc @ map fst es" for acc by (induction es arbitrary: acc) auto
  then show "Keys es = map fst es" by (simp add: Keys_def)
qed

lemma Clear_visited: "Clear es m = (\<lambda>k. if k \<in> fst ` set es then None else m k)"
  unfolding Clear_def by (induction es arbitrary: m) (force simp: Delete_def fun_eq_iff)+

lemma Clear_all: "fst ` set es = dom m \<Longrightarrow> Clear es m = NewMap"
  by (auto simp: Clear_visited NewMap_def fun_eq_iff)

section \<open>Maps as caches\<close>

text \<open>A map that answers calls of a function, each stored under the key of its argument: it holds nothing but results
  of the function. The client promises that arguments with one key have one result.\<close>

definition cached :: "('a \<Rightarrow> 'k) \<Rightarrow> ('a \<Rightarrow> 'v go) \<Rightarrow> 'a set \<Rightarrow> ('k, 'v) contents \<Rightarrow> bool" where
  "cached key gen A m \<longleftrightarrow> (\<forall>a \<in> A. \<forall>v. m (key a) = Some v \<longrightarrow> gen a = Ret v)"

fun lookups :: "('a \<Rightarrow> 'k) \<Rightarrow> ('a \<Rightarrow> 'v go) \<Rightarrow> 'a list \<Rightarrow> ('k, 'v) contents \<Rightarrow> 'v go list" where
  "lookups key gen [] m = []"
| "lookups key gen (a # as) m =
     (let (r, m') = LoadOrStoreFunc (key a) (\<lambda>_. gen a) m in r # lookups key gen as m')"

locale memo =
  fixes key :: "'a \<Rightarrow> 'k" and gen :: "'a \<Rightarrow> 'v go" and A :: "'a set"
  assumes same_key: "a \<in> A \<Longrightarrow> b \<in> A \<Longrightarrow> key a = key b \<Longrightarrow> gen a = gen b"
begin

lemma cached_new: "cached key gen A NewMap"
  by (simp add: cached_def NewMap_def)

lemma lookup:
  assumes "cached key gen A m" "a \<in> A"
  shows "fst (LoadOrStoreFunc (key a) (\<lambda>_. gen a) m) = gen a" "cached key gen A (snd (LoadOrStoreFunc (key a) (\<lambda>_. gen a) m))"
proof -
  show "fst (LoadOrStoreFunc (key a) (\<lambda>_. gen a) m) = gen a"
    using assms by (auto simp: LoadOrStoreFunc_def cached_def split: option.split go.split)
  have "gen b = Ret v" if "gen a = Ret v" "b \<in> A" "key b = key a" for b v using same_key[OF that(2) assms(2) that(3)] that(1) by simp
  then have "cached key gen A (Store (key a) v m)" if "gen a = Ret v" for v
    using assms(1) that by (simp add: cached_def Store_def)
  then show "cached key gen A (snd (LoadOrStoreFunc (key a) (\<lambda>_. gen a) m))"
    using assms(1) by (cases "m (key a)"; cases "gen a") (simp_all add: LoadOrStoreFunc_def)
qed

lemma lookups_are_results: "cached key gen A m \<Longrightarrow> set as \<subseteq> A \<Longrightarrow> lookups key gen as m = map gen as"
proof (induction as arbitrary: m)
  case (Cons a as)
  then show ?case using lookup[of m a] by (simp add: case_prod_beta)
qed simp

end

end
