(* ===== verification/Errors.thy ===== *)
theory Errors
  imports Prelude
begin

text \<open>
  Package \<^verbatim>\<open>errors\<close>. An error value is a tree: an error of the framework with its fields and the errors
  it wraps, an error of another type that unwraps to one error (or to nil) or to several, or one that
  wraps nothing. Program counters are resolved to frames when a stack is captured; writing goes to a
  string builder, which does not fail. What \<^verbatim>\<open>fmt.Errorf\<close> prints for a format is an argument, a function
  of the texts of the arguments.
\<close>

section \<open>Data\<close>

record frame =
  fr_Function :: string
  fr_File :: string
  fr_Line :: nat

record fw_fields =
  fe_Code :: string
  fe_Message :: string
  fe_shortErrorString :: string
  fe_hideStack :: bool
  fe_stack :: "frame list"
  fe_codeKey :: string
  fe_messageKey :: string
  fe_stackKey :: string

datatype error =
    Fw fw_fields "error list"
  | Wraps string string "error option"
  | Joins string string "error list"
  | Plain string string

text \<open>The default keys, which package variables hold.\<close>

record error_keys =
  defaultCodeKey :: string
  defaultMessageKey :: string
  defaultStackKey :: string

definition init_keys :: error_keys where
  "init_keys = \<lparr>defaultCodeKey = ''kind'', defaultMessageKey = ''message'', defaultStackKey = ''stack''\<rparr>"

definition SetDefaultCodeKey :: "string \<Rightarrow> error_keys \<Rightarrow> error_keys go" where
  "SetDefaultCodeKey key ks = (if key = [] then Panic ''code key cannot be empty'' else Ret (ks\<lparr>defaultCodeKey := key\<rparr>))"

definition SetDefaultMessageKey :: "string \<Rightarrow> error_keys \<Rightarrow> error_keys" where
  "SetDefaultMessageKey key ks = ks\<lparr>defaultMessageKey := key\<rparr>"

definition SetDefaultStackKey :: "string \<Rightarrow> error_keys \<Rightarrow> error_keys" where
  "SetDefaultStackKey key ks = ks\<lparr>defaultStackKey := key\<rparr>"

definition SetCodeKey :: "string \<Rightarrow> fw_fields \<Rightarrow> fw_fields go" where
  "SetCodeKey key e = (if key = [] then Panic ''code key cannot be empty'' else Ret (e\<lparr>fe_codeKey := key\<rparr>))"

definition SetMessageKey :: "string \<Rightarrow> fw_fields \<Rightarrow> fw_fields" where
  "SetMessageKey key e = e\<lparr>fe_messageKey := key\<rparr>"

definition SetStackKey :: "string \<Rightarrow> fw_fields \<Rightarrow> fw_fields" where
  "SetStackKey key e = e\<lparr>fe_stackKey := key\<rparr>"

section \<open>Unwrapping\<close>

fun UnwrapMulti :: "error \<Rightarrow> error list" where
  "UnwrapMulti (Fw f ws) = ws"
| "UnwrapMulti (Wraps ty m w) = (case w of None \<Rightarrow> [] | Some e \<Rightarrow> [e])"
| "UnwrapMulti (Joins ty m ws) = ws"
| "UnwrapMulti (Plain ty m) = []"

text \<open>\<^verbatim>\<open>errors.As\<close> with a target of type \<^verbatim>\<open>*Error\<close>: the first in depth-first order, if any.\<close>

fun As :: "error \<Rightarrow> (fw_fields \<times> error list) option"
  and As_list :: "error list \<Rightarrow> (fw_fields \<times> error list) option" where
  "As (Fw f ws) = Some (f, ws)"
| "As (Wraps ty m None) = None"
| "As (Wraps ty m (Some e)) = As e"
| "As (Joins ty m ws) = As_list ws"
| "As (Plain ty m) = None"
| "As_list [] = None"
| "As_list (e # es) = (case As e of Some x \<Rightarrow> Some x | None \<Rightarrow> As_list es)"

definition as_has_code :: "string \<Rightarrow> error \<Rightarrow> bool" where
  "as_has_code code err = (case As err of Some (f, _) \<Rightarrow> fe_Code f = code | None \<Rightarrow> False)"

fun IsCode :: "error \<Rightarrow> string \<Rightarrow> bool" and IsCode_list :: "error list \<Rightarrow> string \<Rightarrow> bool" where
  "IsCode (Fw f ws) code \<longleftrightarrow> as_has_code code (Fw f ws) \<or> IsCode_list ws code"
| "IsCode (Wraps ty m None) code \<longleftrightarrow> as_has_code code (Wraps ty m None)"
| "IsCode (Wraps ty m (Some e)) code \<longleftrightarrow> as_has_code code (Wraps ty m (Some e)) \<or> IsCode e code"
| "IsCode (Joins ty m ws) code \<longleftrightarrow> as_has_code code (Joins ty m ws) \<or> IsCode_list ws code"
| "IsCode (Plain ty m) code \<longleftrightarrow> as_has_code code (Plain ty m)"
| "IsCode_list [] code \<longleftrightarrow> False"
| "IsCode_list (e # es) code \<longleftrightarrow> IsCode e code \<or> IsCode_list es code"

text \<open>\<open>AsCode\<close> returns whether it found the code and what it left in the target; \<^verbatim>\<open>As\<close> writes the target
  whenever it finds an error of the framework, with the code or not.\<close>

type_synonym target = "(fw_fields \<times> error list) option"

definition as_target :: "string \<Rightarrow> error \<Rightarrow> target \<Rightarrow> bool \<times> target" where
  "as_target code err t = (case As err of Some x \<Rightarrow> (fe_Code (fst x) = code, Some x) | None \<Rightarrow> (False, t))"

fun AsCode :: "error \<Rightarrow> target \<Rightarrow> string \<Rightarrow> bool \<times> target"
  and AsCode_list :: "error list \<Rightarrow> target \<Rightarrow> string \<Rightarrow> bool \<times> target" where
  "AsCode (Fw f ws) t code =
     (let (ok, t1) = as_target code (Fw f ws) t in if ok then (True, t1) else AsCode_list ws t1 code)"
| "AsCode (Wraps ty m None) t code = as_target code (Wraps ty m None) t"
| "AsCode (Wraps ty m (Some e)) t code =
     (let (ok, t1) = as_target code (Wraps ty m (Some e)) t in if ok then (True, t1) else AsCode e t1 code)"
| "AsCode (Joins ty m ws) t code =
     (let (ok, t1) = as_target code (Joins ty m ws) t in if ok then (True, t1) else AsCode_list ws t1 code)"
| "AsCode (Plain ty m) t code = as_target code (Plain ty m) t"
| "AsCode_list [] t code = (False, t)"
| "AsCode_list (e # es) t code =
     (let (ok, t1) = AsCode e t code in if ok then (True, t1) else AsCode_list es t1 code)"

section \<open>Stack traces\<close>

definition package_prefix :: string where
  "package_prefix = ''github.com/southernlabs-io/go-fw/errors.''"

text \<open>The frames, without those of this package; a line break follows a frame when more frames follow
  in the stack.\<close>

fun self_frames :: "frame list \<Rightarrow> string" where
  "self_frames [] = []"
| "self_frames (f # fs) =
     (if fr_Function f \<noteq> [] \<and> \<not> HasPrefix (fr_Function f) package_prefix
      then fr_Function f @ [CHR 0x0A, CHR 0x09] @ fr_File f @ '':'' @ show_nat (fr_Line f) @
           (if fs \<noteq> [] then [CHR 0x0A] else [])
      else []) @ self_frames fs"

definition SelfStacktrace :: "fw_fields \<Rightarrow> string" where
  "SelfStacktrace e = self_frames (fe_stack e)"

text \<open>The type that the trace names for an error of another package.\<close>

fun type_name :: "error \<Rightarrow> string" where
  "type_name (Fw f ws) = ''*errors.Error''"
| "type_name (Wraps ty m w) = ty"
| "type_name (Joins ty m ws) = ty"
| "type_name (Plain ty m) = ty"

definition dotted :: "string \<Rightarrow> string" where
  "dotted indent = (if indent \<noteq> ''['' then indent @ ''.'' else indent)"

fun wrapped_head :: "error \<Rightarrow> string" where
  "wrapped_head (Fw f ws) = ''] wrapped stacktrace:'' @ [CHR 0x0A] @ SelfStacktrace f"
| "wrapped_head e = ''] wrapped stacktrace not available for error type: '' @ type_name e"

fun writeWrappedStacktrace :: "error \<Rightarrow> string \<Rightarrow> string"
  and write_wrapped :: "nat \<Rightarrow> error list \<Rightarrow> string \<Rightarrow> string" where
  "writeWrappedStacktrace (Fw f ws) indent = write_wrapped 0 ws (dotted indent)"
| "writeWrappedStacktrace (Wraps ty m None) indent = []"
| "writeWrappedStacktrace (Wraps ty m (Some e)) indent = write_wrapped 0 [e] (dotted indent)"
| "writeWrappedStacktrace (Joins ty m ws) indent = write_wrapped 0 ws (dotted indent)"
| "writeWrappedStacktrace (Plain ty m) indent = []"
| "write_wrapped i [] indent = []"
| "write_wrapped i (e # es) indent =
     [CHR 0x0A] @ indent @ show_nat (Suc i) @ wrapped_head e @
     writeWrappedStacktrace e (indent @ show_nat (Suc i)) @ write_wrapped (Suc i) es indent"

definition Stacktrace :: "fw_fields \<Rightarrow> error list \<Rightarrow> string" where
  "Stacktrace f ws = SelfStacktrace f @ writeWrappedStacktrace (Fw f ws) ''[''"

definition buildFullErrorString :: "fw_fields \<Rightarrow> error list \<Rightarrow> string" where
  "buildFullErrorString f ws = fe_shortErrorString f @ [CHR 0x0A] @ ''stacktrace:'' @ [CHR 0x0A] @ Stacktrace f ws"

text \<open>\<open>Error\<close> is short while the error is being wrapped: it is marked, or \<^verbatim>\<open>fmt.Errorf\<close> is on the stack.\<close>

definition Error_string :: "frame list \<Rightarrow> fw_fields \<Rightarrow> error list \<Rightarrow> string" where
  "Error_string stack f ws =
     (if fe_hideStack f then fe_shortErrorString f
      else if \<exists>fr \<in> set stack. fr_Function fr = ''fmt.Errorf'' then fe_shortErrorString f
      else buildFullErrorString f ws)"

section \<open>Creating an error\<close>

text \<open>An argument of \<open>Newf\<close>: a pointer to an error of the framework, or anything else. Each pointer's
  mutex is locked before the text is formatted, so a pointer that occurs twice blocks for ever.\<close>

datatype arg = ArgFw nat fw_fields "error list" | ArgOther string

fun arg_pointers :: "arg list \<Rightarrow> nat list" where
  "arg_pointers [] = []"
| "arg_pointers (ArgFw p f ws # args) = p # arg_pointers args"
| "arg_pointers (ArgOther x # args) = arg_pointers args"

text \<open>The texts of the arguments while their stack traces are hidden.\<close>

fun arg_text :: "frame list \<Rightarrow> arg \<Rightarrow> string" where
  "arg_text stack (ArgFw p f ws) = Error_string stack (f\<lparr>fe_hideStack := True\<rparr>) ws"
| "arg_text stack (ArgOther x) = x"

definition Newf ::
    "error_keys \<Rightarrow> frame list \<Rightarrow> string \<Rightarrow> (string list \<Rightarrow> string) \<Rightarrow> error list \<Rightarrow> arg list \<Rightarrow> (fw_fields \<times> error list) option" where
  "Newf ks stack code format wrapped args =
     (if distinct (arg_pointers args) then
        let message = format (map (arg_text stack) args) in
        Some (\<lparr>fe_Code = code, fe_Message = message,
               fe_shortErrorString = ''{'' @ code @ ''} '' @ message, fe_hideStack = False, fe_stack = stack,
               fe_codeKey = defaultCodeKey ks, fe_messageKey = defaultMessageKey ks,
               fe_stackKey = defaultStackKey ks\<rparr>, wrapped)
      else None)"

definition NewUnknownf ::
    "error_keys \<Rightarrow> frame list \<Rightarrow> (string list \<Rightarrow> string) \<Rightarrow> error list \<Rightarrow> arg list \<Rightarrow> (fw_fields \<times> error list) option" where
  "NewUnknownf ks stack format wrapped args = Newf ks stack ''UNKNOWN'' format wrapped args"

text \<open>\<open>Copy\<close> names the fields it copies.\<close>

definition Copy :: "fw_fields \<Rightarrow> fw_fields" where
  "Copy e =
     \<lparr>fe_Code = fe_Code e, fe_Message = fe_Message e, fe_shortErrorString = [], fe_hideStack = False,
      fe_stack = fe_stack e, fe_codeKey = fe_codeKey e, fe_messageKey = fe_messageKey e,
      fe_stackKey = fe_stackKey e\<rparr>"

section \<open>Structured forms\<close>

definition LogValue :: "fw_fields \<Rightarrow> error list \<Rightarrow> (string \<times> string) list" where
  "LogValue e ws =
     [(fe_codeKey e, fe_Code e)] @
     (if length (fe_messageKey e) > 0 then [(fe_messageKey e, fe_Message e)] else []) @
     (if length (fe_stackKey e) > 0 then [(fe_stackKey e, Stacktrace e ws)] else [])"

text \<open>The mapping that \<open>MarshalJSON\<close> encodes: later entries replace earlier ones of the same key.\<close>

definition MarshalJSON :: "fw_fields \<Rightarrow> error list \<Rightarrow> (string \<rightharpoonup> string)" where
  "MarshalJSON e ws =
     (let m0 = [fe_codeKey e \<mapsto> fe_Code e];
          m1 = (if length (fe_messageKey e) > 0 then m0(fe_messageKey e \<mapsto> fe_Message e) else m0)
      in if length (fe_stackKey e) > 0 then m1(fe_stackKey e \<mapsto> Stacktrace e ws) else m1)"

section \<open>Searching an error tree\<close>

text \<open>All errors of the framework in a tree, in depth-first order.\<close>

fun fw_errors :: "error \<Rightarrow> (fw_fields \<times> error list) list"
  and fw_errors_list :: "error list \<Rightarrow> (fw_fields \<times> error list) list" where
  "fw_errors (Fw f ws) = (f, ws) # fw_errors_list ws"
| "fw_errors (Wraps ty m None) = []"
| "fw_errors (Wraps ty m (Some e)) = fw_errors e"
| "fw_errors (Joins ty m ws) = fw_errors_list ws"
| "fw_errors (Plain ty m) = []"
| "fw_errors_list [] = []"
| "fw_errors_list (e # es) = fw_errors e @ fw_errors_list es"

abbreviation coded :: "string \<Rightarrow> fw_fields \<times> error list \<Rightarrow> bool" where
  "coded code x \<equiv> fe_Code (fst x) = code"

lemma As_first:
  "As e = (case fw_errors e of [] \<Rightarrow> None | x # _ \<Rightarrow> Some x)"
  "As_list es = (case fw_errors_list es of [] \<Rightarrow> None | x # _ \<Rightarrow> Some x)"
  by (induction e and es rule: As_As_list.induct) (auto split: list.splits option.splits)

lemma find_append: "find P (xs @ ys) = (case find P xs of Some x \<Rightarrow> Some x | None \<Rightarrow> find P ys)"
  by (induction xs) auto

lemma find_None_hd: "find P xs = None \<Longrightarrow> xs = y # ys \<Longrightarrow> \<not> P y"
  by (auto split: if_splits)

text \<open>When the first error in the tree has the code, it is the one the search finds.\<close>

lemma as_target_found:
  "as_target code e t = (True, t1) \<Longrightarrow> find (coded code) (fw_errors e) = t1 \<and> t1 \<noteq> None"
  by (auto simp: as_target_def As_first split: list.splits option.splits)

lemma as_target_not_found:
  "as_target code e t = (False, t1) \<Longrightarrow> fw_errors e = x # xs \<Longrightarrow> find (coded code) (fw_errors e) = find (coded code) xs"
  by (auto simp: as_target_def As_first split: list.splits)

lemma AsCode_find:
  "fst (AsCode e t code) = (find (coded code) (fw_errors e) \<noteq> None) \<and>
   (fst (AsCode e t code) \<longrightarrow> snd (AsCode e t code) = find (coded code) (fw_errors e))"
  "fst (AsCode_list es t code) = (find (coded code) (fw_errors_list es) \<noteq> None) \<and>
   (fst (AsCode_list es t code) \<longrightarrow> snd (AsCode_list es t code) = find (coded code) (fw_errors_list es))"
proof (induction e t code and es t code rule: AsCode_AsCode_list.induct)
  case (1 f ws t code)
  then show ?case by (simp add: as_target_def)
next
  case (2 ty m t code)
  then show ?case by (simp add: as_target_def As_first)
next
  case (3 ty m e t code)
  then show ?case
    using as_target_found[of code "Wraps ty m (Some e)" t] by (cases "as_target code (Wraps ty m (Some e)) t") auto
next
  case (4 ty m ws t code)
  then show ?case
    using as_target_found[of code "Joins ty m ws" t] by (cases "as_target code (Joins ty m ws) t") auto
next
  case (5 ty m t code)
  then show ?case by (simp add: as_target_def As_first)
next
  case (7 e es t code)
  obtain ok t1 where a: "AsCode e t code = (ok, t1)" by fastforce
  show ?case
  proof (cases ok)
    case True
    then show ?thesis using 7(1) a by (auto simp: find_append)
  next
    case False
    then have "find (coded code) (fw_errors e) = None" using 7(1) a by (metis fst_conv)
    then show ?thesis using 7(2)[of "(ok, t1)" ok t1] a False by (simp add: find_append)
  qed
qed simp

lemma IsCode_find:
  "IsCode e code \<longleftrightarrow> find (coded code) (fw_errors e) \<noteq> None"
  "IsCode_list es code \<longleftrightarrow> find (coded code) (fw_errors_list es) \<noteq> None"
proof (induction e code and es code rule: IsCode_IsCode_list.induct)
  case (7 e es code)
  then show ?case by (auto simp: find_append split: option.splits)
qed (auto simp: as_has_code_def As_first split: list.splits option.splits)

text \<open>C37. \<open>IsCode\<close> and \<open>AsCode\<close> find a code anywhere in the tree of wrapped errors, and the target that
  \<open>AsCode\<close> fills on success is the first error with the code in depth-first order.\<close>

theorem code_search_is_complete:
  "(IsCode e code \<longleftrightarrow> (\<exists>x \<in> set (fw_errors e). fe_Code (fst x) = code)) \<and> (fst (AsCode e t code) \<longleftrightarrow> IsCode e code) \<and>
   (fst (AsCode e t code) \<longrightarrow> snd (AsCode e t code) = find (\<lambda>x. fe_Code (fst x) = code) (fw_errors e))"
  using AsCode_find(1)[of e t code] IsCode_find(1)[of e code] find_None_iff[of "coded code" "fw_errors e"]
  by (metis (no_types, lifting))

theorem code_search_is_complete_witness:
  "let f = \<lparr>fe_Code = ''B'', fe_Message = [], fe_shortErrorString = [], fe_hideStack = False, fe_stack = [],
            fe_codeKey = [], fe_messageKey = [], fe_stackKey = []\<rparr>;
       e = Fw (f\<lparr>fe_Code := ''A''\<rparr>) [Plain ''io'' ''eof'', Wraps ''w'' ''m'' (Some (Fw f []))]
   in fst (AsCode e None ''B'') \<and> snd (AsCode e None ''B'') = Some (f, [])"
  using code_search_is_complete[of "Fw (\<lparr>fe_Code = ''A'', fe_Message = [], fe_shortErrorString = [], fe_hideStack = False,
      fe_stack = [], fe_codeKey = [], fe_messageKey = [], fe_stackKey = []\<rparr>) [Plain ''io'' ''eof'', Wraps ''w'' ''m''
      (Some (Fw \<lparr>fe_Code = ''B'', fe_Message = [], fe_shortErrorString = [], fe_hideStack = False, fe_stack = [],
            fe_codeKey = [], fe_messageKey = [], fe_stackKey = []\<rparr> []))]" "''B''" None]
  by (simp add: Let_def as_target_def)

section \<open>Creating, copying and encoding\<close>

text \<open>\<open>Newf\<close> returns unless the same error occurs twice among its arguments (its mutex is then locked
  twice); the message is the format applied to the short texts of the wrapped errors, without their
  stack traces, and the new error shows its own.\<close>

lemma Newf_result:
  "(Newf ks stack code format ws args = None \<longleftrightarrow> \<not> distinct (arg_pointers args)) \<and>
   (case Newf ks stack code format ws args of
      None \<Rightarrow> True
    | Some (f, ws') \<Rightarrow> ws' = ws \<and> fe_Code f = code \<and> \<not> fe_hideStack f \<and>
        fe_shortErrorString f = ''{'' @ code @ ''} '' @ fe_Message f \<and>
        fe_Message f = format (map (\<lambda>a. case a of ArgFw p g us \<Rightarrow> fe_shortErrorString g | ArgOther x \<Rightarrow> x) args))"
proof -
  have "arg_text stack = (\<lambda>a. case a of ArgFw p g us \<Rightarrow> fe_shortErrorString g | ArgOther x \<Rightarrow> x)"
  proof
    fix a
    show "arg_text stack a = (case a of ArgFw p g us \<Rightarrow> fe_shortErrorString g | ArgOther x \<Rightarrow> x)"
      by (cases a) (simp_all add: Error_string_def)
  qed
  then show ?thesis by (simp add: Newf_def Let_def)
qed

text \<open>A copy of an error loses its short text: its \<open>Error\<close> starts with the stack trace instead of the
  code and the message, and while it is wrapped it has no text at all.\<close>

lemma copy_loses_short_text:
  "Error_string stack (Copy f) ws =
     (if \<exists>fr \<in> set stack. fr_Function fr = ''fmt.Errorf'' then []
      else [CHR 0x0A] @ ''stacktrace:'' @ [CHR 0x0A] @ Stacktrace f ws)"
  by (simp add: Error_string_def Copy_def buildFullErrorString_def Stacktrace_def SelfStacktrace_def)

text \<open>The JSON form and the log form of an error have the same entries when its keys are different,
  and with an empty stack key neither form shows the stack trace.\<close>

lemma encodings_agree:
  assumes "fe_messageKey f \<noteq> fe_codeKey f" "fe_stackKey f \<noteq> fe_codeKey f" "fe_stackKey f \<noteq> fe_messageKey f"
  shows "MarshalJSON f ws = map_of (LogValue f ws) \<and>
     MarshalJSON (SetStackKey [] (Copy f)) ws (fe_stackKey f) = None \<and>
     MarshalJSON (SetStackKey [] (Copy f)) ws (fe_codeKey f) = Some (fe_Code f)"
  using assms by (auto simp: MarshalJSON_def LogValue_def SetStackKey_def Copy_def Let_def fun_eq_iff)

lemma encodings_agree_witness:
  "let f = \<lparr>fe_Code = ''NOT_FOUND'', fe_Message = ''no'', fe_shortErrorString = [], fe_hideStack = False, fe_stack = [],
            fe_codeKey = ''kind'', fe_messageKey = ''message'', fe_stackKey = ''stack''\<rparr>
   in MarshalJSON (SetStackKey [] (Copy f)) [] ''stack'' = None"
  using encodings_agree[of "\<lparr>fe_Code = ''NOT_FOUND'', fe_Message = ''no'', fe_shortErrorString = [], fe_hideStack = False,
      fe_stack = [], fe_codeKey = ''kind'', fe_messageKey = ''message'', fe_stackKey = ''stack''\<rparr>" "[]"]
  by simp

section \<open>The trace of a tree\<close>

text \<open>The errors wrapped below an error, each with the path of positions that the trace prints.\<close>

fun wrapped_paths :: "error \<Rightarrow> nat list \<Rightarrow> (nat list \<times> error) list"
  and wrapped_paths_list :: "nat \<Rightarrow> error list \<Rightarrow> nat list \<Rightarrow> (nat list \<times> error) list" where
  "wrapped_paths (Fw f ws) path = wrapped_paths_list 0 ws path"
| "wrapped_paths (Wraps ty m None) path = []"
| "wrapped_paths (Wraps ty m (Some e)) path = wrapped_paths_list 0 [e] path"
| "wrapped_paths (Joins ty m ws) path = wrapped_paths_list 0 ws path"
| "wrapped_paths (Plain ty m) path = []"
| "wrapped_paths_list i [] path = []"
| "wrapped_paths_list i (e # es) path =
     (path @ [Suc i], e) # wrapped_paths e (path @ [Suc i]) @ wrapped_paths_list (Suc i) es path"

definition path_text :: "nat list \<Rightarrow> string" where
  "path_text path = ''['' @ Prelude.Join (map show_nat path) ''.''"

definition trace_entry :: "nat list \<times> error \<Rightarrow> string" where
  "trace_entry x = [CHR 0x0A] @ path_text (fst x) @ wrapped_head (snd x)"

lemma Join_snoc: "xs \<noteq> [] \<Longrightarrow> Prelude.Join (xs @ [x]) sep = Prelude.Join xs sep @ sep @ x"
  by (induction xs sep rule: Join.induct) auto

lemma dotted_path: "dotted (path_text path) @ show_nat n = path_text (path @ [n])"
proof (cases "path = []")
  case True
  then show ?thesis by (simp add: dotted_def path_text_def)
next
  case False
  have "length (show_nat k) > 0" for k by (subst show_nat.simps) simp
  then have "Prelude.Join (map show_nat path) ''.'' \<noteq> []"
    using False by (cases path rule: remdups_adj.cases) (auto simp: length_greater_0_conv)
  then show ?thesis using False by (simp add: dotted_def path_text_def Join_snoc)
qed

lemma wrapped_trace:
  "writeWrappedStacktrace e (path_text path) = concat (map trace_entry (wrapped_paths e path))"
  "write_wrapped i es (dotted (path_text path)) = concat (map trace_entry (wrapped_paths_list i es path))"
  by (induction e path and i es path rule: wrapped_paths_wrapped_paths_list.induct)
    (simp_all add: trace_entry_def dotted_path append_assoc[symmetric] del: append_assoc)

text \<open>The stack trace of an error is its own trace followed by one entry for every error below it, in
  depth-first order, each numbered with its path of positions.\<close>

lemma stacktrace_lists_wrapped_errors:
  "Stacktrace f ws = SelfStacktrace f @ concat (map trace_entry (wrapped_paths_list 0 ws []))"
proof -
  have "path_text [] = ''[''" by (simp add: path_text_def)
  then show ?thesis using wrapped_trace(1)[of "Fw f ws" "[]"] by (simp add: Stacktrace_def)
qed

section \<open>Errors made and searched by other components\<close>

text \<open>A new error of the framework; only its code, message and wrapped errors matter here.\<close>

definition new_error :: "string \<Rightarrow> string \<Rightarrow> error list \<Rightarrow> error" where
  "new_error code message wrapped =
     Fw \<lparr>fe_Code = code, fe_Message = message, fe_shortErrorString = ''{'' @ code @ ''} '' @ message, fe_hideStack = False,
         fe_stack = [], fe_codeKey = ''kind'', fe_messageKey = ''message'', fe_stackKey = ''stack''\<rparr> wrapped"

text \<open>\<^verbatim>\<open>errors.Is\<close>: the target is the error or one that it wraps.\<close>

fun Is :: "error \<Rightarrow> error \<Rightarrow> bool" and Is_list :: "error list \<Rightarrow> error \<Rightarrow> bool" where
  "Is (Fw f ws) t \<longleftrightarrow> Fw f ws = t \<or> Is_list ws t"
| "Is (Wraps ty m None) t \<longleftrightarrow> Wraps ty m None = t"
| "Is (Wraps ty m (Some e)) t \<longleftrightarrow> Wraps ty m (Some e) = t \<or> Is e t"
| "Is (Joins ty m ws) t \<longleftrightarrow> Joins ty m ws = t \<or> Is_list ws t"
| "Is (Plain ty m) t \<longleftrightarrow> Plain ty m = t"
| "Is_list [] t \<longleftrightarrow> False"
| "Is_list (e # es) t \<longleftrightarrow> Is e t \<or> Is_list es t"

fun error_message :: "error \<Rightarrow> string" where
  "error_message (Fw f ws) = fe_shortErrorString f"
| "error_message (Wraps ty m w) = m"
| "error_message (Joins ty m ws) = m"
| "error_message (Plain ty m) = m"

definition join_errors :: "error list \<Rightarrow> error" where
  "join_errors errs = Joins ''*errors.joinError'' (Join (map error_message errs) [CHR 0x0A]) errs"

lemma Is_refl [simp]: "Is e e"
proof (cases e)
  case (Wraps ty m w)
  then show ?thesis by (cases w) auto
qed auto

lemma Is_list_iff: "Is_list es t \<longleftrightarrow> (\<exists>e \<in> set es. Is e t)"
  by (induction es) auto

end
