(* ===== verification/ErrorHandler.thy ===== *)
theory ErrorHandler
  imports Errors
begin

text \<open>
  Files \<^verbatim>\<open>rest/middleware/error_handler.go\<close> and \<^verbatim>\<open>panic_recovery.go\<close>. The Gin context is a third party:
  what the code reads from it (the collected errors, whether the response was written, the status of
  the writer) is an argument, and what it does to it is the list of calls it makes, in order. A nil
  entry in the list of errors is \<open>None\<close>.
\<close>

section \<open>Calls on the Gin context\<close>

datatype body = BodyCustom string | BodyErr fw_fields "error list"

datatype gin_call =
    GinJSON int body | GinStatus int | GinAbort | GinError error | GinAbortWithError int error

record gin_error =
  ge_Err :: error
  ge_bind :: bool

text \<open>The calls that send a response.\<close>

fun writes :: "gin_call \<Rightarrow> bool" where
  "writes (GinJSON s b) = True"
| "writes (GinStatus s) = True"
| "writes _ = False"

section \<open>Mappers\<close>

text \<open>A builder answers with an optional body and a status, or with an error.\<close>

type_synonym response_builder = "gin_error \<Rightarrow> string + (body option \<times> int)"

record error_mapper =
  em_check :: "error \<Rightarrow> bool"
  em_responseBuilder :: response_builder

definition NewErrorCodeMapper :: "string \<Rightarrow> response_builder \<Rightarrow> error_mapper" where
  "NewErrorCodeMapper code builder = \<lparr>em_check = \<lambda>err. IsCode err code, em_responseBuilder = builder\<rparr>"

text \<open>\<^verbatim>\<open>errors.As\<close> and \<^verbatim>\<open>errors.Is\<close> for a type or value of the caller are the argument.\<close>

definition NewErrorAsMapper :: "(error \<Rightarrow> bool) \<Rightarrow> response_builder \<Rightarrow> error_mapper" where
  "NewErrorAsMapper isType builder = \<lparr>em_check = isType, em_responseBuilder = builder\<rparr>"

definition NewErrorIsMapper :: "(error \<Rightarrow> bool) \<Rightarrow> response_builder \<Rightarrow> error_mapper" where
  "NewErrorIsMapper isValue builder = \<lparr>em_check = isValue, em_responseBuilder = builder\<rparr>"

definition NewErrorHandler :: "error_mapper list \<Rightarrow> response_builder option \<Rightarrow> error_mapper list" where
  "NewErrorHandler errMappings defaultErrorMapper =
     errMappings @
     (case defaultErrorMapper of None \<Rightarrow> [] | Some b \<Rightarrow> [\<lparr>em_check = \<lambda>_. True, em_responseBuilder = b\<rparr>])"

section \<open>Panics\<close>

text \<open>\<^verbatim>\<open>errors.As\<close> with a target of another type, which is named: the first error of that type in depth-first order.\<close>

fun AsType :: "string \<Rightarrow> error \<Rightarrow> error option" and AsType_list :: "string \<Rightarrow> error list \<Rightarrow> error option" where
  "AsType ty (Fw f ws) = (if type_name (Fw f ws) = ty then Some (Fw f ws) else AsType_list ty ws)"
| "AsType ty (Wraps t m None) = (if t = ty then Some (Wraps t m None) else None)"
| "AsType ty (Wraps t m (Some e)) = (if t = ty then Some (Wraps t m (Some e)) else AsType ty e)"
| "AsType ty (Joins t m ws) = (if t = ty then Some (Joins t m ws) else AsType_list ty ws)"
| "AsType ty (Plain t m) = (if t = ty then Some (Plain t m) else None)"
| "AsType_list ty [] = None"
| "AsType_list ty (e # es) = (case AsType ty e of Some x \<Rightarrow> Some x | None \<Rightarrow> AsType_list ty es)"

text \<open>A panic has an error as its value or another value, given by its text. Whether it stands for a connection that is
  gone, and the error made from it.\<close>

datatype panic_value = PanicError error | PanicValue string

fun broken_pipe :: "panic_value \<Rightarrow> bool" where
  "broken_pipe (PanicError err) =
     (case AsType ''*os.SyscallError'' err of
        None \<Rightarrow> False
      | Some se \<Rightarrow> Contains (ToLower (error_message se)) ''broken pipe'' \<or>
                   Contains (ToLower (error_message se)) ''connection reset by peer'')"
| "broken_pipe (PanicValue v) = False"

fun recovery_error :: "panic_value \<Rightarrow> error" where
  "recovery_error (PanicError err) = new_error ''PANIC'' (''recovery from panic: '' @ error_message err) [err]"
| "recovery_error (PanicValue v) = new_error ''PANIC'' (''recovery from panic: '' @ v) []"

definition handlePanic :: "panic_value \<Rightarrow> bool \<times> gin_call list" where
  "handlePanic v =
     (broken_pipe v,
      if broken_pipe v then [GinError (recovery_error v), GinAbort] else [GinAbortWithError 500 (recovery_error v)])"

text \<open>The outermost recovery, for what the handlers below it let through.\<close>

definition PanicRecovery_Run :: "panic_value option \<Rightarrow> gin_call list" where
  "PanicRecovery_Run panicked = (case panicked of None \<Rightarrow> [] | Some v \<Rightarrow> snd (handlePanic v))"

section \<open>Statuses\<close>

definition errorCodesToStatus :: "string \<Rightarrow> int" where
  "errorCodesToStatus code =
     (case map_of [(''UNKNOWN'', 500), (''BAD_STATE'', 500), (''PANIC'', 500), (''NOT_AUTHENTICATED'', 401),
                   (''NOT_ALLOWED'', 403), (''NOT_FOUND'', 404), (''CONFLICT'', 409), (''BAD_ARGUMENT'', 422),
                   (''NOT_VALID'', 422)] code of
        None \<Rightarrow> 0 | Some s \<Rightarrow> s)"

text \<open>The status for the first error of the context and the framework error in it; the status stays 0
  when no case applies.\<close>

definition default_status :: "gin_error option \<Rightarrow> int \<times> (fw_fields \<times> error list) option" where
  "default_status ginErr =
     (case ginErr of
        None \<Rightarrow> (500, None)
      | Some g \<Rightarrow>
          if ge_bind g then (422, None)
          else (case As (ge_Err g) of
                  Some x \<Rightarrow> (if errorCodesToStatus (fe_Code (fst x)) = 0 then 500
                              else errorCodesToStatus (fe_Code (fst x)), Some x)
                | None \<Rightarrow> (0, None)))"

definition error_body :: "bool \<Rightarrow> fw_fields \<times> error list \<Rightarrow> body" where
  "error_body isProd x = (if isProd then BodyErr (SetStackKey [] (Copy (fst x))) (snd x) else BodyErr (fst x) (snd x))"

definition defaultHandler :: "gin_error option list \<Rightarrow> bool \<Rightarrow> body option \<Rightarrow> bool \<Rightarrow> int \<times> gin_call list" where
  "defaultHandler errs isProd bdy shouldWrite =
     (let (status, fwErr) = default_status (hd errs);
          b = (case bdy of Some x \<Rightarrow> Some x | None \<Rightarrow> map_option (error_body isProd) fwErr)
      in (status, if shouldWrite then [case b of Some x \<Rightarrow> GinJSON status x | None \<Rightarrow> GinStatus status] else []))"

section \<open>Handling the errors of a request\<close>

datatype mapped = NotMapped | BuildFailed | Respond "body option" int

fun try_mappers :: "error_mapper list \<Rightarrow> gin_error \<Rightarrow> mapped" where
  "try_mappers [] g = NotMapped"
| "try_mappers (m # ms) g =
     (if \<not> em_check m (ge_Err g) then try_mappers ms g
      else (case em_responseBuilder m g of
              Inl buildErr \<Rightarrow> BuildFailed
            | Inr (b, status) \<Rightarrow> if b = None \<and> status = 0 then try_mappers ms g else Respond b status))"

text \<open>The calls for a mapped error.\<close>

definition respond :: "gin_error option list \<Rightarrow> bool \<Rightarrow> bool \<Rightarrow> mapped \<Rightarrow> gin_call list" where
  "respond errs isProd shouldWrite m =
     (case m of
        Respond b status \<Rightarrow>
          if status = 0 then snd (defaultHandler errs isProd b shouldWrite)
          else if shouldWrite then [case b of Some x \<Rightarrow> GinJSON status x | None \<Rightarrow> GinStatus status]
          else []
      | _ \<Rightarrow> [])"

text \<open>The loop over the errors: the mapped error, the others, and the calls.\<close>

fun map_errors ::
    "gin_error option list \<Rightarrow> bool \<Rightarrow> bool \<Rightarrow> error_mapper list \<Rightarrow> gin_error option list \<Rightarrow> error option \<Rightarrow>
     error option \<times> error list \<times> gin_call list" where
  "map_errors all isProd w ms [] mappedErr = (mappedErr, [], [])"
| "map_errors all isProd w ms (None # gs) mappedErr = map_errors all isProd w ms gs mappedErr"
| "map_errors all isProd w ms (Some g # gs) mappedErr =
     (case mappedErr of
        Some e \<Rightarrow> (let (r, os, cs) = map_errors all isProd w ms gs mappedErr in (r, ge_Err g # os, cs))
      | None \<Rightarrow>
          (case try_mappers ms g of
             NotMapped \<Rightarrow> (let (r, os, cs) = map_errors all isProd w ms gs None in (r, ge_Err g # os, cs))
           | m \<Rightarrow> (let (r, os, cs) = map_errors all isProd w ms gs (Some (ge_Err g))
                    in (r, os, respond all isProd w m @ cs))))"

datatype log_level = LevelInfo | LevelWarn | LevelError

definition status_level :: "int \<Rightarrow> log_level" where
  "status_level status = (if status \<ge> 500 then LevelError else if status \<ge> 400 then LevelWarn else LevelInfo)"

record handled =
  h_calls :: "gin_call list"
  h_level :: log_level
  h_mapped :: error
  h_others :: "error list"

text \<open>\<open>writerStatus\<close> is the status that Gin's writer reports after the calls.\<close>

definition handleErrors ::
    "error_mapper list \<Rightarrow> bool \<Rightarrow> (gin_call list \<Rightarrow> int) \<Rightarrow> bool \<Rightarrow> bool \<Rightarrow> gin_error option list \<Rightarrow> handled option go" where
  "handleErrors ms isProd writerStatus written brokenPipe errs =
     (if errs = [] then Ret None
      else let shouldWrite = (\<not> brokenPipe \<and> \<not> written);
               (mappedErr, otherErrs, cs) = map_errors errs isProd shouldWrite ms errs None
           in (case mappedErr of
                 Some e \<Rightarrow>
                   Ret (Some \<lparr>h_calls = cs, h_level = status_level (writerStatus cs), h_mapped = e, h_others = otherErrs\<rparr>)
               | None \<Rightarrow>
                   (let cs' = cs @ snd (defaultHandler errs isProd None shouldWrite)
                    in (case otherErrs of
                          [] \<Rightarrow> Panic ''index out of range''
                        | e # os \<Rightarrow>
                            Ret (Some \<lparr>h_calls = cs', h_level = status_level (writerStatus cs'), h_mapped = e,
                                       h_others = os\<rparr>)))))"

text \<open>The middleware: the handlers of the request end, normally or with a panic, with the errors they
  collected; the errors are then handled.\<close>

definition ErrorHandler_Run ::
    "error_mapper list \<Rightarrow> bool \<Rightarrow> (gin_call list \<Rightarrow> int) \<Rightarrow> bool \<Rightarrow> gin_error option list \<Rightarrow> panic_value option \<Rightarrow>
     gin_call list \<times> handled option go" where
  "ErrorHandler_Run ms isProd writerStatus written errs panicked =
     (case panicked of
        None \<Rightarrow> ([], handleErrors ms isProd writerStatus written False errs)
      | Some v \<Rightarrow>
          (let (brokenPipe, cs) = handlePanic v
           in (cs, handleErrors ms isProd writerStatus written brokenPipe
                     (errs @ [Some \<lparr>ge_Err = recovery_error v, ge_bind = False\<rparr>]))))"

section \<open>Properties\<close>

lemma respond_writes: "m \<noteq> NotMapped \<Longrightarrow> length (respond errs isProd w m) \<le> 1 \<and> (\<forall>c \<in> set (respond errs isProd w m). writes c)"
  "\<not> w \<Longrightarrow> respond errs isProd w m = []"
  by (auto simp: respond_def defaultHandler_def Let_def split: mapped.splits option.splits prod.splits)

lemma map_errors_mapped:
  "map_errors all isProd w ms gs (Some e) = (Some e, map ge_Err (List.map_filter id gs), [])"
  by (induction gs) (auto simp: map_filter_simps split: option.splits)

lemma map_errors_calls:
  "length (snd (snd (map_errors all isProd w ms gs None))) \<le> 1 \<and>
   (\<forall>c \<in> set (snd (snd (map_errors all isProd w ms gs None))). writes c) \<and>
   (\<not> w \<longrightarrow> snd (snd (map_errors all isProd w ms gs None)) = []) \<and>
   (fst (map_errors all isProd w ms gs None) = None \<longrightarrow>
      map_errors all isProd w ms gs None = (None, map ge_Err (List.map_filter id gs), []))"
proof (induction gs)
  case (Cons g gs)
  show ?case
  proof (cases g)
    case (Some x)
    show ?thesis
    proof (cases "try_mappers ms x")
      case NotMapped
      then show ?thesis using Cons Some
        by (cases "map_errors all isProd w ms gs None") (auto simp: map_filter_simps)
    next
      case BuildFailed
      then show ?thesis using Some by (simp add: map_errors_mapped respond_def)
    next
      case (Respond b s)
      then show ?thesis using Some respond_writes(1)[of "Respond b s" all isProd w] respond_writes(2)[of w all isProd "Respond b s"]
        by (simp add: map_errors_mapped)
    qed
  qed (use Cons in \<open>simp add: map_filter_simps\<close>)
qed (simp add: map_filter_simps)

text \<open>C38. The handler sends at most one response for a request, whatever errors and mappers there are,
  and sends none when the connection is broken or the response was already written.\<close>

theorem at_most_one_error_response:
  assumes "handleErrors ms isProd ws written brokenPipe errs = Ret (Some h)"
  shows "length (h_calls h) \<le> 1 \<and> (\<forall>c \<in> set (h_calls h). writes c) \<and> (written \<or> brokenPipe \<longrightarrow> h_calls h = [])"
proof -
  let ?w = "\<not> brokenPipe \<and> \<not> written"
  obtain r os cs where m: "map_errors errs isProd ?w ms errs None = (r, os, cs)" using prod_cases3 by blast
  have d: "length (snd (defaultHandler errs isProd None ?w)) \<le> 1 \<and> (\<forall>c \<in> set (snd (defaultHandler errs isProd None ?w)). writes c) \<and>
      (\<not> ?w \<longrightarrow> snd (defaultHandler errs isProd None ?w) = [])"
    by (auto simp: defaultHandler_def Let_def split: option.splits prod.splits)
  show ?thesis
    using map_errors_calls[of errs isProd ?w ms errs] assms d
    by (auto simp: handleErrors_def m Let_def split: if_splits option.splits list.splits)
qed

text \<open>A framework error with the default keys.\<close>

definition sample_fw :: "string \<Rightarrow> fw_fields" where
  "sample_fw code = \<lparr>fe_Code = code, fe_Message = ''m'', fe_shortErrorString = ''s'', fe_hideStack = False, fe_stack = [],
     fe_codeKey = ''kind'', fe_messageKey = ''message'', fe_stackKey = ''stack''\<rparr>"

theorem at_most_one_error_response_witness:
  "\<exists>h. handleErrors [NewErrorCodeMapper ''X'' (\<lambda>_. Inr (None, 418))] False (\<lambda>_. 418) False False
      [Some \<lparr>ge_Err = Fw (sample_fw ''X'') [], ge_bind = False\<rparr>, Some \<lparr>ge_Err = Plain ''io'' ''eof'', ge_bind = False\<rparr>] = Ret (Some h) \<and>
     h_calls h = [GinStatus 418] \<and> length (h_calls h) \<le> 1"
proof -
  obtain h where h: "handleErrors [NewErrorCodeMapper ''X'' (\<lambda>_. Inr (None, 418))] False (\<lambda>_. 418) False False
      [Some \<lparr>ge_Err = Fw (sample_fw ''X'') [], ge_bind = False\<rparr>, Some \<lparr>ge_Err = Plain ''io'' ''eof'', ge_bind = False\<rparr>] = Ret (Some h)"
    "h_calls h = [GinStatus 418]"
    by (simp add: handleErrors_def NewErrorCodeMapper_def respond_def as_has_code_def sample_fw_def Let_def)
  then show ?thesis using at_most_one_error_response[OF h(1)] by blast
qed

text \<open>When no mapper answers, the response to a first error that is or wraps an error of the framework
  has the status of its code, or 500 for a code without one, and in production its body has no stack
  trace.\<close>

lemma unmapped_framework_error:
  assumes "\<forall>g. Some g \<in> set errs \<longrightarrow> try_mappers ms g = NotMapped" "errs = Some g # rest" "\<not> ge_bind g"
    and "As (ge_Err g) = Some (f, us)"
  shows "\<exists>h. handleErrors ms isProd ws False False errs = Ret (Some h) \<and> h_mapped h = ge_Err g \<and>
     h_calls h = [GinJSON (if errorCodesToStatus (fe_Code f) = 0 then 500 else errorCodesToStatus (fe_Code f))
                    (BodyErr (if isProd then SetStackKey [] (Copy f) else f) us)] \<and>
     (isProd \<and> fe_stackKey f \<noteq> fe_codeKey f \<and> fe_stackKey f \<noteq> fe_messageKey f \<longrightarrow>
        MarshalJSON (SetStackKey [] (Copy f)) us (fe_stackKey f) = None)"
proof -
  have "map_errors all isProd w ms gs None = (None, map ge_Err (List.map_filter id gs), [])"
    if "\<forall>g. Some g \<in> set gs \<longrightarrow> try_mappers ms g = NotMapped" for all w gs
    using that
  proof (induction gs)
    case (Cons g gs)
    then show ?case by (cases g) (simp_all add: map_filter_simps)
  qed (simp add: map_filter_simps)
  from this[OF assms(1)] show ?thesis
    using assms(2-4)
    by (auto simp: handleErrors_def defaultHandler_def default_status_def error_body_def map_filter_simps Let_def
        MarshalJSON_def SetStackKey_def Copy_def)
qed

lemma unmapped_framework_error_witness:
  "\<exists>h. handleErrors [] True (\<lambda>_. 404) False False [Some \<lparr>ge_Err = Wraps ''w'' ''m'' (Some (Fw (sample_fw ''NOT_FOUND'') [])), ge_bind = False\<rparr>]
      = Ret (Some h) \<and> h_calls h = [GinJSON 404 (BodyErr (SetStackKey [] (Copy (sample_fw ''NOT_FOUND''))) [])]"
  using unmapped_framework_error[of "[Some \<lparr>ge_Err = Wraps ''w'' ''m'' (Some (Fw (sample_fw ''NOT_FOUND'') [])), ge_bind = False\<rparr>]" "[]"
      "\<lparr>ge_Err = Wraps ''w'' ''m'' (Some (Fw (sample_fw ''NOT_FOUND'') [])), ge_bind = False\<rparr>" "[]" "sample_fw ''NOT_FOUND''" "[]" True "\<lambda>_. 404"]
  by (auto simp: errorCodesToStatus_def sample_fw_def)

text \<open>A first error that is no bind error and holds no error of the framework, with no mapper that
  answers, is answered with the status 0.\<close>

lemma plain_error_has_no_status:
  assumes "try_mappers ms g = NotMapped" "\<not> ge_bind g" "As (ge_Err g) = None"
  shows "\<exists>h. handleErrors ms isProd ws False False [Some g] = Ret (Some h) \<and> h_calls h = [GinStatus 0]"
  using assms by (simp add: handleErrors_def defaultHandler_def default_status_def Let_def)

lemma plain_error_has_no_status_witness:
  "\<exists>h. handleErrors [] True (\<lambda>_. 200) False False [Some \<lparr>ge_Err = Plain ''io'' ''eof'', ge_bind = False\<rparr>] = Ret (Some h) \<and>
     h_calls h = [GinStatus 0]"
  using plain_error_has_no_status[of "[]" "\<lparr>ge_Err = Plain ''io'' ''eof'', ge_bind = False\<rparr>" True "\<lambda>_. 200"] by simp

end
