(* ===== verification/Middleware.thy ===== *)
theory Middleware
  imports SyncMap Functional "HOL-Library.List_Lexorder" "HOL-Library.Char_ord" "HOL-Library.Multiset"
begin

text \<open>
  Package \<^verbatim>\<open>rest/middleware\<close>: the order of the middlewares, authentication with its exclusions,
  authorization, the health and ready probes, and the request logger. The Gin context and the providers
  are third parties: what they answer is an argument, and what the code does to the context is the list
  of its calls. Paths are joined with Go's \<^verbatim>\<open>path.Join\<close>, which is modelled first.
\<close>

section \<open>Package path\<close>

text \<open>The segments of a path between slashes.\<close>

fun segments :: "string \<Rightarrow> string list" where
  "segments [] = [[]]"
| "segments (c # s) = (if c = CHR ''/'' then [] # segments s else (c # hd (segments s)) # tl (segments s))"

text \<open>Empty and dot segments are dropped; a dot-dot segment removes the one before it, disappears at the
  root, and stays at the start of a relative path. The result is in reverse.\<close>

fun clean_segments :: "bool \<Rightarrow> string list \<Rightarrow> string list \<Rightarrow> string list" where
  "clean_segments rooted [] out = out"
| "clean_segments rooted (g # gs) out =
     (if g = [] \<or> g = ''.'' then clean_segments rooted gs out
      else if g = ''..'' then
        (case out of
           o1 # os \<Rightarrow> if o1 = ''..'' then clean_segments rooted gs (''..'' # out) else clean_segments rooted gs os
         | [] \<Rightarrow> clean_segments rooted gs (if rooted then [] else [''..'']))
      else clean_segments rooted gs (g # out))"

definition path_IsAbs :: "string \<Rightarrow> bool" where
  "path_IsAbs p = HasPrefix p ''/''"

definition path_Clean :: "string \<Rightarrow> string" where
  "path_Clean p =
     (if p = [] then ''.''
      else let out = rev (clean_segments (path_IsAbs p) (segments p) [])
           in if path_IsAbs p then ''/'' @ Join out ''/'' else if out = [] then ''.'' else Join out ''/'')"

definition path_Join :: "string list \<Rightarrow> string" where
  "path_Join elems =
     (let es = filter (\<lambda>e. e \<noteq> []) elems in if es = [] then [] else path_Clean (Join es ''/''))"

section \<open>The order of the middlewares\<close>

record middleware =
  mw_priority :: int
  mw_name :: string
  mw_pkg :: string

definition MiddlewarePriorityHighest :: int where "MiddlewarePriorityHighest = 0"
definition MiddlewarePriorityProbes :: int where "MiddlewarePriorityProbes = 1000"
definition MiddlewarePriorityAuthN :: int where "MiddlewarePriorityAuthN = 2000"
definition MiddlewarePriorityAuthZ :: int where "MiddlewarePriorityAuthZ = 3000"
definition MiddlewarePriorityHeader :: int where "MiddlewarePriorityHeader = 4000"
definition MiddlewarePriorityBody :: int where "MiddlewarePriorityBody = 5000"
definition MiddlewarePriorityDefault :: int where "MiddlewarePriorityDefault = 6000"
definition MiddlewarePriorityLowest :: int where "MiddlewarePriorityLowest = 7000"

text \<open>The comparison that \<open>NewMiddlewares\<close> sorts with.\<close>

definition mw_compare :: "middleware \<Rightarrow> middleware \<Rightarrow> int" where
  "mw_compare a b =
     (if mw_priority a < mw_priority b then -1
      else if mw_priority a = mw_priority b then
        (if mw_name a < mw_name b then -1
         else if mw_name a = mw_name b then
           (if mw_pkg a < mw_pkg b then -1 else if mw_pkg a = mw_pkg b then 0 else 1)
         else 1)
      else 1)"

section \<open>Authentication\<close>

datatype 'p mw_call =
    SetExcluded | SetPrincipal 'p | AbortWithStatus int | CtxError string | Abort
  | JSON int "string \<rightharpoonup> string" | AbortWithStatusJSON int "string \<rightharpoonup> string" | CallNext

text \<open>The exclusions: a path prefix with its methods, none meaning all.\<close>

type_synonym excludes = "string \<rightharpoonup> string list"

definition ExcludePrefix :: "string \<Rightarrow> excludes \<Rightarrow> excludes" where
  "ExcludePrefix pathPrefix ex = ex(pathPrefix \<mapsto> [])"

definition ExcludePrefixAndMethods :: "string \<Rightarrow> string list \<Rightarrow> excludes \<Rightarrow> excludes go" where
  "ExcludePrefixAndMethods pathPrefix methods ex =
     (if length methods = 0 then Panic ''methods list must have at least one element''
      else (case ex pathPrefix of
              Some previous \<Rightarrow> if length previous = 0 then Ret ex else Ret (ex(pathPrefix \<mapsto> previous @ methods))
            | None \<Rightarrow> Ret (ex(pathPrefix \<mapsto> methods))))"

text \<open>The generator of the cache: the exclusions in the order in which the map is iterated.\<close>

definition is_excluded :: "string \<Rightarrow> (string \<times> string list) list \<Rightarrow> string \<times> string \<Rightarrow> bool" where
  "is_excluded basePath order pm =
     (if \<not> HasPrefix (fst pm) basePath then True
      else list_ex (\<lambda>(excludePath, methods).
             HasPrefix (fst pm) (path_Join [basePath, excludePath]) \<and>
             (length methods = 0 \<or> snd pm \<in> set methods)) order)"

datatype 'p auth = Authenticated 'p | InvalidToken | AuthFailed string

text \<open>\<open>Require\<close> for a request: the cache is filled on the first request of a path and method.\<close>

definition Require ::
    "string \<Rightarrow> (string \<times> string list) list \<Rightarrow> 'p auth \<Rightarrow> string \<times> string \<Rightarrow> (string \<times> string \<rightharpoonup> bool) \<Rightarrow>
     'p mw_call list \<times> (string \<times> string \<rightharpoonup> bool)" where
  "Require basePath order authenticate pm cache =
     (let (r, cache') = LoadOrStoreFunc pm (\<lambda>pm. Ret (is_excluded basePath order pm)) cache; excluded = (r = Ret True)
      in (if excluded then [SetExcluded]
          else (case authenticate of
                  Authenticated p \<Rightarrow> [SetPrincipal p]
                | InvalidToken \<Rightarrow> [AbortWithStatus 401]
                | AuthFailed e \<Rightarrow> [AbortWithStatus 500]), cache'))"

text \<open>Reading the principal back; \<open>MustGetPrincipal\<close> aborts and panics without one.\<close>

definition GetPrincipal :: "'p option \<Rightarrow> 'p option" where
  "GetPrincipal value = value"

definition MustGetPrincipal :: "'p option \<Rightarrow> 'p go \<times> 'p mw_call list" where
  "MustGetPrincipal value =
     (case GetPrincipal value of Some p \<Rightarrow> (Ret p, []) | None \<Rightarrow> (Panic ''no principal in context'', [AbortWithStatus 401]))"

text \<open>The logger attributes after \<open>SetPrincipal\<close>: the first attribute with the key is replaced, or the new
  one is appended.\<close>

fun set_principal_attr :: "(string \<times> 'a) \<Rightarrow> (string \<times> 'a) list \<Rightarrow> (string \<times> 'a) list" where
  "set_principal_attr pa [] = [pa]"
| "set_principal_attr pa (at # ats) = (if fst at = fst pa then pa # ats else at # set_principal_attr pa ats)"

section \<open>Authorization\<close>

text \<open>A value passed to the provider: one argument, or a slice as one argument.\<close>

datatype 'a any_arg = One 'a | Slice "'a list"

definition authz_handler :: "bool \<Rightarrow> ('a any_arg list \<Rightarrow> string + bool) \<Rightarrow> 'a list \<Rightarrow> 'p mw_call list" where
  "authz_handler excluded authorize args =
     (if excluded then []
      else (case authorize [Slice args] of
              Inl err \<Rightarrow> [CtxError (''failed to authorize: '' @ err), Abort]
            | Inr authorized \<Rightarrow> if authorized then [] else [AbortWithStatus 403]))"

definition authz_Require :: "('a any_arg list \<Rightarrow> string + bool) \<Rightarrow> 'a list \<Rightarrow> bool \<Rightarrow> 'p mw_call list" where
  "authz_Require provider args excluded = authz_handler excluded provider args"

section \<open>Probes\<close>

text \<open>A check is nil or a name with the result of the check.\<close>

type_synonym check = "(string \<times> string option) option"

definition NewHealthCheck :: "check list \<Rightarrow> check list" where
  "NewHealthCheck checks = Filter (Not (\<lambda>c. c = None)) checks"

definition NewReadyCheck :: "check list \<Rightarrow> check list" where
  "NewReadyCheck checks = Filter (Not (\<lambda>c. c = None)) checks"

fun failed_checks :: "check list \<Rightarrow> (string \<rightharpoonup> string) \<Rightarrow> (string \<rightharpoonup> string)" where
  "failed_checks [] failed = failed"
| "failed_checks (None # cs) failed = failed_checks cs failed"
| "failed_checks (Some (name, r) # cs) failed =
     failed_checks cs (case r of None \<Rightarrow> failed | Some err \<Rightarrow> failed(name \<mapsto> err))"

text \<open>\<open>order\<close> is the order in which the failed checks are iterated.\<close>

definition HealthCheck :: "check list \<Rightarrow> (string \<times> string) list \<Rightarrow> 'p mw_call list" where
  "HealthCheck checks order =
     (let failed = failed_checks checks Map.empty
      in if failed \<noteq> Map.empty then
           map (\<lambda>(name, err). CtxError (''health check failed: '' @ name @ '' with error: '' @ err)) order @
           [AbortWithStatusJSON 500 failed]
         else [JSON 200 Map.empty])"

definition ReadyCheck :: "check list \<Rightarrow> (string \<times> string) list \<Rightarrow> 'p mw_call list" where
  "ReadyCheck checks order =
     (let failed = failed_checks checks Map.empty
      in if failed \<noteq> Map.empty then
           map (\<lambda>(name, err). CtxError (''ready check failed: '' @ name @ '' with error: '' @ err)) order @
           [AbortWithStatusJSON 500 failed]
         else [JSON 200 Map.empty])"

section \<open>Request logger\<close>

fun build_excludes :: "string \<Rightarrow> string list \<Rightarrow> string set \<Rightarrow> string set" where
  "build_excludes basePath [] acc = acc"
| "build_excludes basePath (e # es) acc =
     build_excludes basePath es (insert (if path_IsAbs e then e else path_Join [basePath, e]) acc)"

definition NewRequestLogger :: "string \<Rightarrow> string list \<Rightarrow> string set" where
  "NewRequestLogger basePath excludes = build_excludes basePath excludes {}"

text \<open>The identifier of a request: the header, or a new one.\<close>

definition request_id :: "string \<Rightarrow> string \<Rightarrow> string" where
  "request_id header uuid = (if header = [] then uuid else header)"

datatype req_level = ReqInfo | ReqWarn | ReqError

definition request_level :: "int \<Rightarrow> req_level" where
  "request_level status = (if status \<ge> 500 then ReqError else if status \<ge> 400 then ReqWarn else ReqInfo)"

text \<open>\<open>Run\<close>: an excluded request is neither timed nor logged here.\<close>

definition RequestLogger_Run :: "string set \<Rightarrow> string \<Rightarrow> int \<Rightarrow> 'p mw_call list \<times> req_level option" where
  "RequestLogger_Run excludeMap fullPath status =
     (if fullPath \<in> excludeMap then ([], None) else ([CallNext], Some (request_level status)))"

section \<open>Properties\<close>

lemma mw_compare_le:
  "mw_compare a b \<le> 0 \<longleftrightarrow> (mw_priority a, mw_name a, mw_pkg a) = (mw_priority b, mw_name b, mw_pkg b) \<or>
     mw_priority a < mw_priority b \<or> (mw_priority a = mw_priority b \<and> (mw_name a < mw_name b \<or>
       (mw_name a = mw_name b \<and> mw_pkg a < mw_pkg b)))"
  by (auto simp: mw_compare_def)

lemma mw_compare_antisym: "mw_compare a b \<le> 0 \<Longrightarrow> mw_compare b a \<le> 0 \<Longrightarrow> a = b"
  by (rule middleware.equality) (auto simp: mw_compare_le)

lemma sorted_wrt_unique:
  "sorted_wrt R xs \<Longrightarrow> sorted_wrt R ys \<Longrightarrow> mset xs = mset ys \<Longrightarrow> (\<And>a b. R a b \<Longrightarrow> R b a \<Longrightarrow> a = b) \<Longrightarrow> xs = ys"
proof (induction xs arbitrary: ys)
  case (Cons x xs)
  then obtain y zs where ys: "ys = y # zs" by (cases ys) auto
  have "x = y"
  proof (rule ccontr)
    assume ne: "x \<noteq> y"
    have "x \<in> set zs" using Cons.prems(3) ys ne by (metis in_multiset_in_set insert_iff list.simps(15) set_mset_mset)
    moreover have "y \<in> set xs" using Cons.prems(3) ys ne by (metis in_multiset_in_set insert_iff list.simps(15) set_mset_mset)
    ultimately have "R x y" "R y x" using Cons.prems(1,2) ys by auto
    then show False using Cons.prems(4) ne by blast
  qed
  then show ?case using Cons.IH[of zs] Cons.prems ys by simp
qed simp

text \<open>The order of the middlewares does not depend on the order in which they were provided: every
  way of sorting them by the comparison gives the same list.\<close>

lemma middleware_order_is_determined:
  assumes "sorted_wrt (\<lambda>a b. mw_compare a b \<le> 0) xs" "sorted_wrt (\<lambda>a b. mw_compare a b \<le> 0) ys" "mset xs = mset ys"
  shows "xs = ys"
  using sorted_wrt_unique[OF assms] mw_compare_antisym by blast

lemma middleware_order_is_determined_witness:
  "let a = \<lparr>mw_priority = 1000, mw_name = ''Health'', mw_pkg = ''m''\<rparr>; b = \<lparr>mw_priority = 1000, mw_name = ''Ready'', mw_pkg = ''m''\<rparr>
   in sorted_wrt (\<lambda>a b. mw_compare a b \<le> 0) [a, b] \<and> (\<forall>ys. sorted_wrt (\<lambda>a b. mw_compare a b \<le> 0) ys \<and> mset ys = {#a, b#} \<longrightarrow> ys = [a, b])"
proof -
  let ?a = "\<lparr>mw_priority = 1000, mw_name = ''Health'', mw_pkg = ''m''\<rparr>" and ?b = "\<lparr>mw_priority = 1000, mw_name = ''Ready'', mw_pkg = ''m''\<rparr>"
  have s: "sorted_wrt (\<lambda>a b. mw_compare a b \<le> 0) [?a, ?b]" by (simp add: mw_compare_def less_char_def)
  have "ys = [?a, ?b]" if "sorted_wrt (\<lambda>a b. mw_compare a b \<le> 0) ys" "mset ys = {#?a, ?b#}" for ys
    using middleware_order_is_determined[OF that(1) s] that(2) by simp
  then show ?thesis using s by (simp add: Let_def)
qed

text \<open>A sequence of requests on one middleware.\<close>

fun requests ::
    "string \<Rightarrow> (string \<times> string list) list \<Rightarrow> ((string \<times> string) \<times> 'p auth) list \<Rightarrow> (string \<times> string \<rightharpoonup> bool) \<Rightarrow> 'p mw_call list list" where
  "requests basePath order [] cache = []"
| "requests basePath order ((pm, a) # rs) cache =
     (let (calls, cache') = Require basePath order a pm cache in calls # requests basePath order rs cache')"

fun answer :: "bool \<Rightarrow> 'p auth \<Rightarrow> 'p mw_call list" where
  "answer True a = [SetExcluded]"
| "answer False (Authenticated p) = [SetPrincipal p]"
| "answer False InvalidToken = [AbortWithStatus 401]"
| "answer False (AuthFailed e) = [AbortWithStatus 500]"

interpretation authn_cache: memo "\<lambda>pm. pm" "\<lambda>pm. Ret (is_excluded basePath order pm)" UNIV
  by unfold_locales simp

abbreviation cache_ok :: "string \<Rightarrow> (string \<times> string list) list \<Rightarrow> (string \<times> string \<rightharpoonup> bool) \<Rightarrow> bool" where
  "cache_ok basePath order \<equiv> cached (\<lambda>pm. pm) (\<lambda>pm. Ret (is_excluded basePath order pm)) UNIV"

lemma Require_answer:
  assumes "cache_ok basePath order cache"
  shows "fst (Require basePath order a pm cache) = answer (is_excluded basePath order pm) a"
    and "cache_ok basePath order (snd (Require basePath order a pm cache))"
proof -
  have g: "LoadOrStoreFunc pm (\<lambda>pm. Ret (is_excluded basePath order pm)) cache =
      LoadOrStoreFunc pm (\<lambda>_. Ret (is_excluded basePath order pm)) cache"
    by (simp add: LoadOrStoreFunc_def)
  note l = authn_cache.lookup[OF assms, of pm, simplified, folded g]
  show "fst (Require basePath order a pm cache) = answer (is_excluded basePath order pm) a"
    using l(1) by (cases a; cases "is_excluded basePath order pm") (auto simp: Require_def case_prod_beta Let_def)
  show "cache_ok basePath order (snd (Require basePath order a pm cache))"
    using l(2) by (simp add: Require_def case_prod_beta Let_def)
qed


text \<open>Excluding a prefix for all methods is kept by later exclusions of single methods.\<close>

lemma exclude_all_methods_wins:
  "methods \<noteq> [] \<Longrightarrow> ExcludePrefixAndMethods p methods (ExcludePrefix p ex) = Ret (ExcludePrefix p ex)"
  by (simp add: ExcludePrefixAndMethods_def ExcludePrefix_def)

lemma is_excluded_order: "set order = set order' \<Longrightarrow> is_excluded basePath order pm = is_excluded basePath order' pm"
  by (simp add: is_excluded_def list_ex_iff)

text \<open>The provider gets the arguments as one slice.\<close>

lemma authz_passes_one_argument:
  "authorize [Slice args] = Inr True \<Longrightarrow> authz_Require authorize args False = []"
  by (simp add: authz_Require_def authz_handler_def)

lemma failed_checks_dom:
  "dom (failed_checks checks failed) = dom failed \<union> {n. \<exists>e. Some (n, Some e) \<in> set checks}"
  by (induction checks failed rule: failed_checks.induct) (auto split: option.splits)

text \<open>The health and ready probes answer 200 exactly when every check that is provided passes, and
  otherwise 500 with the failed checks.\<close>

lemma probes_pass_iff_all_checks_pass:
  "(HealthCheck (NewHealthCheck checks) order = [JSON 200 Map.empty] \<longleftrightarrow> (\<forall>n e. Some (n, Some e) \<notin> set checks)) \<and>
   (ReadyCheck (NewReadyCheck checks) order = [JSON 200 Map.empty] \<longleftrightarrow> (\<forall>n e. Some (n, Some e) \<notin> set checks)) \<and>
   (\<exists>n e. Some (n, Some e) \<in> set checks) = (\<exists>m. last (HealthCheck (NewHealthCheck checks) order :: 'p mw_call list) = AbortWithStatusJSON 500 m)"
proof -
  have "Not (\<lambda>c :: check. c = None) = (\<lambda>c. c \<noteq> None)" by (rule ext) (simp only: Not_def)
  then have f: "NewHealthCheck checks = filter (\<lambda>c. c \<noteq> None) checks"
    and g: "NewReadyCheck checks = NewHealthCheck checks"
    by (simp_all only: NewHealthCheck_def NewReadyCheck_def Filter_is_filter)
  have "failed_checks (NewHealthCheck checks) Map.empty = Map.empty \<longleftrightarrow> (\<forall>n e. Some (n, Some e) \<notin> set checks)"
    using failed_checks_dom[of "NewHealthCheck checks" Map.empty] unfolding f by (auto simp: dom_eq_empty_conv[symmetric] simp del: dom_eq_empty_conv)
  then show ?thesis unfolding g by (auto simp: HealthCheck_def ReadyCheck_def Let_def)
qed

section \<open>A new middleware for authentication\<close>

definition NewAuthN :: "excludes \<times> (string \<times> string \<rightharpoonup> bool)" where
  "NewAuthN = (Map.empty, Map.empty)"

text \<open>It excludes nothing below the base path: the provider is asked for every request.\<close>

lemma new_authn_asks_provider:
  "HasPrefix (fst pm) basePath \<Longrightarrow>
   fst (Require basePath [] (Authenticated p) pm (snd NewAuthN)) = [SetPrincipal p] \<and>
   fst (Require basePath [] InvalidToken pm (snd NewAuthN)) = [AbortWithStatus 401]"
  by (simp add: Require_def NewAuthN_def LoadOrStoreFunc_def is_excluded_def Let_def)

end
