(* ===== verification/PartiQL.thy ===== *)
theory PartiQL
  imports Prelude
begin

text \<open>
  Package \<^verbatim>\<open>aws/partiql\<close>: the builder with its separator flag, the tags, and the encoder. A Go value is
  the tree that reflection sees; a field carries its name, whether it is exported, its tags and its
  value; promoted fields, which the encoder skips, are left out. A value that marshals itself, and a
  time, carry what their marshaler returns. Floats carry their text. The order of the entries of a map
  is the order in which \<^verbatim>\<open>MapKeys\<close> gives them.
\<close>

section \<open>Builder\<close>

record builder =
  b_out :: string
  b_tupleDepth :: nat
  b_writeSep :: bool

definition NewPartiQLBuilder :: builder where
  "NewPartiQLBuilder = \<lparr>b_out = [], b_tupleDepth = 0, b_writeSep = False\<rparr>"

definition WithStringBuilder :: "string \<Rightarrow> builder \<Rightarrow> builder" where
  "WithStringBuilder sb b = b\<lparr>b_out := sb\<rparr>"

definition Reset :: "builder \<Rightarrow> builder" where
  "Reset b = b\<lparr>b_out := [], b_tupleDepth := 0, b_writeSep := False\<rparr>"

definition put :: "string \<Rightarrow> builder \<Rightarrow> builder" where
  "put s b = b\<lparr>b_out := b_out b @ s\<rparr>"

definition writeSepIfNeeded :: "builder \<Rightarrow> builder" where
  "writeSepIfNeeded b = (if b_writeSep b then put '','' b else b\<lparr>b_writeSep := True\<rparr>)"

definition WriteBeginTuple :: "builder \<Rightarrow> builder" where
  "WriteBeginTuple b =
     (let b1 = put ''{'' (writeSepIfNeeded b) in b1\<lparr>b_tupleDepth := Suc (b_tupleDepth b1), b_writeSep := False\<rparr>)"

definition WriteEndTuple :: "builder \<Rightarrow> builder go" where
  "WriteEndTuple b =
     (if b_tupleDepth b = 0 then Panic ''unbalanced struct end''
      else let b1 = put ''}'' b in Ret (b1\<lparr>b_tupleDepth := b_tupleDepth b1 - 1, b_writeSep := True\<rparr>))"

abbreviation quote_char :: char where
  "quote_char \<equiv> CHR 0x27"

definition WriteKey :: "string \<Rightarrow> builder \<Rightarrow> builder" where
  "WriteKey name b = (put ([quote_char] @ name @ [quote_char] @ '':'') (writeSepIfNeeded b))\<lparr>b_writeSep := False\<rparr>"

definition quoted :: "string \<Rightarrow> string" where
  "quoted value = [quote_char] @ ReplaceAll value [quote_char] [quote_char, quote_char] @ [quote_char]"

definition WriteString :: "string \<Rightarrow> builder \<Rightarrow> builder" where
  "WriteString value b = put (quoted value) (writeSepIfNeeded b)"

definition WriteInteger :: "int \<Rightarrow> builder \<Rightarrow> builder" where
  "WriteInteger value b = put (show_int value) (writeSepIfNeeded b)"

definition WriteUInteger :: "nat \<Rightarrow> builder \<Rightarrow> builder" where
  "WriteUInteger value b = put (show_nat value) (writeSepIfNeeded b)"

definition WriteFloat :: "string \<Rightarrow> builder \<Rightarrow> builder" where
  "WriteFloat txt b = put txt (writeSepIfNeeded b)"

definition show_bool :: "bool \<Rightarrow> string" where
  "show_bool x = (if x then ''true'' else ''false'')"

definition WriteBoolean :: "bool \<Rightarrow> builder \<Rightarrow> builder" where
  "WriteBoolean value b = put (show_bool value) (writeSepIfNeeded b)"

definition WriteNull :: "builder \<Rightarrow> builder" where
  "WriteNull b = put ''NULL'' (writeSepIfNeeded b)"

definition WriteBeginBag :: "builder \<Rightarrow> builder" where
  "WriteBeginBag b = (put ''<<'' (writeSepIfNeeded b))\<lparr>b_writeSep := False\<rparr>"

definition WriteEndBag :: "builder \<Rightarrow> builder" where
  "WriteEndBag b = (put ''>>'' b)\<lparr>b_writeSep := True\<rparr>"

definition WriteBeginArray :: "builder \<Rightarrow> builder" where
  "WriteBeginArray b = (put ''['' (writeSepIfNeeded b))\<lparr>b_writeSep := False\<rparr>"

definition WriteEndArray :: "builder \<Rightarrow> builder" where
  "WriteEndArray b = (put '']'' b)\<lparr>b_writeSep := True\<rparr>"

definition writeBag :: "'a list \<Rightarrow> ('a \<Rightarrow> builder \<Rightarrow> builder) \<Rightarrow> builder \<Rightarrow> builder" where
  "writeBag values writeFunc b = WriteEndBag (fold writeFunc values (WriteBeginBag b))"

definition writeArray :: "'a list \<Rightarrow> ('a \<Rightarrow> builder \<Rightarrow> builder) \<Rightarrow> builder \<Rightarrow> builder" where
  "writeArray values writeFunc b = WriteEndArray (fold writeFunc values (WriteBeginArray b))"

definition WriteBooleanArray :: "bool list \<Rightarrow> builder \<Rightarrow> builder" where
  "WriteBooleanArray values = writeArray values WriteBoolean"

definition WriteBooleanBag :: "bool list \<Rightarrow> builder \<Rightarrow> builder" where
  "WriteBooleanBag values = writeBag values WriteBoolean"

definition WriteStringBag :: "string list \<Rightarrow> builder \<Rightarrow> builder" where
  "WriteStringBag values = writeBag values WriteString"

definition WriteIntegerBag :: "int list \<Rightarrow> builder \<Rightarrow> builder" where
  "WriteIntegerBag values = writeBag values WriteInteger"

definition WriteUIntegerBag :: "nat list \<Rightarrow> builder \<Rightarrow> builder" where
  "WriteUIntegerBag values = writeBag values WriteUInteger"

definition WriteFloatBag :: "string list \<Rightarrow> builder \<Rightarrow> builder" where
  "WriteFloatBag values = writeBag values WriteFloat"

definition WriteStringArray :: "string list \<Rightarrow> builder \<Rightarrow> builder" where
  "WriteStringArray values = writeArray values WriteString"

definition WriteIntegerArray :: "int list \<Rightarrow> builder \<Rightarrow> builder" where
  "WriteIntegerArray values = writeArray values WriteInteger"

definition WriteUIntegerArray :: "nat list \<Rightarrow> builder \<Rightarrow> builder" where
  "WriteUIntegerArray values = writeArray values WriteUInteger"

definition WriteFloatArray :: "string list \<Rightarrow> builder \<Rightarrow> builder" where
  "WriteFloatArray values = writeArray values WriteFloat"

definition builder_String :: "builder \<Rightarrow> string" where
  "builder_String b = b_out b"

section \<open>Tags\<close>

record tag_value =
  tv_Name :: string
  tv_Ignore :: bool
  tv_Squash :: bool
  tv_Bag :: bool

definition no_tag :: tag_value where
  "no_tag = \<lparr>tv_Name = [], tv_Ignore = False, tv_Squash = False, tv_Bag = False\<rparr>"

definition parseTag :: "string \<Rightarrow> tag_value" where
  "parseTag tagStr =
     (case Cut tagStr CHR '','' of (name, opts, _) \<Rightarrow>
        \<lparr>tv_Name = name, tv_Ignore = (name = ''-''), tv_Squash = Contains opts ''squash'', tv_Bag = Contains opts ''bag''\<rparr>)"

section \<open>Values and encoder\<close>

datatype pval =
    PInvalid | PUnsupported
  | PInt int | PUint nat | PFloat string | PBool bool | PString string
  | PTime pval | PMarshaler "string + pval"
  | PNilPtr | PPtr pval | PNilIface | PIface pval
  | PNilSlice | PSlice "pval list" | PArray "pval list"
  | PNilMap | PMap "pentry list"
  | PStruct "pfield list"
and pentry = Entry string pval
and pfield = Field string bool "(string \<times> string) list" pval

definition default_tag_names :: "string list" where
  "default_tag_names = [''partiql'', ''dynamodbav'', ''json'', ''yaml'']"

text \<open>The tag of a field: the first of the encoder's tag names that the field has.\<close>

fun lookup_tag :: "string list \<Rightarrow> (string \<times> string) list \<Rightarrow> tag_value" where
  "lookup_tag [] tags = no_tag"
| "lookup_tag (n # ns) tags = (case map_of tags n of Some t \<Rightarrow> parseTag t | None \<Rightarrow> lookup_tag ns tags)"

definition fieldName :: "string \<Rightarrow> tag_value \<Rightarrow> string" where
  "fieldName name tag = (if tv_Name tag \<noteq> [] then tv_Name tag else name)"

fun isEmptyCollection :: "pval \<Rightarrow> bool" where
  "isEmptyCollection (PPtr v) \<longleftrightarrow> v = PNilSlice \<or> v = PSlice []"
| "isEmptyCollection (PIface v) \<longleftrightarrow> v = PNilSlice \<or> v = PSlice []"
| "isEmptyCollection v \<longleftrightarrow> v = PNilSlice \<or> v = PSlice []"

text \<open>Whether a field is left out: an unsupported kind or a nil; \<^verbatim>\<open>IsNil\<close> panics on an array.\<close>

fun skip_field :: "pval \<Rightarrow> bool go" where
  "skip_field PInvalid = Ret True"
| "skip_field PUnsupported = Ret True"
| "skip_field PNilPtr = Ret True"
| "skip_field PNilIface = Ret True"
| "skip_field PNilSlice = Ret True"
| "skip_field PNilMap = Ret True"
| "skip_field (PArray vs) = Panic ''reflect: call of reflect.Value.IsNil on array Value''"
| "skip_field v = Ret False"

text \<open>The outcome of an encoding step: it panics, fails, or goes on with the builder.\<close>

type_synonym step = "(string + builder) go"

fun next_step :: "step \<Rightarrow> (builder \<Rightarrow> step) \<Rightarrow> step" where
  "next_step (Ret (Inr b)) f = f b"
| "next_step (Ret (Inl e)) f = Ret (Inl e)"
| "next_step (Panic m) f = Panic m"

text \<open>Mutual recursion as in the source; calling \<^verbatim>\<open>Interface\<close> on an invalid value panics, which is what
  the element of a nil pointer or interface is.\<close>

fun marshal :: "string list \<Rightarrow> pval \<Rightarrow> tag_value \<Rightarrow> builder \<Rightarrow> step"
  and marshal_elems :: "string list \<Rightarrow> pval list \<Rightarrow> builder \<Rightarrow> step"
  and marshal_entries :: "string list \<Rightarrow> pentry list \<Rightarrow> builder \<Rightarrow> step"
  and marshal_fields :: "string list \<Rightarrow> pfield list \<Rightarrow> builder \<Rightarrow> step" where
  "marshal ns PInvalid tag b = Panic ''reflect: call of reflect.Value.Interface on zero Value''"
| "marshal ns PUnsupported tag b = Ret (Inr b)"
| "marshal ns (PMarshaler (Inl e)) tag b = Ret (Inl e)"
| "marshal ns (PMarshaler (Inr v)) tag b = marshal ns v tag b"
| "marshal ns PNilPtr tag b = Panic ''reflect: call of reflect.Value.Interface on zero Value''"
| "marshal ns (PPtr v) tag b = marshal ns v tag b"
| "marshal ns PNilIface tag b = Panic ''reflect: call of reflect.Value.Interface on zero Value''"
| "marshal ns (PIface v) tag b = marshal ns v tag b"
| "marshal ns (PInt i) tag b = Ret (Inr (WriteInteger i b))"
| "marshal ns (PUint n) tag b = Ret (Inr (WriteUInteger n b))"
| "marshal ns (PFloat t) tag b = Ret (Inr (WriteFloat t b))"
| "marshal ns (PBool x) tag b = Ret (Inr (WriteBoolean x b))"
| "marshal ns (PString s) tag b = Ret (Inr (WriteString s b))"
| "marshal ns PNilSlice tag b =
     Ret (Inr (if tv_Bag tag then WriteEndBag (WriteBeginBag b) else WriteEndArray (WriteBeginArray b)))"
| "marshal ns (PSlice vs) tag b =
     next_step (marshal_elems ns vs (if tv_Bag tag then WriteBeginBag b else WriteBeginArray b))
       (\<lambda>b1. Ret (Inr (if tv_Bag tag then WriteEndBag b1 else WriteEndArray b1)))"
| "marshal ns (PArray vs) tag b =
     next_step (marshal_elems ns vs (if tv_Bag tag then WriteBeginBag b else WriteBeginArray b))
       (\<lambda>b1. Ret (Inr (if tv_Bag tag then WriteEndBag b1 else WriteEndArray b1)))"
| "marshal ns PNilMap tag b = go_bind (WriteEndTuple (WriteBeginTuple b)) (\<lambda>b1. Ret (Inr b1))"
| "marshal ns (PMap es) tag b =
     next_step (marshal_entries ns es (WriteBeginTuple b)) (\<lambda>b1. go_bind (WriteEndTuple b1) (\<lambda>b2. Ret (Inr b2)))"
| "marshal ns (PTime v) tag b = marshal ns v tag b"
| "marshal ns (PStruct fs) tag b =
     next_step (marshal_fields ns fs (if tv_Squash tag then b else WriteBeginTuple b))
       (\<lambda>b1. if tv_Squash tag then Ret (Inr b1) else go_bind (WriteEndTuple b1) (\<lambda>b2. Ret (Inr b2)))"
| "marshal_elems ns [] b = Ret (Inr b)"
| "marshal_elems ns (v # vs) b = next_step (marshal ns v no_tag b) (marshal_elems ns vs)"
| "marshal_entries ns [] b = Ret (Inr b)"
| "marshal_entries ns (Entry k v # es) b =
     next_step (marshal ns v no_tag (WriteKey k b)) (marshal_entries ns es)"
| "marshal_fields ns [] b = Ret (Inr b)"
| "marshal_fields ns (Field name exported tags v # fs) b =
     (if \<not> exported then marshal_fields ns fs b
      else let tag = lookup_tag ns tags in
        if tv_Ignore tag then marshal_fields ns fs b
        else (case skip_field v of
                Panic m \<Rightarrow> Panic m
              | Ret True \<Rightarrow> marshal_fields ns fs b
              | Ret False \<Rightarrow>
                  if tv_Bag tag \<and> isEmptyCollection v then marshal_fields ns fs b
                  else next_step
                         (marshal ns v tag (if tv_Squash tag then b else WriteKey (fieldName name tag) b))
                         (marshal_fields ns fs)))"

fun encoded :: "step \<Rightarrow> (string + string) go" where
  "encoded (Panic m) = Panic m"
| "encoded (Ret (Inl e)) = Ret (Inl e)"
| "encoded (Ret (Inr b)) = Ret (Inr (builder_String b))"

definition Encoder_Marshal :: "string list \<Rightarrow> builder \<Rightarrow> pval \<Rightarrow> (string + string) go" where
  "Encoder_Marshal tagNames b v = encoded (marshal tagNames v no_tag (Reset b))"

definition MarshalCollection :: "string list \<Rightarrow> builder \<Rightarrow> pval \<Rightarrow> bool \<Rightarrow> (string + string) go" where
  "MarshalCollection tagNames b v asBag = encoded (marshal tagNames v (no_tag\<lparr>tv_Bag := asBag\<rparr>) (Reset b))"

definition Marshal :: "pval \<Rightarrow> (string + string) go" where
  "Marshal v = Encoder_Marshal default_tag_names NewPartiQLBuilder v"

definition WithTagNames :: "string list \<Rightarrow> string list go" where
  "WithTagNames tagNames = (if tagNames = [] then Panic ''at least one tag name must be provided'' else Ret tagNames)"

section \<open>String literals\<close>

text \<open>Reading a literal of PartiQL: two quotes are one, a single quote ends it.\<close>

fun read_body :: "string \<Rightarrow> (string \<times> string) option" where
  "read_body [] = None"
| "read_body (c # s) =
     (if c \<noteq> quote_char then map_option (\<lambda>(v, r). (c # v, r)) (read_body s)
      else (case s of
              [] \<Rightarrow> Some ([], [])
            | d # s' \<Rightarrow> if d = quote_char then map_option (\<lambda>(v, r). (quote_char # v, r)) (read_body s') else Some ([], s)))"

fun read_literal :: "string \<Rightarrow> (string \<times> string) option" where
  "read_literal [] = None"
| "read_literal (c # s) = (if c = quote_char then read_body s else None)"

lemma read_body_quoted:
  "rest = [] \<or> hd rest \<noteq> quote_char \<Longrightarrow>
   read_body (ReplaceAll v [quote_char] [quote_char, quote_char] @ quote_char # rest) = Some (v, rest)"
proof (induction v)
  case Nil
  then show ?case by (cases rest) (auto simp: ReplaceAll_single)
next
  case (Cons c v)
  then show ?case by (simp add: ReplaceAll_single)
qed



section \<open>The encoder as a printer\<close>

text \<open>Writing texts one after the other, with separators.\<close>

definition emit :: "string list \<Rightarrow> builder \<Rightarrow> builder" where
  "emit xs b = fold (\<lambda>x b. put x (writeSepIfNeeded b)) xs b"

lemma emit_simps [simp]:
  "emit [] b = b" "emit (x # xs) b = emit xs (put x (writeSepIfNeeded b))" "emit (xs @ ys) b = emit ys (emit xs b)"
  by (simp_all add: emit_def)

lemma builder_eqI: "b_out a = b_out b \<Longrightarrow> b_tupleDepth a = b_tupleDepth b \<Longrightarrow> b_writeSep a = b_writeSep b \<Longrightarrow> a = (b :: builder)"
  by simp

lemma Join_Cons: "xs \<noteq> [] \<Longrightarrow> Join (x # xs) sep = x @ sep @ Join xs sep"
  by (cases xs) auto

lemma emit_after: "b_writeSep b \<Longrightarrow>
  emit xs b = b\<lparr>b_out := b_out b @ concat (map ((#) CHR '','') xs)\<rparr>"
  by (induction xs arbitrary: b) (auto simp: put_def writeSepIfNeeded_def)

lemma Join_commas: "Join (x # xs) '','' = x @ concat (map ((#) CHR '','') xs)"
  by (induction xs arbitrary: x) auto

lemma emit_fresh:
  "\<not> b_writeSep b \<Longrightarrow> emit xs b = b\<lparr>b_out := b_out b @ Join xs '','', b_writeSep := (xs \<noteq> [])\<rparr>"
proof (cases xs)
  case (Cons x ys)
  assume "\<not> b_writeSep b"
  then show ?thesis
    unfolding Cons Join_commas by (auto simp: emit_after put_def writeSepIfNeeded_def intro!: builder_eqI)
qed simp

text \<open>The texts of a value, or \<open>None\<close> where the encoder fails, panics, or leaves a key without a value.\<close>

definition one_text :: "string list option \<Rightarrow> string option" where
  "one_text r = (case r of Some [x] \<Rightarrow> Some x | _ \<Rightarrow> None)"

definition key_text :: "string \<Rightarrow> string" where
  "key_text k = [quote_char] @ k @ [quote_char] @ '':''"

definition in_brackets :: "tag_value \<Rightarrow> string list \<Rightarrow> string" where
  "in_brackets tag xs = (if tv_Bag tag then ''<<'' @ Join xs '','' @ ''>>'' else ''['' @ Join xs '','' @ '']'')"

definition in_braces :: "string list \<Rightarrow> string" where
  "in_braces xs = ''{'' @ Join xs '','' @ ''}''"

definition append_texts :: "string list option \<Rightarrow> string list option \<Rightarrow> string list option" where
  "append_texts r s = (case r of None \<Rightarrow> None | Some xs \<Rightarrow> map_option (\<lambda>ys. xs @ ys) s)"

fun texts :: "string list \<Rightarrow> pval \<Rightarrow> tag_value \<Rightarrow> string list option"
  and texts_elems :: "string list \<Rightarrow> pval list \<Rightarrow> string list option"
  and texts_entries :: "string list \<Rightarrow> pentry list \<Rightarrow> string list option"
  and texts_fields :: "string list \<Rightarrow> pfield list \<Rightarrow> string list option" where
  "texts ns PInvalid tag = None"
| "texts ns PUnsupported tag = Some []"
| "texts ns (PMarshaler (Inl e)) tag = None"
| "texts ns (PMarshaler (Inr v)) tag = texts ns v tag"
| "texts ns PNilPtr tag = None"
| "texts ns (PPtr v) tag = texts ns v tag"
| "texts ns PNilIface tag = None"
| "texts ns (PIface v) tag = texts ns v tag"
| "texts ns (PInt i) tag = Some [show_int i]"
| "texts ns (PUint n) tag = Some [show_nat n]"
| "texts ns (PFloat t) tag = Some [t]"
| "texts ns (PBool x) tag = Some [show_bool x]"
| "texts ns (PString s) tag = Some [quoted s]"
| "texts ns PNilSlice tag = Some [in_brackets tag []]"
| "texts ns (PSlice vs) tag = map_option (\<lambda>xs. [in_brackets tag xs]) (texts_elems ns vs)"
| "texts ns (PArray vs) tag = map_option (\<lambda>xs. [in_brackets tag xs]) (texts_elems ns vs)"
| "texts ns PNilMap tag = Some [in_braces []]"
| "texts ns (PMap es) tag = map_option (\<lambda>xs. [in_braces xs]) (texts_entries ns es)"
| "texts ns (PTime v) tag = texts ns v tag"
| "texts ns (PStruct fs) tag = map_option (\<lambda>xs. if tv_Squash tag then xs else [in_braces xs]) (texts_fields ns fs)"
| "texts_elems ns [] = Some []"
| "texts_elems ns (v # vs) = append_texts (texts ns v no_tag) (texts_elems ns vs)"
| "texts_entries ns [] = Some []"
| "texts_entries ns (Entry k v # es) =
     append_texts (map_option (\<lambda>x. [key_text k @ x]) (one_text (texts ns v no_tag))) (texts_entries ns es)"
| "texts_fields ns [] = Some []"
| "texts_fields ns (Field name exported tags v # fs) =
     (if \<not> exported then texts_fields ns fs
      else let tag = lookup_tag ns tags in
        if tv_Ignore tag then texts_fields ns fs
        else (case skip_field v of
                Panic m \<Rightarrow> None
              | Ret True \<Rightarrow> texts_fields ns fs
              | Ret False \<Rightarrow>
                  if tv_Bag tag \<and> isEmptyCollection v then texts_fields ns fs
                  else append_texts
                         (if tv_Squash tag then texts ns v tag
                          else map_option (\<lambda>x. [key_text (fieldName name tag) @ x]) (one_text (texts ns v tag)))
                         (texts_fields ns fs)))"

lemma collection_emit:
  "tv_Bag tag \<Longrightarrow> WriteEndBag (emit xs (WriteBeginBag b)) = emit [in_brackets tag xs] b"
  "\<not> tv_Bag tag \<Longrightarrow> WriteEndArray (emit xs (WriteBeginArray b)) = emit [in_brackets tag xs] b"
  by (auto simp: emit_fresh in_brackets_def WriteBeginBag_def WriteBeginArray_def WriteEndBag_def WriteEndArray_def
      put_def writeSepIfNeeded_def intro!: builder_eqI)

lemma tuple_emit: "go_bind (WriteEndTuple (emit xs (WriteBeginTuple b))) (\<lambda>b2. Ret (Inr b2)) = Ret (Inr (emit [in_braces xs] b))"
  by (auto simp: emit_fresh in_braces_def WriteBeginTuple_def WriteEndTuple_def put_def writeSepIfNeeded_def Let_def
      intro!: builder_eqI)

lemma key_emit: "emit [x] (WriteKey k b) = emit [key_text k @ x] b"
  by (auto simp: WriteKey_def key_text_def put_def writeSepIfNeeded_def intro!: builder_eqI)

lemma append_texts_Some: "append_texts r s = Some zs \<longleftrightarrow> (\<exists>xs ys. r = Some xs \<and> s = Some ys \<and> zs = xs @ ys)"
  by (auto simp: append_texts_def split: option.splits)

lemma one_text_Some: "one_text r = Some x \<longleftrightarrow> r = Some [x]"
  by (auto simp: one_text_def split: option.splits list.splits)

text \<open>A field is either written or left out; both functions leave out the same ones.\<close>

definition field_texts :: "string list \<Rightarrow> string \<Rightarrow> tag_value \<Rightarrow> pval \<Rightarrow> string list option" where
  "field_texts ns name tag v = (if tv_Squash tag then texts ns v tag
     else map_option (\<lambda>x. [key_text (fieldName name tag) @ x]) (one_text (texts ns v tag)))"

definition field_written :: "bool \<Rightarrow> tag_value \<Rightarrow> pval \<Rightarrow> bool" where
  "field_written exported tag v \<longleftrightarrow> exported \<and> \<not> tv_Ignore tag \<and> skip_field v = Ret False \<and> \<not> (tv_Bag tag \<and> isEmptyCollection v)"

lemma field_written_step:
  assumes "field_written exported (lookup_tag ns tags) v"
  shows "texts_fields ns (Field name exported tags v # fs) =
      append_texts (field_texts ns name (lookup_tag ns tags) v) (texts_fields ns fs)"
    and "marshal_fields ns (Field name exported tags v # fs) b = next_step
      (marshal ns v (lookup_tag ns tags) (if tv_Squash (lookup_tag ns tags) then b else WriteKey (fieldName name (lookup_tag ns tags)) b))
      (marshal_fields ns fs)"
  using assms by (auto simp: field_written_def Let_def field_texts_def)

lemma field_left_out_step:
  assumes "\<not> field_written exported (lookup_tag ns tags) v" "texts_fields ns (Field name exported tags v # fs) = Some ws"
  shows "texts_fields ns fs = Some ws" and "marshal_fields ns (Field name exported tags v # fs) b = marshal_fields ns fs b"
    and "\<not> exported \<or> tv_Ignore (lookup_tag ns tags) \<or> skip_field v = Ret True \<or>
      skip_field v = Ret False \<and> tv_Bag (lookup_tag ns tags) \<and> isEmptyCollection v"
  using assms by (cases "skip_field v"; auto simp: field_written_def Let_def split: if_splits bool.splits)+

lemma field_emits:
  assumes "\<And>xs b. texts ns v tag = Some xs \<Longrightarrow> marshal ns v tag b = Ret (Inr (emit xs b))"
    and "field_texts ns name tag v = Some us"
  shows "marshal ns v tag (if tv_Squash tag then b else WriteKey (fieldName name tag) b) = Ret (Inr (emit us b))"
proof (cases "tv_Squash tag")
  case True
  then show ?thesis using assms(2) by (simp add: assms(1) field_texts_def)
next
  case False
  then obtain x where x: "texts ns v tag = Some [x]" and us: "us = [key_text (fieldName name tag) @ x]"
    using assms(2) by (auto simp: one_text_Some field_texts_def)
  show ?thesis unfolding us key_emit[symmetric] using assms(1)[OF x] False by simp
qed

lemma marshal_emits:
  "texts ns v tag = Some xs \<Longrightarrow> marshal ns v tag b = Ret (Inr (emit xs b))"
  "texts_elems ns vs = Some ys \<Longrightarrow> marshal_elems ns vs b = Ret (Inr (emit ys b))"
  "texts_entries ns es = Some zs \<Longrightarrow> marshal_entries ns es b = Ret (Inr (emit zs b))"
  "texts_fields ns fs = Some ws \<Longrightarrow> marshal_fields ns fs b = Ret (Inr (emit ws b))"
proof (induction ns v tag and ns vs and ns es and ns fs arbitrary: xs b and ys b and zs b and ws b
    rule: texts_texts_elems_texts_entries_texts_fields.induct)
  case (14 ns tag)
  then show ?case using collection_emit[of tag "[]" b] by auto
next
  case (15 ns vs tag)
  then show ?case by (auto simp: collection_emit simp del: emit_simps(2))
next
  case (16 ns vs tag)
  then show ?case by (auto simp: collection_emit simp del: emit_simps(2))
next
  case (17 ns tag)
  then show ?case using tuple_emit[of "[]" b] by simp
next
  case (18 ns es tag)
  then show ?case by (auto simp: tuple_emit simp del: emit_simps(2))
next
  case (20 ns fs tag)
  then show ?case by (auto simp: tuple_emit split: if_splits simp del: emit_simps(2))
next
  case (22 ns v vs)
  then show ?case by (auto simp: append_texts_Some)
next
  case (24 ns k v es)
  then obtain z ys where t: "texts ns v no_tag = Some [z]" "texts_entries ns es = Some ys" "zs = [key_text k @ z] @ ys"
    by (auto simp: append_texts_Some one_text_Some)
  show ?case using 24(1)[OF t(1)] 24(2)[OF t(2)] unfolding t(3) emit_simps(3) key_emit[symmetric] by simp
next
  case (26 ns name exported tags v fs)
  show ?case
  proof (cases "field_written exported (lookup_tag ns tags) v")
    case True
    then obtain us ws' where u: "field_texts ns name (lookup_tag ns tags) v = Some us"
      and w: "texts_fields ns fs = Some ws'" and ws: "ws = us @ ws'"
      using "26.prems" unfolding field_written_step(1)[OF True] append_texts_Some by blast
    have "marshal ns v (lookup_tag ns tags) b' = Ret (Inr (emit xs b'))" if "texts ns v (lookup_tag ns tags) = Some xs" for xs b'
      using 26(5,6)[OF _ refl] True that unfolding field_written_def by blast
    from field_emits[OF this u]
    have v: "marshal ns v (lookup_tag ns tags) (if tv_Squash (lookup_tag ns tags) then b
        else WriteKey (fieldName name (lookup_tag ns tags)) b) = Ret (Inr (emit us b))" .
    have "marshal_fields ns fs b' = Ret (Inr (emit ws' b'))" for b'
      using 26(7)[OF _ refl] True w unfolding field_written_def by blast
    then show ?thesis by (simp only: field_written_step(2)[OF True] v ws emit_simps(3) next_step.simps)
  next
    case False
    show ?thesis
      unfolding field_left_out_step(2)[OF False "26.prems"]
      using 26(1) 26(2-4)[OF _ refl] field_left_out_step(1,3)[OF False "26.prems"] by blast
  qed
qed (auto simp: WriteInteger_def WriteUInteger_def WriteFloat_def WriteBoolean_def WriteString_def)

text \<open>C12. For every value whose texts are defined, the encoder with its stateful builder returns, without
  an error or a panic, exactly the texts separated by commas: elements in brackets, tuples in braces,
  each key with its value, nothing for unsupported elements, and squashed fields in place.\<close>

theorem encoder_is_printer:
  "texts ns v no_tag = Some xs \<Longrightarrow> Encoder_Marshal ns b v = Ret (Inr (Join xs '',''))"
  by (simp add: Encoder_Marshal_def marshal_emits(1) emit_fresh Reset_def builder_String_def)

theorem encoder_is_printer_witness:
  "Encoder_Marshal default_tag_names NewPartiQLBuilder
     (PStruct [Field ''ID'' True [(''json'', ''id'')] (PInt 7), Field ''Tags'' True [(''partiql'', '',bag'')] (PSlice [PString ''x'', PString ''y'']),
               Field ''P'' True [] PNilPtr]) =
   Ret (Inr ([CHR ''{'', quote_char] @ ''id'' @ [quote_char, CHR '':''] @ show_int 7 @ [CHR '','', quote_char] @ ''Tags'' @
     [quote_char] @ '':<<'' @ [quote_char] @ ''x'' @ [quote_char, CHR '','', quote_char] @ ''y'' @ [quote_char] @ ''>>}''))"
proof -
  let ?v = "PStruct [Field ''ID'' True [(''json'', ''id'')] (PInt 7), Field ''Tags'' True [(''partiql'', '',bag'')] (PSlice [PString ''x'', PString ''y'']),
               Field ''P'' True [] PNilPtr]"
  have "texts default_tag_names ?v no_tag = Some [in_braces [key_text ''id'' @ show_int 7, key_text ''Tags'' @
      ''<<'' @ Join [quoted ''x'', quoted ''y''] '','' @ ''>>'']]"
    by (simp add: default_tag_names_def parseTag_def no_tag_def fieldName_def HasPrefix_def append_texts_def one_text_def
        in_brackets_def)
  from encoder_is_printer[OF this, of NewPartiQLBuilder] show ?thesis
    by (simp add: in_braces_def key_text_def quoted_def ReplaceAll_single)
qed

text \<open>A nil pointer inside a collection makes the encoder panic, and so does an array in a struct.\<close>

lemma nil_element_panics: "\<exists>m. Encoder_Marshal ns b (PSlice [PNilPtr]) = Panic m"
  "\<exists>m. Encoder_Marshal ns b (PStruct [Field n True [] (PArray vs)]) = Panic m"
proof -
  show "\<exists>m. Encoder_Marshal ns b (PSlice [PNilPtr]) = Panic m" by (simp add: Encoder_Marshal_def)
  have "lookup_tag ns [] = no_tag" by (induction ns) auto
  then show "\<exists>m. Encoder_Marshal ns b (PStruct [Field n True [] (PArray vs)]) = Panic m"
    by (simp add: Encoder_Marshal_def no_tag_def Let_def)
qed

end
