(* ===== verification/DynamoDB.thy ===== *)
theory DynamoDB
  imports PartiQL Functional "HOL-Library.Word" Complex_Main
begin

text \<open>
  The DynamoDB client of \<^verbatim>\<open>aws/dynamodb\<close>: the builders of PartiQL statements for reading, inserting,
  updating and deleting items, and the management of tables. The AWS client, its value codec and the
  user's model types are not part of the repository: the client and the codec are the functions of
  the record \<open>dynamo\<close>, a model type is a record \<open>model_ops\<close> with the methods of the interface
  \<^verbatim>\<open>Model\<close>. Times are microseconds, \<open>None\<close> being the zero time; table names are printable ASCII.
\<close>

section \<open>Keys, models and the client\<close>

record primary_key =
  pk_HashKey :: string
  pk_Hash :: string
  pk_RangeKey :: string
  pk_Range :: "pval option"

definition zero_pk :: primary_key where
  "zero_pk = \<lparr>pk_HashKey = [], pk_Hash = [], pk_RangeKey = [], pk_Range = None\<rparr>"

type_synonym gtime = "int option"

text \<open>The interfaces \<^verbatim>\<open>Model\<close> and \<^verbatim>\<open>ModelWithUpdateTs\<close>; \<open>mo_GetUpdateTsKey\<close> is \<open>None\<close> for a model that does
  not implement the second one, and \<open>mo_value\<close> is what reflection sees of the model.\<close>

record 'm model_ops =
  mo_GetTableName :: "'m \<Rightarrow> string"
  mo_GetPK :: "'m \<Rightarrow> primary_key"
  mo_SetPK :: "primary_key \<Rightarrow> 'm \<Rightarrow> 'm"
  mo_GetCreateTs :: "'m \<Rightarrow> gtime"
  mo_SetCreateTs :: "gtime \<Rightarrow> 'm \<Rightarrow> 'm"
  mo_GetUpdateTsKey :: "'m \<Rightarrow> string option"
  mo_SetUpdateTs :: "gtime \<Rightarrow> 'm \<Rightarrow> 'm"
  mo_value :: "'m \<Rightarrow> pval"

text \<open>An argument of a statement: a value, a time, a float made by an increment, or a slice passed as one
  argument.\<close>

datatype arg = Arg "pval option" | ArgTime int | ArgFloat rat | ArgSlice "arg list"

record 'av input =
  in_Statement :: string
  in_Parameters :: "'av list"
  in_ConsistentRead :: "bool option"

text \<open>What \<^verbatim>\<open>errors.As\<close> recognises in an error of the client, with its text.\<close>

datatype api_error =
    DuplicateItemException string
  | GenericAPIError string string
  | ConditionalCheckFailedException string
  | OtherError string

record ('it, 'x) response =
  rs_Items :: "'it list"
  rs_Meta :: 'x

record ('av, 'it, 'x, 'm) dynamo =
  dy_tablePrefix :: string
  dy_Now :: int
  dy_encode :: "arg list \<Rightarrow> string + 'av list"
  dy_decodeMap :: "'it \<Rightarrow> 'm \<Rightarrow> string option \<times> 'm"
  dy_decodeList :: "'it list \<Rightarrow> 'm list \<Rightarrow> string option \<times> 'm list"
  dy_Execute :: "'av input \<Rightarrow> ('it, 'x) response option \<times> api_error option"

text \<open>The errors of the framework, one constructor for each code, with the message.\<close>

datatype ddb_error = BadArgument string | NotFound string | Conflict string | BadState string | Unknown string

record 'x exec_result =
  er_Err :: "ddb_error option"
  er_Meta :: "'x option"

definition no_result :: "'x exec_result" where
  "no_result = \<lparr>er_Err = None, er_Meta = None\<rparr>"

fun api_text :: "api_error option \<Rightarrow> string" where
  "api_text None = ''%!w(<nil>)''"
| "api_text (Some (DuplicateItemException m)) = m"
| "api_text (Some (GenericAPIError c m)) = m"
| "api_text (Some (ConditionalCheckFailedException m)) = m"
| "api_text (Some (OtherError m)) = m"

text \<open>\<^verbatim>\<open>%q\<close> on a printable ASCII string.\<close>

definition go_quote :: "string \<Rightarrow> string" where
  "go_quote s = [CHR 0x22] @ concat (map (\<lambda>c. if c = CHR 0x22 \<or> c = CHR 0x5C then [CHR 0x5C, c] else [c]) s) @ [CHR 0x22]"

definition table_of :: "('av, 'it, 'x, 'm) dynamo \<Rightarrow> 'm model_ops \<Rightarrow> 'm \<Rightarrow> string" where
  "table_of d ops m = dy_tablePrefix d @ mo_GetTableName ops m"

section \<open>Insert\<close>

record ('x, 'm) insert_one =
  io_Result :: "'x exec_result"
  io_model :: "'m option"

text \<open>\<open>Insert\<close> fills the times and the hash key; \<open>uuid\<close> is the fresh identifier of this call. The model is
  returned as well since the builder changes the caller's object.\<close>

definition Insert :: "('av, 'it, 'x, 'm) dynamo \<Rightarrow> 'm model_ops \<Rightarrow> string \<Rightarrow> 'm \<Rightarrow> ('x, 'm) insert_one \<times> 'm" where
  "Insert d ops uuid model =
     (let m1 = (if mo_GetCreateTs ops model = None then mo_SetCreateTs ops (Some (dy_Now d)) model else model);
          m2 = (case mo_GetUpdateTsKey ops m1 of None \<Rightarrow> m1 | Some k \<Rightarrow> mo_SetUpdateTs ops (mo_GetCreateTs ops m1) m1);
          pk = mo_GetPK ops m2
      in if pk_Hash pk = []
         then if pk_RangeKey pk \<noteq> [] \<and> pk_Range pk = None
              then (\<lparr>io_Result = no_result\<lparr>er_Err := Some (BadArgument ''missing range key for model'')\<rparr>, io_model = None\<rparr>, m2)
              else let m3 = mo_SetPK ops (pk\<lparr>pk_Hash := uuid\<rparr>) m2 in (\<lparr>io_Result = no_result, io_model = Some m3\<rparr>, m3)
         else (\<lparr>io_Result = no_result, io_model = Some m2\<rparr>, m2))"

text \<open>The error that a failed insertion is turned into.\<close>

fun insert_error :: "string \<Rightarrow> api_error \<Rightarrow> ddb_error" where
  "insert_error table (DuplicateItemException m) = Conflict (''item already exists in table: '' @ table)"
| "insert_error table (GenericAPIError c m) =
     (if c = ''DuplicateItem'' then Conflict (''item already exists in table: '' @ table)
      else Unknown (''failed to put item in table: '' @ table @ '', error: '' @ m))"
| "insert_error table e = Unknown (''failed to put item in table: '' @ table @ '', error: '' @ api_text (Some e))"

text \<open>The panics are those of a nil pointer: a builder without a model, or a client that returns neither a
  response nor an error.\<close>

definition Insert_Execute ::
  "('av, 'it, 'x, 'm) dynamo \<Rightarrow> 'm model_ops \<Rightarrow> ('x, 'm) insert_one \<Rightarrow> ('x exec_result \<times> ddb_error option) go" where
  "Insert_Execute d ops i =
     (case er_Err (io_Result i) of
        Some e \<Rightarrow> Ret (no_result, Some e)
      | None \<Rightarrow>
         (case io_model i of
            None \<Rightarrow> Panic ''nil pointer''
          | Some m \<Rightarrow>
             (let table = table_of d ops m
              in case Encoder_Marshal default_tag_names NewPartiQLBuilder (mo_value ops m) of
                   Panic p \<Rightarrow> Panic p
                 | Ret (Inl e) \<Rightarrow> Ret (no_result, Some (Unknown (''failed to marshal item, error: '' @ e)))
                 | Ret (Inr item) \<Rightarrow>
                    (case dy_Execute d \<lparr>in_Statement = ''INSERT INTO '' @ go_quote table @ '' VALUE '' @ item,
                                        in_Parameters = [], in_ConsistentRead = None\<rparr> of
                       (res, Some e) \<Rightarrow> Ret (no_result, Some (insert_error table e))
                     | (None, None) \<Rightarrow> Panic ''nil pointer''
                     | (Some r, None) \<Rightarrow> Ret ((io_Result i)\<lparr>er_Meta := Some (rs_Meta r)\<rparr>, None)))))"

section \<open>Delete\<close>

definition key_where :: "primary_key \<Rightarrow> string \<times> arg list" where
  "key_where pk =
     (if pk_RangeKey pk \<noteq> []
      then (pk_HashKey pk @ '' = ? AND '' @ pk_RangeKey pk @ '' = ?'', [Arg (Some (PString (pk_Hash pk))), Arg (pk_Range pk)])
      else (pk_HashKey pk @ '' = ?'', [Arg (Some (PString (pk_Hash pk)))]))"

definition delete_statement :: "string \<Rightarrow> primary_key \<Rightarrow> string" where
  "delete_statement table pk = ''DELETE FROM '' @ go_quote table @ '' WHERE '' @ fst (key_where pk) @ '' RETURNING ALL OLD *''"

definition Delete_Execute ::
  "('av, 'it, 'x, 'm) dynamo \<Rightarrow> 'm model_ops \<Rightarrow> 'm \<Rightarrow> 'x exec_result \<times> ddb_error option" where
  "Delete_Execute d ops m =
     (let table = table_of d ops m; pk = mo_GetPK ops m
      in case dy_encode d (snd (key_where pk)) of
           Inl e \<Rightarrow> (no_result, Some (Unknown (''failed to marshal parameters, error: '' @ e)))
         | Inr ps \<Rightarrow>
            (case dy_Execute d \<lparr>in_Statement = delete_statement table pk, in_Parameters = ps, in_ConsistentRead = None\<rparr> of
               (Some r, None) \<Rightarrow>
                 (let err = (if rs_Items r = [] then Some (NotFound (''item not found in table: '' @ table)) else None)
                  in (\<lparr>er_Err = err, er_Meta = Some (rs_Meta r)\<rparr>, err))
             | (res, Some (ConditionalCheckFailedException t)) \<Rightarrow>
                 (no_result, Some (NotFound (''item not found in table: '' @ table)))
             | (res, e) \<Rightarrow> (no_result, Some (Unknown (''failed to delete item from table: '' @ table @ '', error: '' @ api_text e)))))"

section \<open>Query\<close>

text \<open>The classes of the two regular expressions of \<^verbatim>\<open>query.go\<close>.\<close>

definition is_space :: "char \<Rightarrow> bool" where
  "is_space c \<longleftrightarrow> c \<in> {CHR 0x20, CHR 0x09, CHR 0x0A, CHR 0x0C, CHR 0x0D}"

definition is_word :: "char \<Rightarrow> bool" where
  "is_word c \<longleftrightarrow> (let n = (of_char c :: nat) in 48 \<le> n \<and> n \<le> 57 \<or> 65 \<le> n \<and> n \<le> 90 \<or> 97 \<le> n \<and> n \<le> 122 \<or> n = 95)"

text \<open>A match at a position gives the second group and the text after the match. The groups are separated
  by characters that the neighbouring repetitions exclude, so that greedy matching does not backtrack
  before the bracket. The flag says whether the position is the beginning of the clause.

  \<^item> \<^verbatim>\<open>(^|\s+)(\w+)\s*=\s*\S+\<close>\<close>

definition fieldEqRegex :: "bool \<Rightarrow> string \<Rightarrow> (string \<times> string) option" where
  "fieldEqRegex start s =
     (let r = dropWhile is_space s; w = takeWhile is_word r
      in if takeWhile is_space s = [] \<and> \<not> start \<or> w = [] then None
         else (case dropWhile is_space (dropWhile is_word r) of
                 [] \<Rightarrow> None
               | c # t \<Rightarrow> let v = dropWhile is_space t
                          in if c \<noteq> CHR ''='' \<or> v = [] then None
                             else Some (w, dropWhile (\<lambda>c. \<not> is_space c) v)))"

text \<open>\<^item> \<^verbatim>\<open>(?i)(^|\s+)(\w+)\s+IN\s+\[\s*\S+.*?]\<close>: after the bracket the longest run of other characters is tried
  first, then the first closing bracket on the line.\<close>

fun close_bracket :: "string \<Rightarrow> string option" where
  "close_bracket [] = None"
| "close_bracket (c # s) = (if c = CHR '']'' then Some s else if c = CHR 0x0A then None else close_bracket s)"

fun try_run :: "nat \<Rightarrow> string \<Rightarrow> string option" where
  "try_run 0 s = None"
| "try_run (Suc n) s = (case close_bracket (drop (Suc n) s) of Some r \<Rightarrow> Some r | None \<Rightarrow> try_run n s)"

definition fieldInRegex :: "bool \<Rightarrow> string \<Rightarrow> (string \<times> string) option" where
  "fieldInRegex start s =
     (let r = dropWhile is_space s; w = takeWhile is_word r; t = dropWhile is_word r; u = dropWhile is_space t;
          v = drop 2 u; x = dropWhile is_space v
      in if takeWhile is_space s = [] \<and> \<not> start \<or> w = [] \<or> takeWhile is_space t = [] \<or> ToUpper (take 2 u) \<noteq> ''IN'' \<or>
            takeWhile is_space v = []
         then None
         else (case x of
                 [] \<Rightarrow> None
               | c # y \<Rightarrow> let z = dropWhile is_space y
                          in if c \<noteq> CHR ''['' then None
                             else map_option (Pair w) (try_run (length (takeWhile (\<lambda>c. \<not> is_space c) z)) z)))"

text \<open>\<^verbatim>\<open>FindAllStringSubmatchIndex\<close>: the leftmost match, then on from its end. Every step uses up at least
  one character, so the length of the clause is enough fuel.\<close>

fun find_fields :: "(bool \<Rightarrow> string \<Rightarrow> (string \<times> string) option) \<Rightarrow> nat \<Rightarrow> bool \<Rightarrow> string \<Rightarrow> string list" where
  "find_fields m 0 start s = []"
| "find_fields m (Suc n) start s =
     (case m start s of
        Some (w, r) \<Rightarrow> w # find_fields m n False r
      | None \<Rightarrow> (case s of [] \<Rightarrow> [] | c # t \<Rightarrow> find_fields m n False t))"

definition matchFieldRegex :: "(bool \<Rightarrow> string \<Rightarrow> (string \<times> string) option) \<Rightarrow> string \<Rightarrow> string \<Rightarrow> bool" where
  "matchFieldRegex m field clause \<longleftrightarrow> field \<in> set (find_fields m (length clause) True clause)"

record ('x, 'm) query =
  q_ConsistentRead :: "bool option"
  q_WhereClause :: string
  q_WhereArgs :: "arg list"
  q_AllowScan :: bool
  q_Result :: "'x exec_result"
  q_single :: bool
  q_model :: "'m option"
  q_target :: "'m list"

definition WithConsistentRead :: "('x, 'm) query \<Rightarrow> ('x, 'm) query" where
  "WithConsistentRead q = q\<lparr>q_ConsistentRead := Some True\<rparr>"

definition Where :: "string \<Rightarrow> arg list \<Rightarrow> ('x, 'm) query \<Rightarrow> ('x, 'm) query" where
  "Where w args q = q\<lparr>q_WhereClause := w, q_WhereArgs := args\<rparr>"

definition WithAllowScan :: "('x, 'm) query \<Rightarrow> ('x, 'm) query" where
  "WithAllowScan q = q\<lparr>q_AllowScan := True\<rparr>"

text \<open>A query without a model has no key to ask for: the call through the nil interface panics.\<close>

definition checkForScan :: "'m model_ops \<Rightarrow> ('x, 'm) query \<Rightarrow> ('x, 'm) query go" where
  "checkForScan ops q =
     (if q_AllowScan q then Ret q
      else case q_model q of
             None \<Rightarrow> Panic ''nil pointer''
           | Some m \<Rightarrow>
              let h = pk_HashKey (mo_GetPK ops m)
              in if \<not> matchFieldRegex fieldEqRegex h (q_WhereClause q) \<and> \<not> matchFieldRegex fieldInRegex h (q_WhereClause q)
                 then Ret (q\<lparr>q_Result := (q_Result q)\<lparr>er_Err := Some (BadArgument
                   ''scan operation is not allowed, where clause must contain a restriction on the pk.hash field'')\<rparr>\<rparr>)
                 else Ret q)"

definition new_query :: "bool \<Rightarrow> 'm option \<Rightarrow> 'm list \<Rightarrow> ('x, 'm) query" where
  "new_query single model target = \<lparr>q_ConsistentRead = None, q_WhereClause = [], q_WhereArgs = [], q_AllowScan = False,
     q_Result = no_result, q_single = single, q_model = model, q_target = target\<rparr>"

definition Get :: "'m model_ops \<Rightarrow> 'm \<Rightarrow> ('x, 'm) query" where
  "Get ops target = (let pk = mo_GetPK ops target in Where (fst (key_where pk)) (snd (key_where pk)) (new_query True (Some target) [target]))"

text \<open>The list of question marks for \<open>n\<close> keys.\<close>

definition marks :: "nat \<Rightarrow> string" where
  "marks n = TrimSuffix (Repeat ''?,'' n) '',''"

text \<open>With a range key the hashes and ranges are collected in one slice, and that slice is passed as a
  single argument.\<close>

definition WithPKs :: "'m model_ops \<Rightarrow> primary_key list \<Rightarrow> ('x, 'm) query \<Rightarrow> ('x, 'm) query go" where
  "WithPKs ops pks q =
     (if pks = [] then Ret q
      else case q_model q of
             None \<Rightarrow> Panic ''nil pointer''
           | Some m \<Rightarrow>
              let pk = mo_GetPK ops m;
                  hashes = Map (Arg None) (\<lambda>p. Arg (Some (PString (pk_Hash p)))) pks;
                  ranges = Map (Arg None) (\<lambda>p. Arg (pk_Range p)) pks
              in if pk_RangeKey pk \<noteq> []
                 then Ret (Where (pk_HashKey pk @ '' IN ['' @ marks (length pks) @ ''] AND '' @ pk_RangeKey pk @ '' IN ['' @
                                  marks (length pks) @ '']'')
                            [ArgSlice (hashes @ ranges)] q)
                 else Ret (Where (pk_HashKey pk @ '' IN ['' @ marks (length pks) @ '']'') hashes q))"

text \<open>\<open>Query\<close> gets a pointer: \<open>kind\<close> is the kind of value it points to, \<open>zero\<close> is a new element of its type.\<close>

definition Query :: "'m model_ops \<Rightarrow> string \<Rightarrow> 'm \<Rightarrow> 'm list \<Rightarrow> ('x, 'm) query go" where
  "Query ops kind zero elems =
     (if kind \<noteq> ''slice''
      then let q = new_query False None elems
           in Ret (q\<lparr>q_Result := (q_Result q)\<lparr>er_Err := Some (BadArgument (''expected slice, got '' @ kind))\<rparr>\<rparr>)
      else if elems = [] then Ret (new_query False (Some zero) elems)
      else WithPKs ops (map (mo_GetPK ops) elems) (new_query False (Some (hd elems)) elems))"

definition query_statement :: "string \<Rightarrow> string \<Rightarrow> string" where
  "query_statement table w = ''SELECT * FROM '' @ go_quote table @ (if w \<noteq> [] then '' WHERE '' @ w else [])"

text \<open>What a successful call of the client leads to: the error of the result and the new target.\<close>

definition query_items :: "('av, 'it, 'x, 'm) dynamo \<Rightarrow> string \<Rightarrow> ('x, 'm) query \<Rightarrow> 'it list \<Rightarrow> ddb_error option \<times> 'm list" where
  "query_items d table q items =
     (if q_single q
      then (case items of
              [] \<Rightarrow> (Some (NotFound (''item not found in table: '' @ table)), q_target q)
            | [it] \<Rightarrow> (case dy_decodeMap d it (hd (q_target q)) of
                        (e, t) \<Rightarrow> (map_option (\<lambda>e. Unknown (''failed to unmarshal item, error: '' @ e)) e, [t]))
            | _ \<Rightarrow> (Some (BadState (''expected 1 item, got '' @ show_nat (length items))), q_target q))
      else (case dy_decodeList d items (q_target q) of
              (e, t) \<Rightarrow> (map_option (\<lambda>e. Unknown (''failed to unmarshal items, error: '' @ e)) e, t)))"

definition Query_Execute ::
  "('av, 'it, 'x, 'm) dynamo \<Rightarrow> 'm model_ops \<Rightarrow> ('x, 'm) query \<Rightarrow> (('x exec_result \<times> ddb_error option) \<times> 'm list) go" where
  "Query_Execute d ops q0 =
     go_bind (checkForScan ops q0) (\<lambda>q.
       case er_Err (q_Result q) of
         Some e \<Rightarrow> Ret ((no_result, Some e), q_target q)
       | None \<Rightarrow>
          (case q_model q of
             None \<Rightarrow> Panic ''nil pointer''
           | Some m \<Rightarrow>
              (let table = table_of d ops m
               in case dy_encode d (q_WhereArgs q) of
                    Inl e \<Rightarrow> Ret ((no_result, Some (Unknown (''failed to marshal parameters, error: '' @ e))), q_target q)
                  | Inr ps \<Rightarrow>
                     (case dy_Execute d \<lparr>in_Statement = query_statement table (q_WhereClause q), in_Parameters = ps,
                                         in_ConsistentRead = q_ConsistentRead q\<rparr> of
                        (Some r, None) \<Rightarrow>
                          (case query_items d table q (rs_Items r) of
                             (err, t) \<Rightarrow> Ret ((\<lparr>er_Err = err, er_Meta = Some (rs_Meta r)\<rparr>, err), t))
                      | (res, e) \<Rightarrow>
                          Ret ((no_result, Some (Unknown (''failed to query table: '' @ table @ '', error: '' @ api_text e))),
                               q_target q)))))"

section \<open>Update\<close>

datatype increment = IncInt "64 word" | IncUint "64 word" | IncFloat rat

datatype set_value = SetCollection string bool "pval option list" | SetIncrement increment | SetTo "pval option"

definition newListAppend :: "pval option list \<Rightarrow> set_value" where
  "newListAppend items = SetCollection ''LIST_APPEND'' False items"

definition newSetAdd :: "pval option list \<Rightarrow> set_value" where
  "newSetAdd items = SetCollection ''SET_ADD'' True items"

definition newSetDelete :: "pval option list \<Rightarrow> set_value" where
  "newSetDelete items = SetCollection ''SET_DELETE'' True items"

text \<open>The fields to set are a map; the list holds its entries, each key once.\<close>

record ('x, 'm) update =
  u_Result :: "'x exec_result"
  u_target :: "'m option"
  u_setFields :: "(string \<times> set_value) list"
  u_removeFields :: "string list"

definition failed_update :: "string \<Rightarrow> ('x, 'm) update" where
  "failed_update msg = \<lparr>u_Result = no_result\<lparr>er_Err := Some (BadArgument msg)\<rparr>, u_target = None, u_setFields = [], u_removeFields = []\<rparr>"

definition Update :: "'m model_ops \<Rightarrow> 'm \<Rightarrow> ('x, 'm) update" where
  "Update ops target =
     (let pk = mo_GetPK ops target
      in if pk = zero_pk then failed_update ''missing pk.hash for update''
         else if pk_RangeKey pk \<noteq> [] \<and> pk_Range pk = None then failed_update ''missing pk.range for update''
         else \<lparr>u_Result = no_result, u_target = Some target, u_setFields = [], u_removeFields = []\<rparr>)"

definition update_fail :: "string \<Rightarrow> ('x, 'm) update \<Rightarrow> ('x, 'm) update" where
  "update_fail msg u = u\<lparr>u_Result := (u_Result u)\<lparr>er_Err := Some (BadArgument msg)\<rparr>\<rparr>"

definition Set :: "string \<Rightarrow> set_value \<Rightarrow> ('x, 'm) update \<Rightarrow> ('x, 'm) update" where
  "Set field v u =
     (if field \<in> fst ` set (u_setFields u) then update_fail (''field already set: '' @ field) u
      else u\<lparr>u_setFields := u_setFields u @ [(field, v)]\<rparr>)"

definition Remove :: "string \<Rightarrow> ('x, 'm) update \<Rightarrow> ('x, 'm) update" where
  "Remove field u = u\<lparr>u_removeFields := u_removeFields u @ [field]\<rparr>"

definition AppendToList :: "string \<Rightarrow> pval option list \<Rightarrow> ('x, 'm) update \<Rightarrow> ('x, 'm) update" where
  "AppendToList field values u = Set field (newListAppend values) u"

definition RemoveFromList :: "string \<Rightarrow> int \<Rightarrow> ('x, 'm) update \<Rightarrow> ('x, 'm) update" where
  "RemoveFromList field idx u = u\<lparr>u_removeFields := u_removeFields u @ [field @ ''['' @ show_int idx @ '']'']\<rparr>"

definition AddToSet :: "string \<Rightarrow> pval option list \<Rightarrow> ('x, 'm) update \<Rightarrow> ('x, 'm) update" where
  "AddToSet field values u = Set field (newSetAdd values) u"

definition RemoveFromSet :: "string \<Rightarrow> pval option list \<Rightarrow> ('x, 'm) update \<Rightarrow> ('x, 'm) update" where
  "RemoveFromSet field values u = Set field (newSetDelete values) u"

text \<open>The dynamic type of the argument of \<open>Increment\<close>; the narrower integers are extended to 64 bits.\<close>

datatype inc_arg = AnyInt "64 word" | AnyUint "64 word" | AnyFloat rat | AnyOther string

fun Increment :: "string \<Rightarrow> inc_arg \<Rightarrow> ('x, 'm) update \<Rightarrow> ('x, 'm) update" where
  "Increment field (AnyInt w) u = Set field (SetIncrement (IncInt w)) u"
| "Increment field (AnyUint w) u = Set field (SetIncrement (IncUint w)) u"
| "Increment field (AnyFloat r) u = Set field (SetIncrement (IncFloat r)) u"
| "Increment field (AnyOther t) u = update_fail (''invalid increment value: '' @ t) u"

text \<open>What is written for an increment, and its parameter. The negation is that of \<^verbatim>\<open>int64\<close>.\<close>

fun applyIncrement :: "string \<Rightarrow> increment \<Rightarrow> string \<times> arg list" where
  "applyIncrement field (IncInt inc) =
     (if inc = 0 then (field, [])
      else if 0 \<le> sint inc then (field @ '' + ?'', [Arg (Some (PInt (sint inc)))])
      else (field @ '' - ?'', [Arg (Some (PInt (sint (- inc))))]))"
| "applyIncrement field (IncUint inc) =
     (if inc = 0 then (field, []) else (field @ '' + ?'', [Arg (Some (PUint (unat inc)))]))"
| "applyIncrement field (IncFloat inc) =
     (if inc = 0 then (field, [])
      else if 0 \<le> inc then (field @ '' + ?'', [ArgFloat inc])
      else (field @ '' - ?'', [ArgFloat (- inc)]))"

text \<open>A slice of \<^verbatim>\<open>any\<close>: its elements are interface values, and it is nil when no value was given.\<close>

definition any_slice :: "pval option list \<Rightarrow> pval" where
  "any_slice vs = (if vs = [] then PNilSlice else PSlice (map (\<lambda>v. case v of None \<Rightarrow> PNilIface | Some w \<Rightarrow> PIface w) vs))"

definition collection_call :: "string \<Rightarrow> string \<Rightarrow> bool \<Rightarrow> string \<Rightarrow> string" where
  "collection_call field funcName bag items =
     funcName @ ''('' @ (if bag then field @ '', '' else ''if_not_exists('' @ field @ '', []), '') @ items @ '')''"

fun set_text :: "string \<Rightarrow> set_value \<Rightarrow> (string + string \<times> arg list) go" where
  "set_text field (SetCollection f bag items) =
     (case MarshalCollection default_tag_names NewPartiQLBuilder (any_slice items) bag of
        Panic p \<Rightarrow> Panic p
      | Ret (Inl e) \<Rightarrow> Ret (Inl e)
      | Ret (Inr t) \<Rightarrow> Ret (Inr (collection_call field f bag t, [])))"
| "set_text field (SetIncrement v) = Ret (Inr (applyIncrement field v))"
| "set_text field (SetTo v) = Ret (Inr (''?'', [Arg v]))"

fun set_clauses :: "(string \<times> set_value) list \<Rightarrow> string \<times> arg list \<Rightarrow> (string + string \<times> arg list) go" where
  "set_clauses [] acc = Ret (Inr acc)"
| "set_clauses ((field, v) # fs) acc =
     (case set_text field v of
        Panic p \<Rightarrow> Panic p
      | Ret (Inl e) \<Rightarrow> Ret (Inl e)
      | Ret (Inr (t, ps)) \<Rightarrow> set_clauses fs (fst acc @ '' SET '' @ field @ '' = '' @ t, snd acc @ ps))"

text \<open>The statement and its parameters; \<open>order\<close> is the order in which Go iterates over the fields to set.\<close>

definition update_statement ::
  "string \<Rightarrow> string option \<Rightarrow> int \<Rightarrow> (string \<times> set_value) list \<Rightarrow> string list \<Rightarrow> primary_key \<Rightarrow> (string + string \<times> arg list) go" where
  "update_statement table updateTs now order removed pk =
     (let start = ''UPDATE '' @ [CHR 0x22] @ table @ [CHR 0x22];
          acc = (case updateTs of None \<Rightarrow> (start, []) | Some k \<Rightarrow> (start @ '' SET '' @ k @ '' = ?'', [ArgTime now]))
      in case set_clauses order acc of
           Panic p \<Rightarrow> Panic p
         | Ret (Inl e) \<Rightarrow> Ret (Inl e)
         | Ret (Inr (t, ps)) \<Rightarrow>
            Ret (Inr (t @ concat (map ((@) '' REMOVE '') removed) @ '' WHERE '' @ fst (key_where pk) @ '' RETURNING ALL NEW *'',
                      ps @ snd (key_where pk))))"

definition update_items :: "('av, 'it, 'x, 'm) dynamo \<Rightarrow> string \<Rightarrow> 'm \<Rightarrow> 'it list \<Rightarrow> ddb_error option \<times> 'm" where
  "update_items d table m items =
     (case items of
        [] \<Rightarrow> (Some (NotFound (''item not found in table: '' @ table)), m)
      | [it] \<Rightarrow> (case dy_decodeMap d it m of (e, t) \<Rightarrow> (map_option (\<lambda>e. Unknown (''failed to unmarshal item, error: '' @ e)) e, t))
      | _ \<Rightarrow> (Some (BadState (''expected 1 item, got '' @ show_nat (length items))), m))"

definition Update_Execute ::
  "('av, 'it, 'x, 'm) dynamo \<Rightarrow> 'm model_ops \<Rightarrow> (string \<times> set_value) list \<Rightarrow> ('x, 'm) update \<Rightarrow>
   (('x exec_result \<times> ddb_error option) \<times> 'm option) go" where
  "Update_Execute d ops order u =
     (case er_Err (u_Result u) of
        Some e \<Rightarrow> Ret ((no_result, Some e), u_target u)
      | None \<Rightarrow>
         (case u_target u of
            None \<Rightarrow> Panic ''nil pointer''
          | Some m \<Rightarrow>
             (let table = table_of d ops m
              in case update_statement table (mo_GetUpdateTsKey ops m) (dy_Now d) order (u_removeFields u) (mo_GetPK ops m) of
                   Panic p \<Rightarrow> Panic p
                 | Ret (Inl e) \<Rightarrow> Ret ((no_result, Some (Unknown (''failed to encode value, error: '' @ e))), Some m)
                 | Ret (Inr (stmt, args)) \<Rightarrow>
                    (case dy_encode d args of
                       Inl e \<Rightarrow> Ret ((no_result, Some (Unknown (''failed to marshal parameters, error: '' @ e))), Some m)
                     | Inr ps \<Rightarrow>
                        (case dy_Execute d \<lparr>in_Statement = stmt, in_Parameters = ps, in_ConsistentRead = None\<rparr> of
                           (res, Some e) \<Rightarrow>
                             Ret ((no_result, Some (Unknown (''failed to update item in table: '' @ table @ '', error: '' @
                                    api_text (Some e)))), Some m)
                         | (None, None) \<Rightarrow> Panic ''nil pointer''
                         | (Some r, None) \<Rightarrow>
                             (case update_items d table m (rs_Items r) of
                                (err, t) \<Rightarrow> Ret ((\<lparr>er_Err = err, er_Meta = Some (rs_Meta r)\<rparr>, err), Some t)))))))"

section \<open>Tables\<close>

text \<open>The kinds of a range value that \<open>CreateTable\<close> distinguishes; a nil range has no type, and asking for its
  kind panics. A pointer to a time is a pointer, and an unsupported kind gives no attribute type.\<close>

fun range_type :: "pval option \<Rightarrow> string option go" where
  "range_type None = Panic ''nil pointer''"
| "range_type (Some (PString s)) = Ret (Some ''S'')"
| "range_type (Some (PInt i)) = Ret (Some ''N'')"
| "range_type (Some (PUint n)) = Ret (Some ''N'')"
| "range_type (Some (PFloat f)) = Ret (Some ''N'')"
| "range_type (Some (PTime t)) = Ret (Some ''N'')"
| "range_type (Some v) = Ret None"

record table_input =
  ti_Attributes :: "(string \<times> string) list"
  ti_KeySchema :: "(string \<times> string) list"
  ti_TableName :: string

definition table_schema :: "string \<Rightarrow> primary_key \<Rightarrow> (ddb_error + table_input) go" where
  "table_schema table pk =
     (if pk = zero_pk then Ret (Inl (BadArgument ''missing primary key for model''))
      else let input = \<lparr>ti_Attributes = [(pk_HashKey pk, ''S'')], ti_KeySchema = [(pk_HashKey pk, ''HASH'')], ti_TableName = table\<rparr>
           in if pk_RangeKey pk = [] then Ret (Inr input)
              else case range_type (pk_Range pk) of
                     Panic p \<Rightarrow> Panic p
                   | Ret None \<Rightarrow> Ret (Inl (Unknown ''unsupported range key type''))
                   | Ret (Some t) \<Rightarrow>
                       Ret (Inr (input\<lparr>ti_Attributes := ti_Attributes input @ [(pk_RangeKey pk, t)],
                                       ti_KeySchema := ti_KeySchema input @ [(pk_RangeKey pk, ''RANGE'')]\<rparr>)))"

text \<open>The client's operations on tables change a state \<open>'w\<close> of the service and may fail.\<close>

definition CreateTable ::
  "(table_input \<Rightarrow> 'w \<Rightarrow> string option \<times> 'w) \<Rightarrow> ('av, 'it, 'x, 'm) dynamo \<Rightarrow> 'm model_ops \<Rightarrow> 'm \<Rightarrow> 'w \<Rightarrow> (ddb_error option \<times> 'w) go" where
  "CreateTable create d ops m w =
     (let table = table_of d ops m
      in case table_schema table (mo_GetPK ops m) of
           Panic p \<Rightarrow> Panic p
         | Ret (Inl e) \<Rightarrow> Ret (Some e, w)
         | Ret (Inr input) \<Rightarrow>
            (case create input w of
               (Some e, w') \<Rightarrow> Ret (Some (Unknown (''failed to create table: '' @ table @ '', error: '' @ e)), w')
             | (None, w') \<Rightarrow> Ret (None, w')))"

fun create_loop ::
  "(table_input \<Rightarrow> 'w \<Rightarrow> string option \<times> 'w) \<Rightarrow> ('av, 'it, 'x, 'm) dynamo \<Rightarrow> 'm model_ops \<Rightarrow> 'm list \<Rightarrow> ddb_error list \<Rightarrow> 'w \<Rightarrow>
   (ddb_error list \<times> 'w) go" where
  "create_loop create d ops [] errs w = Ret (errs, w)"
| "create_loop create d ops (m # ms) errs w =
     go_bind (CreateTable create d ops m w) (\<lambda>(e, w'). create_loop create d ops ms (errs @ (case e of None \<Rightarrow> [] | Some x \<Rightarrow> [x])) w')"

definition CreateTables ::
  "(table_input \<Rightarrow> 'w \<Rightarrow> string option \<times> 'w) \<Rightarrow> ('av, 'it, 'x, 'm) dynamo \<Rightarrow> 'm model_ops \<Rightarrow> 'm list \<Rightarrow> 'w \<Rightarrow>
   (ddb_error list \<times> 'w) go" where
  "CreateTables create d ops ms w = create_loop create d ops ms [] w"

definition DeleteTable ::
  "(string \<Rightarrow> 'w \<Rightarrow> string option \<times> 'w) \<Rightarrow> ('av, 'it, 'x, 'm) dynamo \<Rightarrow> 'm model_ops \<Rightarrow> 'm \<Rightarrow> 'w \<Rightarrow> ddb_error option \<times> 'w" where
  "DeleteTable del d ops m w =
     (let table = table_of d ops m
      in case del table w of
           (Some e, w') \<Rightarrow> (Some (Unknown (''failed to delete table: '' @ table @ '', error: '' @ e)), w')
         | (None, w') \<Rightarrow> (None, w'))"

definition ListTables :: "string + string list \<Rightarrow> ('av, 'it, 'x, 'm) dynamo \<Rightarrow> ddb_error + string list" where
  "ListTables listed d =
     (case listed of
        Inl e \<Rightarrow> Inl (Unknown (''failed to list tables, error: '' @ e))
      | Inr names \<Rightarrow> Inr (Filter (\<lambda>t. HasPrefix t (dy_tablePrefix d)) names))"

fun delete_loop :: "(string \<Rightarrow> 'w \<Rightarrow> string option \<times> 'w) \<Rightarrow> string list \<Rightarrow> string list \<Rightarrow> 'w \<Rightarrow> string list \<times> 'w" where
  "delete_loop del [] errs w = (errs, w)"
| "delete_loop del (t # ts) errs w =
     (case del t w of
        (Some e, w') \<Rightarrow> delete_loop del ts (errs @ [''failed to delete table: '' @ t @ '', error: '' @ e]) w'
      | (None, w') \<Rightarrow> delete_loop del ts errs w')"

fun err_text :: "ddb_error \<Rightarrow> string" where
  "err_text (BadArgument m) = ''{BAD_ARGUMENT} '' @ m"
| "err_text (NotFound m) = ''{NOT_FOUND} '' @ m"
| "err_text (Conflict m) = ''{CONFLICT} '' @ m"
| "err_text (BadState m) = ''{BAD_STATE} '' @ m"
| "err_text (Unknown m) = ''{UNKNOWN} '' @ m"

text \<open>The aggregated error is the list of the joined errors, empty for no error.\<close>

definition DeleteAllTables ::
  "string + string list \<Rightarrow> (string \<Rightarrow> 'w \<Rightarrow> string option \<times> 'w) \<Rightarrow> ('av, 'it, 'x, 'm) dynamo \<Rightarrow> 'w \<Rightarrow> (ddb_error + string list) \<times> 'w" where
  "DeleteAllTables listed del d w =
     (case ListTables listed d of
        Inl e \<Rightarrow> (Inl (Unknown (''failed to list tables for deletion, error: '' @ err_text e)), w)
      | Inr ts \<Rightarrow> (case delete_loop del ts [] w of (errs, w') \<Rightarrow> (Inr errs, w')))"

section \<open>Queries by key are not scans\<close>

lemma space_not_word [simp]: "is_space c \<Longrightarrow> \<not> is_word c"
  by (auto simp: is_space_def is_word_def)

lemma word_prefix:
  assumes "list_all is_word h" "h \<noteq> []" "is_space c"
  shows "takeWhile is_space (h @ c # s) = []" "dropWhile is_space (h @ c # s) = h @ c # s"
    "takeWhile is_word (h @ c # s) = h" "dropWhile is_word (h @ c # s) = c # s"
proof -
  obtain x t where h: "h = x # t" using assms(2) by (cases h) auto
  moreover have "\<not> is_space x" using assms(1) h space_not_word by auto
  ultimately show "takeWhile is_space (h @ c # s) = []" "dropWhile is_space (h @ c # s) = h @ c # s" by simp_all
  have "\<forall>y \<in> set h. is_word y" using assms(1) by (simp add: list_all_iff)
  then show "takeWhile is_word (h @ c # s) = h" "dropWhile is_word (h @ c # s) = c # s"
    using space_not_word[OF assms(3)] by (simp_all add: takeWhile_append2 dropWhile_append2)
qed

lemma spaces [simp]: "is_space CHR 0x20" "\<not> is_space CHR ''=''" "\<not> is_space CHR ''?''" "\<not> is_space CHR '',''"
  "\<not> is_space CHR '']''" "\<not> is_space CHR ''[''" "\<not> is_space CHR ''I''" "\<not> is_space CHR ''N''"
  by (simp_all add: is_space_def)

lemma fieldEqRegex_key:
  assumes "list_all is_word h" "h \<noteq> []"
  shows "fieldEqRegex True (h @ '' = ?'' @ s) = Some (h, dropWhile (\<lambda>c. \<not> is_space c) s)"
  using word_prefix[OF assms spaces(1), of "''= ?'' @ s"] assms(2) by (simp add: fieldEqRegex_def Let_def)

lemma try_run_some: "close_bracket (drop k s) \<noteq> None \<Longrightarrow> 0 < k \<Longrightarrow> k \<le> n \<Longrightarrow> try_run n s \<noteq> None"
  by (induction n) (auto simp: le_Suc_eq split: option.splits)

lemma marks_Suc: "marks (Suc n) = (if n = 0 then ''?'' else ''?,'' @ marks n)"
proof -
  have r: "Repeat ''?,'' (Suc n) = (''?'' @ concat (replicate n '',?'')) @ '',''" for n
  proof (induction n)
    case (Suc n)
    have "Repeat ''?,'' (Suc (Suc n)) = ''?,'' @ Repeat ''?,'' (Suc n)" by (simp only: Repeat.simps)
    then show ?case unfolding Suc by simp
  qed simp
  have m: "marks (Suc n) = ''?'' @ concat (replicate n '',?'')" for n
    unfolding marks_def r by (rule TrimSuffix_append)
  show ?thesis by (cases n) (simp_all add: m)
qed

lemma marks_chars: "set (marks n) \<subseteq> {CHR ''?'', CHR '',''}"
proof (induction n)
  case 0
  show ?case by (simp add: marks_def TrimSuffix_def HasSuffix_def)
next
  case (Suc n)
  then show ?case unfolding marks_Suc by auto
qed

lemma marks_nonempty [simp]: "0 < n \<Longrightarrow> marks n \<noteq> []"
  by (cases n) (simp_all add: marks_Suc)

lemma fieldInRegex_key:
  assumes "list_all is_word h" "h \<noteq> []" "0 < n"
  shows "\<exists>r. fieldInRegex True (h @ '' IN ['' @ marks n @ '']'' @ s) = Some (h, r)"
proof -
  let ?z = "marks n @ '']'' @ s" and ?ns = "\<lambda>c. \<not> is_space c"
  have ns: "\<forall>c \<in> set (marks n). \<not> is_space c" using marks_chars[of n] by auto
  have z: "dropWhile is_space ?z = ?z" using ns assms(3) by (cases "marks n") auto
  have "length (marks n) \<le> length (takeWhile ?ns ?z)" using ns by (simp add: takeWhile_append2)
  then have "try_run (length (takeWhile ?ns ?z)) ?z \<noteq> None"
    using assms(3) by (intro try_run_some[of "length (marks n)"]) auto
  then show ?thesis
    using word_prefix[OF assms(1,2) spaces(1), of "''IN ['' @ ?z"] assms(2) z
    by (auto simp: fieldInRegex_def Let_def ToUpper_def upper_char_def)
qed

lemma first_match: "m True s = Some (w, r) \<Longrightarrow> s \<noteq> [] \<Longrightarrow> matchFieldRegex m w s"
  by (cases s) (simp_all add: matchFieldRegex_def)


definition sample_ops :: "primary_key model_ops" where
  "sample_ops = \<lparr>mo_GetTableName = (\<lambda>_. ''person''), mo_GetPK = id, mo_SetPK = (\<lambda>pk _. pk), mo_GetCreateTs = (\<lambda>_. Some 1),
     mo_SetCreateTs = (\<lambda>_ m. m), mo_GetUpdateTsKey = (\<lambda>_. None), mo_SetUpdateTs = (\<lambda>_ m. m), mo_value = (\<lambda>_. PStruct [])\<rparr>"

definition sample_pk :: primary_key where
  "sample_pk = \<lparr>pk_HashKey = ''id'', pk_Hash = ''7'', pk_RangeKey = [], pk_Range = None\<rparr>"


section \<open>Statements and their parameters\<close>

definition marks_in :: "string \<Rightarrow> nat" where
  "marks_in s = count_list s CHR ''?''"

lemma marks_in_simps [simp]: "marks_in [] = 0" "marks_in (s @ t) = marks_in s + marks_in t"
  "marks_in (c # s) = (if c = CHR ''?'' then 1 else 0) + marks_in s"
  by (simp_all add: marks_in_def)

lemma marks_in_marks [simp]: "marks_in (marks n) = n"
  by (induction n) (auto simp: marks_Suc, simp add: marks_def TrimSuffix_def HasSuffix_def)

lemma marks_in_quote [simp]: "marks_in (go_quote s) = marks_in s"
  by (induction s) (auto simp: go_quote_def)

lemma marks_in_concat [simp]: "marks_in (concat ss) = sum_list (map marks_in ss)"
  by (induction ss) auto

text \<open>The names of a key, of a field and of what is written for it contain no question mark.\<close>

definition plain_pk :: "primary_key \<Rightarrow> bool" where
  "plain_pk pk \<longleftrightarrow> marks_in (pk_HashKey pk) = 0 \<and> marks_in (pk_RangeKey pk) = 0"

fun plain_set :: "string \<times> set_value \<Rightarrow> bool" where
  "plain_set (field, SetCollection f bag items) \<longleftrightarrow> marks_in field = 0 \<and> marks_in f = 0 \<and>
     (\<forall>t. MarshalCollection default_tag_names NewPartiQLBuilder (any_slice items) bag = Ret (Inr t) \<longrightarrow> marks_in t = 0)"
| "plain_set (field, v) \<longleftrightarrow> marks_in field = 0"

lemma key_where_marks: "plain_pk pk \<Longrightarrow> marks_in (fst (key_where pk)) = length (snd (key_where pk))"
  by (simp add: key_where_def plain_pk_def)

lemma increment_marks: "marks_in field = 0 \<Longrightarrow> marks_in (fst (applyIncrement field v)) = length (snd (applyIncrement field v))"
  by (cases v) auto

lemma set_text_marks:
  assumes "plain_set (field, v)" "set_text field v = Ret (Inr (t, ps))"
  shows "marks_in t = length ps"
proof (cases v)
  case (SetCollection f bag items)
  then show ?thesis using assms by (auto simp: collection_call_def split: go.splits sum.splits)
next
  case (SetIncrement i)
  then show ?thesis using assms increment_marks[of field i] by auto
next
  case (SetTo w)
  then show ?thesis using assms by auto
qed

lemma set_clauses_marks:
  "list_all plain_set fs \<Longrightarrow> marks_in (fst acc) = length (snd acc) \<Longrightarrow> set_clauses fs acc = Ret (Inr (t, ps)) \<Longrightarrow>
   marks_in t = length ps"
proof (induction fs acc rule: set_clauses.induct)
  case (2 field v fs acc)
  then obtain t' ps' where s: "set_text field v = Ret (Inr (t', ps'))" by (auto split: go.splits sum.splits)
  have "marks_in field = 0" using "2.prems"(1) by (cases v) auto
  then show ?case using 2 s set_text_marks[OF _ s] by simp
qed auto

text \<open>Every statement that the builders send has as many question marks as parameters, when no name
  and no encoded collection contains one: an update with any fields set, incremented, appended to and
  removed, a deletion, and queries by one key or by several keys without a range.\<close>

lemma statements_match_parameters:
  assumes "plain_pk pk" "marks_in table = 0" "list_all (\<lambda>f. marks_in f = 0) removed" "list_all plain_set order"
    and "marks_in (case updateTs of None \<Rightarrow> [] | Some k \<Rightarrow> k) = 0"
    and "update_statement table updateTs now order removed pk = Ret (Inr (stmt, ps))"
    and "mo_GetPK ops m = pk"
  shows "marks_in stmt = length ps \<and> marks_in (delete_statement table pk) = length (snd (key_where pk)) \<and>
     marks_in (query_statement table (q_WhereClause (Get ops m))) = length (q_WhereArgs (Get ops m)) \<and>
     (pk_RangeKey pk = [] \<and> q_model q0 = Some m \<and> pks \<noteq> [] \<longrightarrow>
        (\<exists>q. WithPKs ops pks q0 = Ret q \<and> marks_in (query_statement table (q_WhereClause q)) = length (q_WhereArgs q)))"
proof (intro conjI)
  let ?acc = "case updateTs of None \<Rightarrow> (''UPDATE '' @ [CHR 0x22] @ table @ [CHR 0x22], [])
    | Some k \<Rightarrow> ((''UPDATE '' @ [CHR 0x22] @ table @ [CHR 0x22]) @ '' SET '' @ k @ '' = ?'', [ArgTime now])"
  obtain t qs where c: "set_clauses order ?acc = Ret (Inr (t, qs))"
    and s: "stmt = t @ concat (map ((@) '' REMOVE '') removed) @ '' WHERE '' @ fst (key_where pk) @ '' RETURNING ALL NEW *''"
    and p: "ps = qs @ snd (key_where pk)"
    using assms(6) unfolding update_statement_def Let_def by (auto split: go.splits sum.splits)
  have "marks_in (fst ?acc) = length (snd ?acc)" using assms(2,5) by (simp split: option.splits)
  from set_clauses_marks[OF assms(4) this c] have "marks_in t = length qs" .
  moreover have "sum_list (map (marks_in \<circ> (@) '' REMOVE '') removed) = 0" using assms(3) by (induction removed) auto
  ultimately show "marks_in stmt = length ps" using key_where_marks[OF assms(1)] by (simp add: s p)
  show "marks_in (delete_statement table pk) = length (snd (key_where pk))"
    using key_where_marks[OF assms(1)] assms(2) by (simp add: delete_statement_def)
  show "marks_in (query_statement table (q_WhereClause (Get ops m))) = length (q_WhereArgs (Get ops m))"
    using key_where_marks[OF assms(1)] assms(2,7) by (auto simp: query_statement_def Get_def Where_def Let_def)
  show "pk_RangeKey pk = [] \<and> q_model q0 = Some m \<and> pks \<noteq> [] \<longrightarrow>
      (\<exists>q. WithPKs ops pks q0 = Ret q \<and> marks_in (query_statement table (q_WhereClause q)) = length (q_WhereArgs q))"
    using assms(1,2,7) by (auto simp: query_statement_def WithPKs_def Where_def Let_def plain_pk_def Map_def MapI_def MapI_loop)
qed

lemma statements_match_parameters_witness:
  "marks_in (''UPDATE '' @ [CHR 0x22] @ ''t'' @ [CHR 0x22] @ '' SET ts = ? SET n = n - ? SET s = ? REMOVE old WHERE id = ? RETURNING ALL NEW *'') =
     length [ArgTime 5, Arg (Some (PInt 3)), Arg (Some (PString ''x'')), Arg (Some (PString ''7''))]"
proof -
  let ?fs = "[(''n'', SetIncrement (IncInt (- 3))), (''s'', SetTo (Some (PString ''x'')))]"
  have "update_statement ''t'' (Some ''ts'') 5 ?fs [''old''] sample_pk =
      Ret (Inr (''UPDATE '' @ [CHR 0x22] @ ''t'' @ [CHR 0x22] @ '' SET ts = ? SET n = n - ? SET s = ? REMOVE old WHERE id = ? RETURNING ALL NEW *'',
        [ArgTime 5, Arg (Some (PInt 3)), Arg (Some (PString ''x'')), Arg (Some (PString ''7''))]))"
    by (simp add: update_statement_def key_where_def sample_pk_def Let_def)
  moreover have "plain_pk sample_pk" "mo_GetPK sample_ops sample_pk = sample_pk"
    by (simp_all add: plain_pk_def sample_pk_def sample_ops_def)
  ultimately show ?thesis
    using statements_match_parameters[of sample_pk "''t''" "[''old'']" ?fs "Some ''ts''" 5 _ _ sample_ops sample_pk] by simp
qed

text \<open>With a range key a query by several keys has two question marks for each key and one argument.\<close>

lemma range_query_arguments:
  assumes "plain_pk (mo_GetPK ops m)" "pk_RangeKey (mo_GetPK ops m) \<noteq> []" "q_model q0 = Some m" "pks \<noteq> []"
  shows "\<exists>q. WithPKs ops pks q0 = Ret q \<and> marks_in (q_WhereClause q) = 2 * length pks \<and> length (q_WhereArgs q) = 1"
  using assms by (simp add: WithPKs_def Where_def plain_pk_def Let_def)

section \<open>Increments\<close>

text \<open>The number that an increment asks for, and the number that the statement adds to the field.\<close>

fun inc_value :: "increment \<Rightarrow> rat" where
  "inc_value (IncInt w) = of_int (sint w)"
| "inc_value (IncUint w) = of_nat (unat w)"
| "inc_value (IncFloat r) = r"

fun arg_number :: "arg \<Rightarrow> rat" where
  "arg_number (Arg (Some (PInt i))) = of_int i"
| "arg_number (Arg (Some (PUint n))) = of_nat n"
| "arg_number (ArgFloat r) = r"
| "arg_number a = 0"

definition stated_change :: "string \<Rightarrow> string \<times> arg list \<Rightarrow> rat option" where
  "stated_change field e =
     (if e = (field, []) then Some 0
      else case e of
             (t, [a]) \<Rightarrow> if t = field @ '' + ?'' then Some (arg_number a) else if t = field @ '' - ?'' then Some (- arg_number a) else None
           | _ \<Rightarrow> None)"

lemma sint_minus: "w \<noteq> - (2 ^ 63) \<Longrightarrow> sint (- (w :: 64 word)) = - sint w"
proof -
  assume w: "w \<noteq> - (2 ^ 63)"
  have r: "- (2 ^ 63) \<le> sint w \<and> sint w < 2 ^ 63" using sint_range_size[of w] by (simp add: word_size)
  have "sint w \<noteq> - (2 ^ 63)"
  proof
    assume "sint w = - (2 ^ 63)"
    then have "word_of_int (sint w) = (word_of_int (- (2 ^ 63)) :: 64 word)" by simp
    then show False using w by simp
  qed
  then have "- (2 ^ 63) \<le> - sint w \<and> - sint w < 2 ^ 63" using r by simp
  then have "signed_take_bit 63 (- sint w) = - sint w" by (simp add: signed_take_bit_int_eq_self)
  moreover have "sint (- w) = signed_take_bit 63 (- sint w)"
    by (simp add: sint_word_ariths(4))
  ultimately show ?thesis by simp
qed

text \<open>C29. The expression written for an increment changes the field by exactly the number asked for, whatever
  its type and sign, except for the smallest \<^verbatim>\<open>int64\<close>: its negation wraps around, and the field grows by
  \<open>2 ^ 63\<close> instead of shrinking.\<close>

theorem increment_states_its_value:
  "stated_change field (applyIncrement field v) = Some (if v = IncInt (- (2 ^ 63)) then 2 ^ 63 else inc_value v)"
proof (cases v)
  case (IncInt w)
  show ?thesis
  proof (cases "w = - (2 ^ 63)")
    case True
    have "sint (- (2 ^ 63) :: 64 word) = - (2 ^ 63)" "- (- (2 ^ 63) :: 64 word) = - (2 ^ 63)" by simp_all
    then show ?thesis unfolding IncInt True by (simp add: stated_change_def)
  next
    case False
    then show ?thesis using sint_minus[OF False] IncInt by (auto simp: stated_change_def)
  qed
next
  case (IncUint w)
  then show ?thesis by (auto simp: stated_change_def)
next
  case (IncFloat r)
  then show ?thesis by (auto simp: stated_change_def)
qed

section \<open>The update builder\<close>

datatype update_call =
    CallSet string "pval option" | CallRemove string | CallAppendToList string "pval option list" | CallRemoveFromList string int
  | CallAddToSet string "pval option list" | CallRemoveFromSet string "pval option list" | CallIncrement string inc_arg

fun apply_call :: "update_call \<Rightarrow> ('x, 'm) update \<Rightarrow> ('x, 'm) update" where
  "apply_call (CallSet f v) = Set f (SetTo v)"
| "apply_call (CallRemove f) = Remove f"
| "apply_call (CallAppendToList f vs) = AppendToList f vs"
| "apply_call (CallRemoveFromList f i) = RemoveFromList f i"
| "apply_call (CallAddToSet f vs) = AddToSet f vs"
| "apply_call (CallRemoveFromSet f vs) = RemoveFromSet f vs"
| "apply_call (CallIncrement f a) = Increment f a"

text \<open>The fields that a call sets, and whether the call is valid by itself.\<close>

fun set_by :: "update_call \<Rightarrow> string list" where
  "set_by (CallSet f v) = [f]"
| "set_by (CallAppendToList f vs) = [f]"
| "set_by (CallAddToSet f vs) = [f]"
| "set_by (CallRemoveFromSet f vs) = [f]"
| "set_by (CallIncrement f (AnyOther t)) = []"
| "set_by (CallIncrement f a) = [f]"
| "set_by c = []"

fun valid_call :: "update_call \<Rightarrow> bool" where
  "valid_call (CallIncrement f (AnyOther t)) = False"
| "valid_call c = True"

lemmas builder_defs = Set_def Remove_def AppendToList_def RemoveFromList_def AddToSet_def RemoveFromSet_def update_fail_def

lemma apply_call_effect:
  "u_target (apply_call c u) = u_target u"
  "er_Err (u_Result (apply_call c u)) = None \<longleftrightarrow>
     er_Err (u_Result u) = None \<and> valid_call c \<and> set (set_by c) \<inter> fst ` set (u_setFields u) = {}"
  "map fst (u_setFields (apply_call c u)) =
     map fst (u_setFields u) @ (if set (set_by c) \<inter> fst ` set (u_setFields u) = {} then set_by c else [])"
  by (cases c; simp add: builder_defs; rename_tac a, case_tac a; simp add: builder_defs)+

lemma set_by_distinct [simp]: "distinct (set_by c)"
  by (cases c rule: set_by.cases) auto

lemma apply_calls_effect:
  "distinct (map fst (u_setFields u)) \<Longrightarrow>
   distinct (map fst (u_setFields (fold apply_call cs u))) \<and> u_target (fold apply_call cs u) = u_target u \<and>
   (er_Err (u_Result (fold apply_call cs u)) = None \<longleftrightarrow>
      er_Err (u_Result u) = None \<and> list_all valid_call cs \<and> distinct (map fst (u_setFields u) @ concat (map set_by cs)))"
proof (induction cs arbitrary: u)
  case (Cons c cs)
  let ?u = "apply_call c u"
  have d: "distinct (map fst (u_setFields ?u))" using Cons.prems by (auto simp: apply_call_effect(3))
  show ?case using Cons.IH[OF d] Cons.prems by (auto simp: apply_call_effect)
qed simp

text \<open>However the builder of an update is called, no field is set twice, and \<open>Execute\<close> reaches the client only if
  the key was complete, every increment had a number and no two calls set the same field; otherwise
  it returns the error.\<close>

lemma update_builder_refuses:
  "let u = fold apply_call calls (Update ops m :: ('x, 'm) update); pk = mo_GetPK ops m
   in distinct (map fst (u_setFields u)) \<and>
      (er_Err (u_Result u) = None \<longleftrightarrow>
         pk \<noteq> zero_pk \<and> \<not> (pk_RangeKey pk \<noteq> [] \<and> pk_Range pk = None) \<and> list_all valid_call calls \<and> distinct (concat (map set_by calls))) \<and>
      (case er_Err (u_Result u) of None \<Rightarrow> u_target u = Some m
       | Some e \<Rightarrow> Update_Execute d ops order u = Ret ((no_result, Some e), u_target u))"
proof -
  let ?u0 = "Update ops m :: ('x, 'm) update" and ?pk = "mo_GetPK ops m"
  have f: "u_setFields ?u0 = []" by (simp add: Update_def Let_def failed_update_def)
  have e: "er_Err (u_Result ?u0) = None \<longleftrightarrow> ?pk \<noteq> zero_pk \<and> (pk_RangeKey ?pk = [] \<or> pk_Range ?pk \<noteq> None)"
    "er_Err (u_Result ?u0) = None \<Longrightarrow> u_target ?u0 = Some m"
    by (auto simp: Update_def Let_def failed_update_def no_result_def split: if_splits)
  show ?thesis
    using apply_calls_effect[of ?u0 calls] f e
    by (auto simp: Let_def Update_Execute_def split: option.splits)
qed

section \<open>Deleting the tables\<close>

lemma delete_loop_log: "delete_loop (\<lambda>t w. (f t, w @ [t])) ts errs w =
  (errs @ concat (map (\<lambda>t. case f t of None \<Rightarrow> [] | Some e \<Rightarrow> [''failed to delete table: '' @ t @ '', error: '' @ e]) ts), w @ ts)"
  by (induction ts arbitrary: errs w) (auto split: option.splits)

text \<open>With a service that logs the calls, every table of the environment is asked to be deleted, whatever fails
  before, and no other table.\<close>

lemma delete_all_reaches_all:
  "snd (DeleteAllTables (Inr names) (\<lambda>t w. (f t, w @ [t])) d []) = filter (\<lambda>t. HasPrefix t (dy_tablePrefix d)) names"
  by (simp add: DeleteAllTables_def ListTables_def delete_loop_log Filter_is_filter)

section \<open>Inserting\<close>

text \<open>For a model that returns what was set, an insertion that is not refused has a hash key and a creation
  time, and keeps those that the model had.\<close>

lemma Insert_fills_keys:
  assumes "Insert d ops uuid m = (i, m')" "er_Err (io_Result i) = None" "uuid \<noteq> []"
    and "\<And>pk m. mo_GetPK ops (mo_SetPK ops pk m) = pk" "\<And>pk m. mo_GetCreateTs ops (mo_SetPK ops pk m) = mo_GetCreateTs ops m"
    and "\<And>t m. mo_GetCreateTs ops (mo_SetCreateTs ops t m) = t" "\<And>t m. mo_GetCreateTs ops (mo_SetUpdateTs ops t m) = mo_GetCreateTs ops m"
  shows "io_model i = Some m' \<and> pk_Hash (mo_GetPK ops m') \<noteq> [] \<and> mo_GetCreateTs ops m' \<noteq> None \<and>
     (mo_GetCreateTs ops m \<noteq> None \<longrightarrow> mo_GetCreateTs ops m' = mo_GetCreateTs ops m)"
  using assms(1-3) by (auto simp: Insert_def Let_def assms(4-7) no_result_def split: if_splits option.splits)

end
