(* ===== verification/TimeCodec.thy ===== *)
theory TimeCodec
  imports Complex_Main "HOL-Library.Log_Nat"
begin

text \<open>
  How \<^verbatim>\<open>NewDynamoDB\<close> of \<^verbatim>\<open>aws/dynamodb/dynamodb.go\<close> stores times: as the number of seconds in a \<^verbatim>\<open>float64\<close>,
  computed from microseconds, and read back by multiplying and truncating. The operations of
  \<^verbatim>\<open>float64\<close> round to the nearest number with 53 significant bits, ties to even; they are modelled on
  rational numbers within the normal range, which all times have. The text of the number is the
  shortest one that reads back as the same number, so writing and reading it changes nothing.
\<close>

section \<open>Rounding\<close>

text \<open>The exponent of the binary interval that a positive number lies in.\<close>

definition binade :: "rat \<Rightarrow> int" where
  "binade x = (let p = fst (quotient_of x); q = snd (quotient_of x); e = int (floorlog 2 (nat p)) - int (floorlog 2 (nat q))
     in if x < 2 powi e then e - 1 else e)"

definition round_half_even :: "rat \<Rightarrow> int" where
  "round_half_even y = (let f = \<lfloor>y\<rfloor>; r = y - of_int f in if r < 1/2 \<or> r = 1/2 \<and> even f then f else f + 1)"

definition float64 :: "rat \<Rightarrow> rat" where
  "float64 x = (if x = 0 then 0
     else if 0 < x then of_int (round_half_even (x / 2 powi (binade x - 52))) * 2 powi (binade x - 52)
     else - (of_int (round_half_even (- x / 2 powi (binade (- x) - 52))) * 2 powi (binade (- x) - 52)))"

definition EncodeTime :: "int \<Rightarrow> rat" where
  "EncodeTime micros = float64 (float64 (of_int micros) / 10 ^ 6)"

definition DecodeTime :: "rat \<Rightarrow> int" where
  "DecodeTime f = (let x = float64 (f * 10 ^ 6) in if 0 \<le> x then \<lfloor>x\<rfloor> else \<lceil>x\<rceil>)"

section \<open>Properties of rounding\<close>

lemma round_half_even_near: "\<bar>of_int (round_half_even y) - y\<bar> \<le> 1/2"
proof -
  have "of_int \<lfloor>y\<rfloor> \<le> y" "y < of_int \<lfloor>y\<rfloor> + 1" by linarith+
  then show ?thesis by (auto simp: round_half_even_def Let_def abs_le_iff)
qed

lemma round_half_even_nearest: "\<bar>y - of_int n\<bar> < 1/2 \<Longrightarrow> round_half_even y = n"
proof -
  assume a: "\<bar>y - of_int n\<bar> < 1/2"
  have "\<bar>of_int (round_half_even y) - of_int n\<bar> < (1 :: rat)" using round_half_even_near[of y] a by linarith
  then show ?thesis by linarith
qed

lemma pow_casts:
  assumes "0 < p" "2 ^ m \<le> nat p" "nat p < 2 ^ n"
  shows "2 ^ m \<le> (of_int p :: rat)" "(of_int p :: rat) < 2 ^ n"
proof -
  have "2 ^ m \<le> p" "p < 2 ^ n" using assms by (simp_all add: le_nat_iff nat_less_iff)
  then have "of_int (2 ^ m) \<le> (of_int p :: rat)" "(of_int p :: rat) < of_int (2 ^ n)"
    by (simp_all only: of_int_le_iff of_int_less_iff)
  then show "2 ^ m \<le> (of_int p :: rat)" "(of_int p :: rat) < 2 ^ n" by simp_all
qed

lemma powi_less_imp: "(2 :: rat) powi m < 2 powi n \<Longrightarrow> m < n"
  using power_int_increasing[of n m "2 :: rat"] by (force simp: not_less)

lemma scaled_abs: "0 < u \<Longrightarrow> \<bar>a * u - x\<bar> = \<bar>a - x / u\<bar> * (u :: rat)"
  by (simp add: abs_if field_simps)

lemma binade_bounds:
  assumes "0 < x"
  shows "2 powi binade x \<le> x \<and> x < 2 powi (binade x + 1)"
proof -
  obtain p q where pq: "quotient_of x = (p, q)" by (cases "quotient_of x")
  have q: "0 < q" and x: "x = of_int p / of_int q" using pq quotient_of_denom_pos quotient_of_div by blast+
  have p: "0 < p" using assms q unfolding x by (simp add: zero_less_divide_iff)
  let ?a = "floorlog 2 (nat p)" and ?b = "floorlog 2 (nat q)"
  have a: "2 ^ (?a - 1) \<le> nat p" "nat p < 2 ^ ?a" "2 ^ (?b - 1) \<le> nat q" "nat q < 2 ^ ?b"
    using floorlog_bounds[of "nat p" 2] floorlog_bounds[of "nat q" 2] p q by auto
  have pos: "0 < ?a" "0 < ?b" using p q by (auto simp: floorlog_def)
  have P: "2 ^ (?a - 1) \<le> (of_int p :: rat)" "(of_int p :: rat) < 2 ^ ?a"
    and Q: "2 ^ (?b - 1) \<le> (of_int q :: rat)" "(of_int q :: rat) < 2 ^ ?b"
    using pow_casts[OF p a(1,2)] pow_casts[OF q a(3,4)] by blast+
  have "2 powi (int ?a - int ?b - 1) = (2 ^ (?a - 1) / 2 ^ ?b :: rat)"
    using pos by (simp add: power_int_diff power_diff)
  also have "\<dots> \<le> x" unfolding x using P Q p q by (intro frac_le) auto
  finally have l: "2 powi (int ?a - int ?b - 1) \<le> x" .
  have "x < 2 ^ ?a / 2 ^ (?b - 1)" unfolding x using P Q p q by (intro frac_less) auto
  also have "\<dots> = 2 powi (int ?a - int ?b + 1)" using pos by (simp add: power_int_diff power_int_add power_diff)
  finally show ?thesis using l by (simp add: binade_def pq Let_def)
qed

lemma binade_unique: "2 powi e \<le> x \<Longrightarrow> x < 2 powi (e + 1) \<Longrightarrow> binade x = e"
proof -
  assume e: "2 powi e \<le> x" "x < 2 powi (e + 1)"
  have "0 < x" using e(1) by (meson less_le_trans zero_less_numeral zero_less_power_int)
  note b = binade_bounds[OF this]
  have "2 powi binade x < (2 :: rat) powi (e + 1)" "2 powi e < (2 :: rat) powi (binade x + 1)" using b e by linarith+
  from this[THEN powi_less_imp] show ?thesis by simp
qed

lemma float64_binade:
  assumes "2 powi e \<le> x" "x < 2 powi (e + 1)"
  shows "float64 x = of_int (round_half_even (x / 2 powi (e - 52))) * 2 powi (e - 52)"
proof -
  have "0 < x" using assms(1) by (meson less_le_trans zero_less_numeral zero_less_power_int)
  then show ?thesis by (simp add: float64_def binade_unique[OF assms])
qed

text \<open>The error of a rounding is at most half a unit, and a number less than half a unit away from a multiple
  of the unit is rounded to it.\<close>

lemma float64_error:
  assumes "2 powi e \<le> x" "x < 2 powi (e + 1)"
  shows "\<bar>float64 x - x\<bar> \<le> 2 powi (e - 53)"
proof -
  let ?u = "2 powi (e - 52) :: rat"
  have u: "0 < ?u" by simp
  have "\<bar>float64 x - x\<bar> = \<bar>of_int (round_half_even (x / ?u)) - x / ?u\<bar> * ?u"
    unfolding float64_binade[OF assms] by (rule scaled_abs[OF u])
  also have "\<dots> \<le> 1/2 * ?u" using round_half_even_near[of "x / ?u"] u by (intro mult_right_mono) auto
  also have "\<dots> = 2 powi (e - 53)" by (simp add: power_int_diff)
  finally show ?thesis .
qed

lemma float64_nearest:
  assumes "2 powi e \<le> x" "x < 2 powi (e + 1)" "\<bar>x - of_int n * 2 powi (e - 52)\<bar> < 2 powi (e - 53)"
  shows "float64 x = of_int n * 2 powi (e - 52)"
proof -
  let ?u = "2 powi (e - 52) :: rat"
  have u: "0 < ?u" by simp
  have "\<bar>x / ?u - of_int n\<bar> = \<bar>x - of_int n * ?u\<bar> / ?u"
    using scaled_abs[OF u, of "of_int n" x] u by (simp add: abs_minus_commute)
  also have "\<dots> < 2 powi (e - 53) / ?u" using assms(3) u by (intro divide_strict_right_mono) auto
  also have "\<dots> = 1/2" by (simp add: power_int_diff)
  finally show ?thesis unfolding float64_binade[OF assms(1,2)] by (simp add: round_half_even_nearest)
qed

text \<open>C27. Every time between 6 September 2005 and 19 January 2038, in microseconds, is read back exactly as
  it was stored, although the seconds are rounded to a \<^verbatim>\<open>float64\<close> and the result is truncated.\<close>

theorem stored_times_read_back:
  assumes "2 ^ 50 < t" "t < 2 ^ 31 * 10 ^ 6"
  shows "DecodeTime (EncodeTime t) = t"
proof -
  let ?t = "of_int t :: rat"
  have t: "2 ^ 50 + 1 \<le> ?t" "?t < 2 ^ 31 * 10 ^ 6"
  proof -
    have "of_int (2 ^ 50 + 1) \<le> ?t" using assms(1) unfolding of_int_le_iff by linarith
    moreover have "?t < of_int (2 ^ 31 * 10 ^ 6)" using assms(2) by (simp only: of_int_less_iff)
    ultimately show "2 ^ 50 + 1 \<le> ?t" "?t < 2 ^ 31 * 10 ^ 6" by simp_all
  qed
  have quarter: "of_int (4 * t) * 2 powi (50 - 52) = ?t" by (simp add: power_int_def power2_eq_square)
  have near: "float64 y = ?t" if "2 ^ 50 \<le> y" "y < 2 ^ 51" "\<bar>y - ?t\<bar> < 1/8" for y
    using float64_nearest[of 50 y "4 * t", unfolded quarter] that by (simp add: power_int_def power_divide)
  have f: "float64 ?t = ?t" using near[of ?t] t by simp
  let ?q = "float64 (?t / 10 ^ 6)"
  have "\<bar>?q - ?t / 10 ^ 6\<bar> \<le> 2 powi (30 - 53)" using t by (intro float64_error) (simp_all add: power_int_def)
  then have q: "\<bar>?q - ?t / 10 ^ 6\<bar> \<le> 1 / 8388608" by (simp add: power_int_def power_divide)
  have "\<bar>?q * 10 ^ 6 - ?t\<bar> = \<bar>?q - ?t / 10 ^ 6\<bar> * 10 ^ 6" by (rule scaled_abs) simp
  then have e: "\<bar>?q * 10 ^ 6 - ?t\<bar> < 1/8" using q by simp
  have n: "1125899906842625 \<le> ?t" "?t < 2147483648000000" using t by simp_all
  have "1125899906842624 \<le> ?q * 10 ^ 6" "?q * 10 ^ 6 < 2251799813685248" using e n by linarith+
  then have "2 ^ 50 \<le> ?q * 10 ^ 6" "?q * 10 ^ 6 < 2 ^ 51" by simp_all
  then have "float64 (?q * 10 ^ 6) = ?t" using e by (intro near)
  moreover have "0 \<le> ?t" using t by simp
  ultimately show ?thesis by (simp add: DecodeTime_def EncodeTime_def f Let_def)
qed

theorem stored_times_read_back_witness: "DecodeTime (EncodeTime 1700000000123457) = 1700000000123457"
  using stored_times_read_back[of 1700000000123457] by simp

text \<open>Outside of that range a microsecond can be lost.\<close>

lemma stored_time_loses: "DecodeTime (EncodeTime 249) = 248"
proof -
  have a: "float64 249 = 249"
    using float64_nearest[of 7 249 "249 * 2 ^ 45"] by (simp add: power_int_def power_divide)
  have b: "float64 (249 / 10 ^ 6) = of_int 4593239274353678 * 2 powi (- 64)"
    using float64_nearest[of "- 12" "249 / 10 ^ 6" "4593239274353678"] by (simp add: power_int_def power_divide abs_if)
  have "float64 (of_int 4593239274353678 * 2 powi (- 64) * 10 ^ 6) = of_int 8760908650119167 * 2 powi (- 45)"
    using float64_nearest[of 7 "of_int 4593239274353678 * 2 powi (- 64) * 10 ^ 6" "8760908650119167"] by (simp add: power_int_def power_divide abs_if)
  then have "float64 (float64 (float64 249 / 10 ^ 6) * 10 ^ 6) = of_int 8760908650119167 * 2 powi (- 45)" unfolding a b .
  then show ?thesis by (simp add: DecodeTime_def EncodeTime_def Let_def power_int_def power_divide floor_eq_iff)
qed

end
