(* ===== verification/Config.thy ===== *)
theory Config
  imports Prelude
begin

text \<open>
  Configuration: the texts of log levels and writers (\<^verbatim>\<open>config/config.go\<close>, \<^verbatim>\<open>config/loglevel_string.go\<close>), the search
  for the configuration file, the overriding of values by environment variables and the loading of
  secrets (\<^verbatim>\<open>config/internal.go\<close>, \<^verbatim>\<open>config/secrets.go\<close>), the identifiers of secrets (\<^verbatim>\<open>secrets/key_transformer.go\<close>)
  and the version text (\<^verbatim>\<open>version/version.go\<close>). The decoding of YAML and of the configuration struct is done
  by other packages; between them the configuration is a tree of maps, which is what is modelled.
\<close>

section \<open>Levels, writers and host\<close>

definition LogLevelTrace :: int where "LogLevelTrace = - 8"
definition LogLevelDebug :: int where "LogLevelDebug = - 4"
definition LogLevelInfo :: int where "LogLevelInfo = 0"
definition LogLevelWarn :: int where "LogLevelWarn = 4"
definition LogLevelError :: int where "LogLevelError = 8"

definition LogLevel_String :: "int \<Rightarrow> string" where
  "LogLevel_String i =
     (if i = - 8 then ''TRACE'' else if i = - 4 then ''DEBUG'' else if i = 0 then ''INFO'' else if i = 4 then ''WARN''
      else if i = 8 then ''ERROR'' else ''LogLevel('' @ show_int i @ '')'')"

text \<open>The text of a level in \<^verbatim>\<open>slog\<close>: the nearest named level below, and the distance with its sign.\<close>

definition slog_level_text :: "string \<Rightarrow> int \<Rightarrow> string" where
  "slog_level_text base d = (if d = 0 then base else base @ (if d < 0 then [] else ''+'') @ show_int d)"

definition slog_Level_String :: "int \<Rightarrow> string" where
  "slog_Level_String l =
     (if l < 0 then slog_level_text ''DEBUG'' (l + 4) else if l < 4 then slog_level_text ''INFO'' l
      else if l < 8 then slog_level_text ''WARN'' (l - 4) else slog_level_text ''ERROR'' (l - 8))"

definition TraceAsSlogStr :: string where
  "TraceAsSlogStr = slog_Level_String LogLevelTrace"

lemma trace_as_slog: "TraceAsSlogStr = ''DEBUG-4''"
  by code_simp

definition LogLevel_UnmarshalText :: "string \<Rightarrow> string + int" where
  "LogLevel_UnmarshalText text =
     (let s = ToUpper text
      in if s = TraceAsSlogStr \<or> s = LogLevel_String LogLevelTrace then Inr LogLevelTrace
         else if s = [] \<or> s = LogLevel_String LogLevelDebug then Inr LogLevelDebug
         else if s = LogLevel_String LogLevelInfo then Inr LogLevelInfo
         else if s = LogLevel_String LogLevelWarn then Inr LogLevelWarn
         else if s = LogLevel_String LogLevelError then Inr LogLevelError
         else Inl (''invalid log level: '' @ text))"

definition LogLevel_MarshalText :: "int \<Rightarrow> string" where
  "LogLevel_MarshalText l = LogLevel_String l"

definition LogConfigWriter_UnmarshalText :: "string \<Rightarrow> string + string" where
  "LogConfigWriter_UnmarshalText s =
     (if s \<in> {''stdout'', ''stderr'', ''buffer''} then Inr s
      else if s = [] then Inr ''stdout''
      else Inl (''invalid logger writer: '' @ s))"

definition LogConfigWriter_MarshalText :: "string \<Rightarrow> string" where
  "LogConfigWriter_MarshalText w = w"

definition Host_MarshalText :: "string \<Rightarrow> string" where
  "Host_MarshalText h = h"

definition Host_UnmarshalText :: "string + string \<Rightarrow> string \<Rightarrow> string + string" where
  "Host_UnmarshalText hostname text =
     (if text = [] then (case hostname of Inl e \<Rightarrow> Inl (''failed to get hostname: '' @ e) | Inr h \<Rightarrow> Inr h) else Inr text)"

section \<open>Finding the configuration file\<close>

text \<open>A path is the list of its components from the root; \<open>stat\<close> gives the outcome of \<^verbatim>\<open>os.Stat\<close> on a path.\<close>

datatype stat = Exists | NotExist | StatError

datatype found = Found "string list" | ErrNotExist | ErrStat

text \<open>The folder that \<open>k\<close> times \<^verbatim>\<open>../\<close> leads to from the working directory: the root is its own parent.\<close>

definition up :: "string list \<Rightarrow> nat \<Rightarrow> string list" where
  "up cwd k = take (length cwd - k) cwd"

definition filepath_Base :: "string list \<Rightarrow> string" where
  "filepath_Base p = (if p = [] then ''/'' else last p)"

partial_function (option) recursiveFileFinder ::
  "(string list \<Rightarrow> stat) \<Rightarrow> string \<Rightarrow> string list \<Rightarrow> nat \<Rightarrow> found option" where
  "recursiveFileFinder stat fileName cwd k =
     (let dir = up cwd k
      in case stat (dir @ [''test'', fileName]) of
           StatError \<Rightarrow> Some ErrStat
         | Exists \<Rightarrow> Some (Found (dir @ [''test'', fileName]))
         | NotExist \<Rightarrow>
            (case stat (dir @ [fileName]) of
               StatError \<Rightarrow> Some ErrStat
             | Exists \<Rightarrow> Some (Found (dir @ [fileName]))
             | NotExist \<Rightarrow>
                (case stat (dir @ [''go.mod'']) of
                   StatError \<Rightarrow> Some ErrStat
                 | Exists \<Rightarrow> Some ErrNotExist
                 | NotExist \<Rightarrow>
                     if filepath_Base (dir @ [''go.mod'']) = ''/'' then Some ErrNotExist
                     else recursiveFileFinder stat fileName cwd (Suc k))))"

definition findConfigFile :: "bool \<Rightarrow> (string list \<Rightarrow> stat) \<Rightarrow> string \<Rightarrow> string list \<Rightarrow> found option" where
  "findConfigFile testing stat fileName cwd =
     (if testing then recursiveFileFinder stat fileName cwd 0
      else Some (case stat (cwd @ [fileName]) of
                   StatError \<Rightarrow> ErrStat | NotExist \<Rightarrow> ErrNotExist | Exists \<Rightarrow> Found (cwd @ [fileName])))"

section \<open>Environment variables\<close>

datatype conf_val = CMap "(string \<times> conf_val) list" | CString string | COther string

text \<open>The environment as \<^verbatim>\<open>os.Environ\<close> lists it; an entry without an equals sign is skipped.\<close>

fun parse_env :: "string list \<Rightarrow> (string \<rightharpoonup> string) \<Rightarrow> (string \<rightharpoonup> string)" where
  "parse_env [] env = env"
| "parse_env (p # ps) env =
     (case Cut p CHR ''='' of (key, val, found) \<Rightarrow> parse_env ps (if found then env(ToLower key \<mapsto> val) else env))"

fun bindEnvVars :: "(string \<rightharpoonup> string) \<Rightarrow> string \<Rightarrow> (string \<times> conf_val) list \<Rightarrow> (string \<times> conf_val) list" where
  "bindEnvVars env acc [] = []"
| "bindEnvVars env acc ((key, CMap m) # es) = (key, CMap (bindEnvVars env (acc @ ToLower key @ ''_'') m)) # bindEnvVars env acc es"
| "bindEnvVars env acc ((key, v) # es) =
     (key, case env (acc @ ToLower key) of Some e \<Rightarrow> CString e | None \<Rightarrow> v) # bindEnvVars env acc es"

section \<open>Secrets\<close>

record secrets_manager =
  GetSecret :: "string \<Rightarrow> (string + string) go"
  GetSecretVerbatim :: "string \<Rightarrow> (string + string) go"

definition PanicSecretsManager :: secrets_manager where
  "PanicSecretsManager = \<lparr>
     GetSecret = (\<lambda>name. Panic (''no SecretsManager provided, but trying to get secret for key: '' @ name)),
     GetSecretVerbatim = (\<lambda>i. Panic (''no SecretsManager provided, but trying to get secret for key: '' @ i))\<rparr>"

definition got_secret :: "string \<Rightarrow> (string + string) go \<Rightarrow> string option go" where
  "got_secret smKey r =
     (case r of
        Panic p \<Rightarrow> Panic p
      | Ret (Inl e) \<Rightarrow> Panic (''could not load secret: '' @ smKey @ '', error: '' @ e)
      | Ret (Inr s) \<Rightarrow> Ret (Some s))"

text \<open>What a text stands for: \<open>None\<close> when it is no secret.\<close>

definition secret_for :: "secrets_manager \<Rightarrow> string \<Rightarrow> string \<Rightarrow> string option go" where
  "secret_for sm key v =
     (if \<not> HasPrefix v ''<secret'' \<or> \<not> HasSuffix v ''>'' then Ret None
      else if v = ''<secret>'' then got_secret key (GetSecret sm key)
      else if v ! 7 = CHR '':''
      then let smKey = take (length v - 9) (drop 8 v)
           in if smKey = [] then Panic (''invalid secret value: '' @ v @ '', for key: '' @ key @ '', provide a custom key or remove '' @ [CHR 0x27, CHR '':'', CHR 0x27])
              else got_secret smKey (GetSecretVerbatim sm smKey)
      else Panic (''invalid secret value: '' @ v @ '', for key: '' @ key))"

text \<open>Assignment to a key of a map.\<close>

fun put_key :: "'k \<Rightarrow> 'v \<Rightarrow> ('k \<times> 'v) list \<Rightarrow> ('k \<times> 'v) list" where
  "put_key k v [] = [(k, v)]"
| "put_key k v ((k', v') # es) = (if k' = k then (k, v) # es else (k', v') # put_key k v es)"

text \<open>The traversal goes over the entries of a map and assigns to the map; entries that it adds are not
  visited again (Go may visit them, which changes nothing for a secret that is no such text itself).
  The assignment uses the key with its prefix.\<close>

fun traverse ::
  "secrets_manager \<Rightarrow> string \<Rightarrow> (string \<times> conf_val) list \<Rightarrow> (string \<times> conf_val) list \<Rightarrow> (string \<times> conf_val) list go" where
  "traverse sm pre [] m = Ret m"
| "traverse sm pre ((key, CMap v) # es) m =
     go_bind (traverse sm (pre @ key @ ''.'') v v) (\<lambda>v'. traverse sm pre es (put_key key (CMap v') m))"
| "traverse sm pre ((key, CString v) # es) m =
     go_bind (secret_for sm (pre @ key) v)
       (\<lambda>s. traverse sm pre es (case s of None \<Rightarrow> m | Some x \<Rightarrow> put_key (pre @ key) (CString x) m))"
| "traverse sm pre ((key, COther v) # es) m = traverse sm pre es m"

definition loadSecrets :: "string \<Rightarrow> secrets_manager \<Rightarrow> (string \<times> conf_val) list \<Rightarrow> (string \<times> conf_val) list go" where
  "loadSecrets envType sm confMap = (if envType = ''test'' then Ret confMap else traverse sm [] confMap confMap)"

section \<open>Identifiers of secrets\<close>

record secrets_conf =
  sc_Name :: string
  sc_EnvName :: string
  sc_EnvType :: string
  sc_PrefixFmt :: string
  sc_KeyFmt :: string

definition fill_names :: "secrets_conf \<Rightarrow> string \<Rightarrow> string" where
  "fill_names conf f = ReplaceAll (ReplaceAll (ReplaceAll f ''{Name}'' (sc_Name conf)) ''{Env.Name}'' (sc_EnvName conf)) ''{Env.Type}'' (sc_EnvType conf)"

definition NewDefaultKeyTransformer :: "secrets_conf \<Rightarrow> string \<times> string" where
  "NewDefaultKeyTransformer conf =
     (fill_names conf (if sc_PrefixFmt conf = [] then ''{Name}/{Env.Type}/{Env.Name}/'' else sc_PrefixFmt conf),
      fill_names conf (if sc_KeyFmt conf = [] then ''{Key}'' else sc_KeyFmt conf))"

definition Transform :: "string \<times> string \<Rightarrow> string \<Rightarrow> string" where
  "Transform t key = fst t @ ReplaceAll (snd t) ''{Key}'' key"

section \<open>Version\<close>

definition isIdentChar :: "char \<Rightarrow> bool" where
  "isIdentChar c \<longleftrightarrow> (let n = (of_char c :: nat) in 65 \<le> n \<and> n \<le> 90 \<or> 97 \<le> n \<and> n \<le> 122 \<or> 48 \<le> n \<and> n \<le> 57 \<or> c = CHR ''-'')"

fun cleanMeta_loop :: "string \<Rightarrow> nat \<Rightarrow> nat \<Rightarrow> string \<Rightarrow> string" where
  "cleanMeta_loop str 0 i res = res"
| "cleanMeta_loop str (Suc n) i res =
     cleanMeta_loop str n (Suc i) (if isIdentChar (str ! i) then res else take i res @ ''-'' @ drop (Suc i) res)"

definition cleanMeta :: "string \<Rightarrow> string" where
  "cleanMeta str = cleanMeta_loop str (length str) 0 str"

definition SemVer :: "string \<Rightarrow> string \<Rightarrow> string \<Rightarrow> string \<Rightarrow> string go" where
  "SemVer Release Prerelease Commit BuildTime =
     (if Release = [] then Panic ''index out of range''
      else Ret ((if hd Release = CHR ''v'' then Release else ''v'' @ Release) @
                (if Prerelease \<noteq> [] then ''-'' @ Prerelease else []) @
                (if Commit \<noteq> [] \<or> BuildTime \<noteq> []
                 then (if Commit \<noteq> [] then ''+'' @ cleanMeta Commit else ''+unset'') @
                      (if BuildTime \<noteq> [] then ''.'' @ cleanMeta BuildTime else [])
                 else [])))"

section \<open>Texts of levels\<close>

lemmas level_defs = LogLevelTrace_def LogLevelDebug_def LogLevelInfo_def LogLevelWarn_def LogLevelError_def

lemma level_texts:
  "LogLevel_String LogLevelTrace = ''TRACE''" "LogLevel_String LogLevelDebug = ''DEBUG''" "LogLevel_String LogLevelInfo = ''INFO''"
  "LogLevel_String LogLevelWarn = ''WARN''" "LogLevel_String LogLevelError = ''ERROR''"
  by (simp_all add: LogLevel_String_def level_defs)

lemma upper_lower: "ToUpper (ToLower s) = ToUpper s"
proof -
  have "upper_char (lower_char c) = upper_char c" for c
    by (auto simp: upper_char_def lower_char_def Let_def)
  then show ?thesis by (simp add: ToUpper_def ToLower_def)
qed

text \<open>Every level is read back from its text in upper, lower or mixed case, the empty text is the debug
  level, and the text of a number that is no level is refused.\<close>

lemma log_levels_read_back:
  "LogLevel_UnmarshalText (LogLevel_MarshalText l) =
     (if l \<in> {LogLevelTrace, LogLevelDebug, LogLevelInfo, LogLevelWarn, LogLevelError} then Inr l
      else Inl (''invalid log level: '' @ LogLevel_String l)) \<and>
   map_sum (\<lambda>_. ()) id (LogLevel_UnmarshalText (ToLower text)) = map_sum (\<lambda>_. ()) id (LogLevel_UnmarshalText text) \<and>
   LogLevel_UnmarshalText [] = Inr LogLevelDebug"
proof (intro conjI)
  have t: "LogLevel_UnmarshalText ''TRACE'' = Inr LogLevelTrace" "LogLevel_UnmarshalText ''DEBUG'' = Inr LogLevelDebug"
    "LogLevel_UnmarshalText ''INFO'' = Inr LogLevelInfo" "LogLevel_UnmarshalText ''WARN'' = Inr LogLevelWarn"
    "LogLevel_UnmarshalText ''ERROR'' = Inr LogLevelError"
    by code_simp+
  have o: "ToUpper (''LogLevel('' @ s) = ''LOGLEVEL('' @ ToUpper s" for s
  proof -
    have "ToUpper ''LogLevel('' = ''LOGLEVEL(''" by code_simp
    then show ?thesis by (simp add: ToUpper_def)
  qed
  have u: "LogLevel_UnmarshalText (''LogLevel('' @ s) = Inl (''invalid log level: '' @ ''LogLevel('' @ s)" for s
    unfolding LogLevel_UnmarshalText_def o by (simp add: trace_as_slog level_texts Let_def)
  show "LogLevel_UnmarshalText (LogLevel_MarshalText l) =
     (if l \<in> {LogLevelTrace, LogLevelDebug, LogLevelInfo, LogLevelWarn, LogLevelError} then Inr l
      else Inl (''invalid log level: '' @ LogLevel_String l))"
    using t u by (simp add: LogLevel_MarshalText_def LogLevel_String_def level_defs)
  show "map_sum (\<lambda>_. ()) id (LogLevel_UnmarshalText (ToLower text)) = map_sum (\<lambda>_. ()) id (LogLevel_UnmarshalText text)"
    by (simp add: LogLevel_UnmarshalText_def upper_lower Let_def)
  show "LogLevel_UnmarshalText [] = Inr LogLevelDebug" by code_simp
qed

section \<open>The search for the file\<close>

text \<open>Nothing is found in the folder \<open>k\<close> levels up, and what the search answers where something is.\<close>

definition nothing_at :: "(string list \<Rightarrow> stat) \<Rightarrow> string \<Rightarrow> string list \<Rightarrow> nat \<Rightarrow> bool" where
  "nothing_at stat f cwd k \<longleftrightarrow> stat (up cwd k @ [''test'', f]) = NotExist \<and> stat (up cwd k @ [f]) = NotExist \<and>
     stat (up cwd k @ [''go.mod'']) = NotExist"

definition outcome_at :: "(string list \<Rightarrow> stat) \<Rightarrow> string \<Rightarrow> string list \<Rightarrow> nat \<Rightarrow> found" where
  "outcome_at stat f cwd k =
     (case stat (up cwd k @ [''test'', f]) of
        StatError \<Rightarrow> ErrStat | Exists \<Rightarrow> Found (up cwd k @ [''test'', f])
      | NotExist \<Rightarrow> (case stat (up cwd k @ [f]) of
          StatError \<Rightarrow> ErrStat | Exists \<Rightarrow> Found (up cwd k @ [f])
        | NotExist \<Rightarrow> (case stat (up cwd k @ [''go.mod'']) of StatError \<Rightarrow> ErrStat | _ \<Rightarrow> ErrNotExist)))"

lemma finder_step:
  "recursiveFileFinder stat f cwd k =
     (if nothing_at stat f cwd k then recursiveFileFinder stat f cwd (Suc k) else Some (outcome_at stat f cwd k))"
  by (subst recursiveFileFinder.simps)
    (auto simp: nothing_at_def outcome_at_def Let_def filepath_Base_def split: stat.splits)

lemma finder_reaches: "(\<And>j. k \<le> j \<Longrightarrow> j < k + n \<Longrightarrow> nothing_at stat f cwd j) \<Longrightarrow>
  recursiveFileFinder stat f cwd k = recursiveFileFinder stat f cwd (k + n)"
proof (induction n)
  case (Suc n)
  then have "recursiveFileFinder stat f cwd k = recursiveFileFinder stat f cwd (k + n)" by simp
  also have "\<dots> = recursiveFileFinder stat f cwd (k + Suc n)" using Suc.prems[of "k + n"] finder_step[of stat f cwd "k + n"] by simp
  finally show ?case .
qed simp

lemma finder_returns: "recursiveFileFinder stat f cwd k = Some r \<Longrightarrow> \<exists>j \<ge> k. \<not> nothing_at stat f cwd j"
proof (rule recursiveFileFinder.raw_induct[of "\<lambda>st fi c k r. \<exists>j \<ge> k. \<not> nothing_at st fi c j"], goal_cases)
  case (1 rec stat f cwd k r)
  show ?case
  proof (cases "nothing_at stat f cwd k")
    case True
    then have "rec stat f cwd (Suc k) = Some r"
      using 1(3) by (auto simp: nothing_at_def Let_def filepath_Base_def)
    then show ?thesis using 1(2)[of stat f cwd "Suc k" r] Suc_leD by blast
  qed auto
qed

text \<open>C30. The search for the configuration file answers for the nearest folder that has the file, the file in its
  \<^verbatim>\<open>test\<close> folder, or a \<^verbatim>\<open>go.mod\<close>; it returns if and only if there is such a folder or a file that cannot be
  read, and otherwise goes on for ever, also at the root.\<close>

theorem file_search_outcome:
  "recursiveFileFinder stat f cwd 0 =
     (if \<exists>k. \<not> nothing_at stat f cwd k then Some (outcome_at stat f cwd (LEAST k. \<not> nothing_at stat f cwd k)) else None)"
proof (cases "\<exists>k. \<not> nothing_at stat f cwd k")
  case True
  let ?n = "LEAST k. \<not> nothing_at stat f cwd k"
  have n: "\<not> nothing_at stat f cwd ?n" using True by (rule LeastI_ex)
  have "recursiveFileFinder stat f cwd 0 = recursiveFileFinder stat f cwd (0 + ?n)"
    using finder_reaches[of 0 ?n stat f cwd] not_less_Least by fastforce
  then show ?thesis using n True finder_step[of stat f cwd ?n] by simp
next
  case False
  then show ?thesis using finder_returns[of stat f cwd 0] by (cases "recursiveFileFinder stat f cwd 0") auto
qed

section \<open>Overriding by the environment\<close>

fun conf_at :: "string list \<Rightarrow> (string \<times> conf_val) list \<Rightarrow> conf_val option" where
  "conf_at [] m = None"
| "conf_at [k] m = map_of m k"
| "conf_at (k # p) m = (case map_of m k of Some (CMap m') \<Rightarrow> conf_at p m' | _ \<Rightarrow> None)"

fun is_map :: "conf_val \<Rightarrow> bool" where
  "is_map (CMap m) = True" | "is_map v = False"

text \<open>The name of the variable that overrides a path.\<close>

fun env_name :: "string list \<Rightarrow> string" where
  "env_name [] = []"
| "env_name [k] = ToLower k"
| "env_name (k # p) = ToLower k @ ''_'' @ env_name p"

fun bound :: "(string \<rightharpoonup> string) \<Rightarrow> string \<Rightarrow> string \<Rightarrow> conf_val \<Rightarrow> conf_val" where
  "bound env acc k (CMap m) = CMap (bindEnvVars env (acc @ ToLower k @ ''_'') m)"
| "bound env acc k v = (case env (acc @ ToLower k) of Some e \<Rightarrow> CString e | None \<Rightarrow> v)"

lemma bind_lookup: "map_of (bindEnvVars env acc m) k = map_option (bound env acc k) (map_of m k)"
  by (induction env acc m rule: bindEnvVars.induct) auto

lemma bind_path:
  "conf_at p m = Some v \<Longrightarrow> \<not> is_map v \<Longrightarrow>
   conf_at p (bindEnvVars env acc m) = Some (case env (acc @ env_name p) of Some e \<Rightarrow> CString e | None \<Rightarrow> v)"
proof (induction p m arbitrary: acc rule: conf_at.induct)
  case (2 k m)
  then show ?case by (cases v) (auto simp: bind_lookup)
next
  case (3 k k' p m)
  then obtain m' where m: "map_of m k = Some (CMap m')" and p: "conf_at (k' # p) m' = Some v"
    by (auto split: option.splits conf_val.splits)
  show ?case using "3.IH"[OF m refl p "3.prems"(2), of "acc @ ToLower k @ ''_''"] m by (simp add: bind_lookup)
qed simp

text \<open>A configuration value is replaced by the environment variable whose name is the path in lower case,
  joined by underscores, if there is one, and otherwise stays as it is, at every depth.\<close>

lemma environment_overrides:
  assumes "conf_at path m = Some v" "\<not> is_map v"
  shows "conf_at path (bindEnvVars env [] m) = Some (case env (env_name path) of Some e \<Rightarrow> CString e | None \<Rightarrow> v)"
  using bind_path[OF assms, of env "[]"] by simp

lemma environment_overrides_witness:
  "conf_at [''Database'', ''Port''] (bindEnvVars (parse_env [''DATABASE_PORT=5433''] Map.empty) [] [(''Database'', CMap [(''Port'', COther ''5432'')])]) =
     Some (CString ''5433'')"
proof -
  have "ToLower ''DATABASE_PORT'' = ''database_port''" "ToLower ''Database'' = ''database''" "ToLower ''Port'' = ''port''"
    by code_simp+
  then show ?thesis
    using environment_overrides[of "[''Database'', ''Port'']" "[(''Database'', CMap [(''Port'', COther ''5432'')])]" "COther ''5432''"
      "parse_env [''DATABASE_PORT=5433''] Map.empty"]
    by simp
qed

section \<open>Loading secrets\<close>

lemma map_of_put_key [simp]: "map_of (put_key k v m) = (map_of m)(k \<mapsto> v)"
  by (induction m) (auto simp: fun_eq_iff)

text \<open>The keys that a traversal assigns to.\<close>

definition assigned :: "string \<Rightarrow> (string \<times> conf_val) list \<Rightarrow> string set" where
  "assigned pre es = {k. \<exists>n. (k, CMap n) \<in> set es} \<union> {pre @ k | k v. (k, CString v) \<in> set es}"

lemma assigned_Cons [simp]:
  "assigned pre ((k, CMap n) # es) = insert k (assigned pre es)"
  "assigned pre ((k, CString v) # es) = insert (pre @ k) (assigned pre es)"
  "assigned pre ((k, COther v) # es) = assigned pre es"
  by (auto simp: assigned_def)

lemma traverse_other: "traverse sm pre es m = Ret m' \<Longrightarrow> k \<notin> assigned pre es \<Longrightarrow> map_of m' k = map_of m k"
proof (induction sm pre es m arbitrary: m' rule: traverse.induct)
  case (2 sm pre key v es m)
  then obtain v' where "traverse sm (pre @ key @ ''.'') v v = Ret v'"
    by (cases "traverse sm (pre @ key @ ''.'') v v") auto
  then show ?case using 2 by auto
next
  case (3 sm pre key v es m)
  then obtain s where "secret_for sm (pre @ key) v = Ret s" by (cases "secret_for sm (pre @ key) v") auto
  then show ?case using 3 by (auto split: option.splits)
qed auto

lemma traverse_map:
  "traverse sm pre es m = Ret m' \<Longrightarrow> (key, CMap n) \<in> set es \<Longrightarrow> distinct (map fst es) \<Longrightarrow>
   key \<notin> {pre @ k | k v. (k, CString v) \<in> set es} \<Longrightarrow>
   \<exists>n'. traverse sm (pre @ key @ ''.'') n n = Ret n' \<and> map_of m' key = Some (CMap n')"
proof (induction sm pre es m arbitrary: m' rule: traverse.induct)
  case (2 sm pre k v es m)
  then obtain v' where v: "traverse sm (pre @ k @ ''.'') v v = Ret v'"
    by (cases "traverse sm (pre @ k @ ''.'') v v") auto
  have t: "traverse sm pre es (put_key k (CMap v') m) = Ret m'" using "2.prems"(1) v by simp
  show ?case
  proof (cases "key = k")
    case True
    then have "n = v" "key \<notin> assigned pre es" using "2.prems"(2-4) by (auto simp: assigned_def rev_image_eqI)
    then show ?thesis using v traverse_other[OF t, of key] True by simp
  next
    case False
    then show ?thesis using "2.IH"(2)[OF t] "2.prems"(2-4) by auto
  qed
next
  case (3 sm pre k v es m)
  then obtain s where s: "secret_for sm (pre @ k) v = Ret s" by (cases "secret_for sm (pre @ k) v") auto
  then show ?case using "3.IH"[of s m'] "3.prems" by auto
qed auto

lemma traverse_top:
  "traverse sm [] es m = Ret m' \<Longrightarrow> (key, CString v) \<in> set es \<Longrightarrow> distinct (map fst es) \<Longrightarrow> map_of m key = Some (CString v) \<Longrightarrow>
   \<exists>s. secret_for sm key v = Ret s \<and> map_of m' key = Some (CString (case s of None \<Rightarrow> v | Some x \<Rightarrow> x))"
proof (induction sm "[] :: string" es m arbitrary: m' rule: traverse.induct)
  case (2 sm k n es m)
  then obtain n' where n': "traverse sm (k @ ''.'') n n = Ret n'" by (cases "traverse sm (k @ ''.'') n n") auto
  have "key \<noteq> k" using "2.prems"(2,3) by (auto simp: rev_image_eqI)
  then show ?case using 2 n' by auto
next
  case (3 sm k w es m)
  then obtain s where s: "secret_for sm k w = Ret s" by (cases "secret_for sm k w") auto
  then have t: "traverse sm [] es (case s of None \<Rightarrow> m | Some x \<Rightarrow> put_key k (CString x) m) = Ret m'"
    using "3.prems"(1) by (cases s) simp_all
  show ?case
  proof (cases "key = k")
    case True
    then have "v = w" "key \<notin> assigned [] es" using "3.prems"(2,3) by (auto simp: assigned_def rev_image_eqI)
    then show ?thesis using s traverse_other[OF t, of key] True "3.prems"(4) by (auto split: option.splits)
  next
    case False
    have "map_of (case s of None \<Rightarrow> m | Some x \<Rightarrow> put_key k (CString x) m) key = Some (CString v)"
      using False "3.prems"(4) by (auto split: option.splits)
    then show ?thesis using "3.hyps"[of s m', unfolded append_Nil] s t False "3.prems"(2,3) by auto
  qed
qed auto

text \<open>When secrets are loaded, a text at the top level of the configuration is replaced by the secret it stands
  for; a text in a nested map stays what it was, since the secret is stored in that map under the key
  with its prefix.\<close>

lemma secrets_resolve_at_top_level:
  assumes "envType \<noteq> ''test''" "loadSecrets envType sm m = Ret m'" "distinct (map fst m)"
  shows "(\<forall>k v. map_of m k = Some (CString v) \<longrightarrow>
       (\<exists>s. secret_for sm k v = Ret s \<and> map_of m' k = Some (CString (case s of None \<Rightarrow> v | Some x \<Rightarrow> x)))) \<and>
     (\<forall>k n k' v. map_of m k = Some (CMap n) \<and> distinct (map fst n) \<and> map_of n k' = Some (CString v) \<and> \<not> HasPrefix k' (k @ ''.'') \<longrightarrow>
       conf_at [k, k'] m' = Some (CString v))"
proof (intro conjI allI impI)
  have t: "traverse sm [] m m = Ret m'" using assms(1,2) by (simp add: loadSecrets_def)
  fix k v
  assume "map_of m k = Some (CString v)"
  then show "\<exists>s. secret_for sm k v = Ret s \<and> map_of m' k = Some (CString (case s of None \<Rightarrow> v | Some x \<Rightarrow> x))"
    using traverse_top[OF t _ assms(3)] map_of_SomeD by fast
next
  have t: "traverse sm [] m m = Ret m'" using assms(1,2) by (simp add: loadSecrets_def)
  fix k n k' v
  assume a: "map_of m k = Some (CMap n) \<and> distinct (map fst n) \<and> map_of n k' = Some (CString v) \<and> \<not> HasPrefix k' (k @ ''.'')"
  have "k \<notin> {[] @ k | k v. (k, CString v) \<in> set m}" using a assms(3) by (auto simp: map_of_eq_Some_iff dest: map_of_is_SomeI eq_key_imp_eq_value)
  then obtain n' where n: "traverse sm (k @ ''.'') n n = Ret n'" "map_of m' k = Some (CMap n')"
    using traverse_map[OF t map_of_SomeD assms(3), of k n] a by auto
  have "k' \<notin> assigned (k @ ''.'') n" using a by (auto simp: assigned_def HasPrefix_def dest: eq_key_imp_eq_value)
  then show "conf_at [k, k'] m' = Some (CString v)" using traverse_other[OF n(1)] n(2) a by simp
qed

lemma secrets_resolve_at_top_level_witness:
  "let sm = \<lparr>GetSecret = (\<lambda>k. Ret (Inr (''s-'' @ k))), GetSecretVerbatim = (\<lambda>k. Ret (Inr k))\<rparr>;
       m = [(''Token'', CString ''<secret>''), (''Database'', CMap [(''Pass'', CString ''<secret>'')])]
   in \<exists>m'. loadSecrets ''prod'' sm m = Ret m' \<and> map_of m' ''Token'' = Some (CString ''s-Token'') \<and>
        conf_at [''Database'', ''Pass''] m' = Some (CString ''<secret>'')"
proof -
  let ?sm = "\<lparr>GetSecret = (\<lambda>k. Ret (Inr (''s-'' @ k))), GetSecretVerbatim = (\<lambda>k. Ret (Inr k))\<rparr>"
  let ?m = "[(''Token'', CString ''<secret>''), (''Database'', CMap [(''Pass'', CString ''<secret>'')])]"
  have s: "secret_for ?sm k ''<secret>'' = Ret (Some (''s-'' @ k))" for k
    by (simp add: secret_for_def got_secret_def HasPrefix_def HasSuffix_def)
  obtain m' where m': "loadSecrets ''prod'' ?sm ?m = Ret m'"
  proof
    show "loadSecrets ''prod'' ?sm ?m = Ret [(''Token'', CString ''s-Token''),
        (''Database'', CMap [(''Pass'', CString ''<secret>''), (''Database.Pass'', CString ''s-Database.Pass'')])]"
      using s[of "''Token''"] s[of "''Database.Pass''"] by (simp add: loadSecrets_def)
  qed
  have d: "distinct (map fst ?m)" "map_of ?m ''Token'' = Some (CString ''<secret>'')"
    "map_of ?m ''Database'' = Some (CMap [(''Pass'', CString ''<secret>'')])" by simp_all
  have p: "map_of [(''Pass'', CString ''<secret>'')] ''Pass'' = Some (CString ''<secret>'')" "distinct (map fst [(''Pass'', CString ''<secret>'')])"
    "\<not> HasPrefix ''Pass'' (''Database'' @ ''.'')" by (simp_all add: HasPrefix_def)
  note th = secrets_resolve_at_top_level[OF _ m' d(1)]
  have "(\<exists>x. secret_for ?sm ''Token'' ''<secret>'' = Ret x \<and> map_of m' ''Token'' = Some (CString (case x of None \<Rightarrow> ''<secret>'' | Some x \<Rightarrow> x)))"
    "conf_at [''Database'', ''Pass''] m' = Some (CString ''<secret>'')"
    using th d(2,3) p by blast+
  then show ?thesis using m' s by auto
qed

section \<open>Identifiers and versions\<close>

lemma ReplaceAll_skip: "old \<noteq> [] \<Longrightarrow> hd old \<notin> set s \<Longrightarrow> ReplaceAll (s @ t) old new = s @ ReplaceAll t old new"
proof (induction s)
  case (Cons c s)
  then show ?case by (cases old) (auto simp: HasPrefix_def)
qed simp

text \<open>With the default formats the identifier of a secret is the name, the type and the name of the
  environment and the key, separated by slashes.\<close>

lemma default_secret_id:
  assumes "CHR ''{'' \<notin> set (sc_Name conf @ sc_EnvType conf @ sc_EnvName conf)" "sc_PrefixFmt conf = []" "sc_KeyFmt conf = []"
  shows "Transform (NewDefaultKeyTransformer conf) key = sc_Name conf @ ''/'' @ sc_EnvType conf @ ''/'' @ sc_EnvName conf @ ''/'' @ key"
  using assms ReplaceAll_skip[of "''{Env.Name}''" "sc_Name conf"] ReplaceAll_skip[of "''{Env.Type}''" "sc_Name conf"]
    ReplaceAll_skip[of "''{Env.Type}''" "sc_EnvName conf" "''/''"]
  by (simp add: Transform_def NewDefaultKeyTransformer_def fill_names_def HasPrefix_def)

text \<open>The metadata of a version has one valid character for each byte.\<close>

lemma cleanMeta_loop: "i + n = length str \<Longrightarrow> length res = length str \<Longrightarrow> drop i res = drop i str \<Longrightarrow>
  cleanMeta_loop str n i res = take i res @ map (\<lambda>c. if isIdentChar c then c else CHR ''-'') (drop i str)"
proof (induction str n i res rule: cleanMeta_loop.induct)
  case (2 str n i res)
  let ?f = "\<lambda>c. if isIdentChar c then c else CHR ''-''"
  let ?r = "if isIdentChar (str ! i) then res else take i res @ ''-'' @ drop (Suc i) res"
  have i: "i < length str" "i < length res" using "2.prems" by auto
  have n: "res ! i = str ! i" "drop (Suc i) res = drop (Suc i) str"
    using "2.prems"(3) i by (metis Cons_nth_drop_Suc list.inject)+
  have "take (Suc i) ?r = take i res @ [?f (str ! i)]" using i n by (simp add: take_Suc_conv_app_nth)
  moreover have "drop (Suc i) ?r = drop (Suc i) str" "length ?r = length str" using i n "2.prems"(2) by auto
  ultimately have "cleanMeta_loop str n (Suc i) ?r = (take i res @ [?f (str ! i)]) @ map ?f (drop (Suc i) str)"
    using "2.IH" "2.prems"(1) by simp
  also have "\<dots> = take i res @ map ?f (drop i str)" by (simp add: Cons_nth_drop_Suc[OF i(1), symmetric])
  finally show ?case by simp
qed simp

lemma cleanMeta_valid: "cleanMeta s = map (\<lambda>c. if isIdentChar c then c else CHR ''-'') s \<and> list_all isIdentChar (cleanMeta s)"
proof -
  have "cleanMeta s = map (\<lambda>c. if isIdentChar c then c else CHR ''-'') s" by (simp add: cleanMeta_def cleanMeta_loop)
  moreover have "isIdentChar CHR ''-''" by (simp add: isIdentChar_def Let_def)
  ultimately show ?thesis by (auto simp: list_all_iff)
qed

end
