(* ===== verification/ConfigLoad.thy ===== *)
theory ConfigLoad
  imports Config
begin

text \<open>
  Loading a configuration as a whole (\<^verbatim>\<open>config/config.go\<close>, \<^verbatim>\<open>config/internal.go\<close>) and the secrets manager of AWS
  (\<^verbatim>\<open>secrets/secrets_aws.go\<close>). YAML, dotenv files, JSON and the decoding of a map into a struct are done by other packages,
  which are the arguments \<open>codec\<close> and \<open>files\<close>. A load that searches for its file without end is \<open>None\<close>. The
  files are read once per process; here they are read for the load.
\<close>

section \<open>Loading\<close>

record files =
  fs_testing :: bool
  fs_stat :: "string list \<Rightarrow> stat"
  fs_cwd :: "string list"
  fs_ReadFile :: "string list \<Rightarrow> string + string"
  fs_godotenv :: "string list \<Rightarrow> string list \<Rightarrow> string + string list"

record 'c codec =
  cd_type :: string
  cd_yaml :: "string \<Rightarrow> string + (string \<times> conf_val) list"
  cd_Decode :: "(string \<times> conf_val) list \<Rightarrow> 'c \<Rightarrow> string + 'c"
  cd_json :: "'c \<Rightarrow> string + (string \<times> conf_val) list"

text \<open>An error becomes a panic.\<close>

fun must :: "string \<Rightarrow> string + 'a \<Rightarrow> 'a go" where
  "must text (Inl e) = Panic (text @ '', error: '' @ e)"
| "must text (Inr x) = Ret x"

definition loadDotEnv :: "files \<Rightarrow> string list \<Rightarrow> string list go option" where
  "loadDotEnv fs env =
     map_option (\<lambda>r. case r of
         Found p \<Rightarrow> must ''failed to load dot env file'' (fs_godotenv fs p env)
       | ErrNotExist \<Rightarrow> Ret env
       | ErrStat \<Rightarrow> Panic ''failed to find dot env file'')
       (findConfigFile (fs_testing fs) (fs_stat fs) ''.env'' (fs_cwd fs))"

definition loadConfigYaml :: "files \<Rightarrow> string go option" where
  "loadConfigYaml fs =
     map_option (\<lambda>r. case r of
         Found p \<Rightarrow> must ''failed to read config.yaml'' (fs_ReadFile fs p)
       | _ \<Rightarrow> Panic ''failed to read config.yaml'')
       (findConfigFile (fs_testing fs) (fs_stat fs) ''config.yaml'' (fs_cwd fs))"

text \<open>The stages from the contents of the file: YAML to a map and to the struct, the struct to a complete map, the
  environment, the step before the end, and the map to the struct again.\<close>

definition decode_stages ::
  "'c codec \<Rightarrow> string list \<Rightarrow> string \<Rightarrow> 'c \<Rightarrow> ((string \<times> conf_val) list \<Rightarrow> (string \<times> conf_val) list go) option \<Rightarrow> 'c go" where
  "decode_stages cd environ yaml conf preprocess =
     (let decode = (\<lambda>m c. must (''failed to decode config map to struct: '' @ cd_type cd) (cd_Decode cd m c))
      in go_bind (must ''failed to unmarshal config to map'' (cd_yaml cd yaml)) (\<lambda>confMap.
         go_bind (decode confMap conf) (\<lambda>conf1.
         go_bind (must ''failed to unmarshal struct to map'' (cd_json cd conf1)) (\<lambda>m.
         go_bind (let m1 = bindEnvVars (parse_env environ Map.empty) [] m
                  in case preprocess of None \<Rightarrow> Ret m1 | Some f \<Rightarrow> f m1) (\<lambda>m2.
         decode m2 conf1)))))"

definition loadConfig ::
  "files \<Rightarrow> 'c codec \<Rightarrow> string list \<Rightarrow> 'c \<Rightarrow> ((string \<times> conf_val) list \<Rightarrow> (string \<times> conf_val) list go) option \<Rightarrow> 'c go option" where
  "loadConfig fs cd env conf preprocess =
     (case loadDotEnv fs env of
        None \<Rightarrow> None
      | Some (Panic p) \<Rightarrow> Some (Panic p)
      | Some (Ret environ) \<Rightarrow>
         map_option (\<lambda>y. go_bind y (\<lambda>yaml. decode_stages cd environ yaml conf preprocess)) (loadConfigYaml fs))"

definition LoadConfig :: "files \<Rightarrow> 'c codec \<Rightarrow> string list \<Rightarrow> string \<Rightarrow> 'c \<Rightarrow> secrets_manager option \<Rightarrow> 'c go option" where
  "LoadConfig fs cd env envType dst secretsMgr =
     (let sm = (case secretsMgr of None \<Rightarrow> PanicSecretsManager | Some s \<Rightarrow> s)
      in loadConfig fs cd env dst (Some (loadSecrets envType sm)))"

definition loadRootConfig :: "files \<Rightarrow> 'c codec \<Rightarrow> string list \<Rightarrow> 'c \<Rightarrow> 'c go option" where
  "loadRootConfig fs cd env zero = loadConfig fs cd env zero None"

text \<open>\<open>withRoot\<close> makes a configuration that has the given root and is otherwise empty.\<close>

definition NewConfig :: "files \<Rightarrow> 'c codec \<Rightarrow> string list \<Rightarrow> ('r \<Rightarrow> 'c) \<Rightarrow> ('r \<Rightarrow> string) \<Rightarrow> 'r \<Rightarrow> secrets_manager option \<Rightarrow> 'c go option" where
  "NewConfig fs cd env withRoot envType root secretsMgr = LoadConfig fs cd env (envType root) (withRoot root) secretsMgr"

text \<open>In a test the root configuration is loaded by each call, otherwise by the first one; a panic of the load is repeated.\<close>

definition GetRootConfig :: "bool \<Rightarrow> 'c go option \<Rightarrow> 'c go option option \<Rightarrow> 'c go option \<times> 'c go option option" where
  "GetRootConfig testing load once =
     (if testing then (load, once) else case once of Some c \<Rightarrow> (c, once) | None \<Rightarrow> (load, Some load))"

lemma root_config_is_loaded_once:
  "GetRootConfig False load1 None = (c, once) \<Longrightarrow> GetRootConfig False load2 once = (c, once)"
  by (auto simp: GetRootConfig_def)

text \<open>The settings of CORS that have a JSON form; \<open>list\<close> is the JSON text of a list of strings. The functions among the settings have none.\<close>

record cors_conf =
  co_AllowAllOrigins :: bool
  co_AllowOrigins :: "string list"
  co_AllowMethods :: "string list"
  co_AllowPrivateNetwork :: bool
  co_AllowHeaders :: "string list"
  co_AllowCredentials :: bool
  co_ExposeHeaders :: "string list"
  co_MaxAge :: int
  co_AllowWildcard :: bool
  co_AllowBrowserExtensions :: bool
  co_CustomSchemas :: "string list"
  co_AllowWebSockets :: bool
  co_AllowFiles :: bool
  co_OptionsResponseStatusCode :: int

definition json_bool :: "bool \<Rightarrow> conf_val" where "json_bool b = COther (if b then ''true'' else ''false'')"

definition CORS_MarshalJSON :: "(string list \<Rightarrow> string) \<Rightarrow> cors_conf \<Rightarrow> (string \<times> conf_val) list" where
  "CORS_MarshalJSON list c =
     [(''AllowAllOrigins'', json_bool (co_AllowAllOrigins c)), (''AllowOrigins'', COther (list (co_AllowOrigins c))),
      (''AllowMethods'', COther (list (co_AllowMethods c))), (''AllowPrivateNetwork'', json_bool (co_AllowPrivateNetwork c)),
      (''AllowHeaders'', COther (list (co_AllowHeaders c))), (''AllowCredentials'', json_bool (co_AllowCredentials c)),
      (''ExposeHeaders'', COther (list (co_ExposeHeaders c))), (''MaxAge'', COther (show_int (co_MaxAge c))),
      (''AllowWildcard'', json_bool (co_AllowWildcard c)), (''AllowBrowserExtensions'', json_bool (co_AllowBrowserExtensions c)),
      (''CustomSchemas'', COther (list (co_CustomSchemas c))), (''AllowWebSockets'', json_bool (co_AllowWebSockets c)),
      (''AllowFiles'', json_bool (co_AllowFiles c)), (''OptionsResponseStatusCode'', COther (show_int (co_OptionsResponseStatusCode c)))]"

text \<open>The environment can override each of them by its own variable.\<close>

lemma cors_settings_distinct: "distinct (map fst (CORS_MarshalJSON list c))"
  by (simp add: CORS_MarshalJSON_def)

section \<open>Secrets in AWS\<close>

text \<open>The client answers with a text and bytes, either of which may be missing.\<close>

type_synonym aws_client = "string \<Rightarrow> string + (string option \<times> string option)"

definition aws_GetSecretVerbatim :: "aws_client \<Rightarrow> string \<Rightarrow> string + string" where
  "aws_GetSecretVerbatim client i =
     (case client i of Inl e \<Rightarrow> Inl e | Inr (text, bytes) \<Rightarrow> Inr (case text of None \<Rightarrow> [] | Some s \<Rightarrow> s))"

definition aws_GetSecret :: "(string \<Rightarrow> string) \<Rightarrow> aws_client \<Rightarrow> string \<Rightarrow> string + string" where
  "aws_GetSecret transform client key = aws_GetSecretVerbatim client (transform key)"

definition aws_GetBinarySecretVerbatim :: "aws_client \<Rightarrow> string \<Rightarrow> string + string option" where
  "aws_GetBinarySecretVerbatim client i = (case client i of Inl e \<Rightarrow> Inl e | Inr (text, bytes) \<Rightarrow> Inr bytes)"

definition aws_GetBinarySecret :: "(string \<Rightarrow> string) \<Rightarrow> aws_client \<Rightarrow> string \<Rightarrow> string + string option" where
  "aws_GetBinarySecret transform client key = aws_GetBinarySecretVerbatim client (transform key)"

text \<open>The transformer of the application, or the default one.\<close>

definition NewAWSSecretsManager :: "secrets_conf \<Rightarrow> (string \<Rightarrow> string) option \<Rightarrow> aws_client \<Rightarrow> secrets_manager" where
  "NewAWSSecretsManager conf transformer client =
     (let t = (case transformer of None \<Rightarrow> Transform (NewDefaultKeyTransformer conf) | Some f \<Rightarrow> f)
      in \<lparr>GetSecret = (\<lambda>key. Ret (aws_GetSecret t client key)), GetSecretVerbatim = (\<lambda>i. Ret (aws_GetSecretVerbatim client i))\<rparr>)"

section \<open>The contract of a secrets manager\<close>

text \<open>What the interface of \<^verbatim>\<open>secrets/secrets.go\<close> promises: a key is transformed, an identifier is not.\<close>

locale key_transforming =
  fixes sm :: secrets_manager and transform :: "string \<Rightarrow> string"
  assumes transformed: "GetSecret sm key = GetSecretVerbatim sm (transform key)"
begin

lemma secret_by_identifier:
  assumes "transform key \<noteq> []" "secret_for sm key ''<secret>'' = Ret s"
  shows "secret_for sm key' (''<secret:'' @ transform key @ ''>'') = Ret s"
proof -
  let ?v = "''<secret:'' @ transform key @ ''>''"
  have l: "length ?v - 9 = length (transform key)" "?v \<noteq> ''<secret>''" "?v ! 7 = CHR '':''" "drop 8 ?v = transform key @ ''>''" by simp_all
  then have k: "take (length ?v - 9) (drop 8 ?v) = transform key" by simp
  have h: "HasPrefix ?v ''<secret''" "HasSuffix ?v ''>''" by (simp_all add: HasPrefix_def HasSuffix_def)
  have g: "got_secret key (GetSecretVerbatim sm (transform key)) = Ret s"
    using assms(2) by (simp add: secret_for_def transformed HasPrefix_def HasSuffix_def)
  then have "got_secret (transform key) (GetSecretVerbatim sm (transform key)) = Ret s"
    by (auto simp: got_secret_def split: go.splits sum.splits)
  then show ?thesis using h l(2,3) k assms(1) by (simp add: secret_for_def Let_def)
qed

end

interpretation aws: key_transforming "NewAWSSecretsManager conf transformer client"
    "case transformer of None \<Rightarrow> Transform (NewDefaultKeyTransformer conf) | Some f \<Rightarrow> f" for conf transformer client
  by unfold_locales (simp add: NewAWSSecretsManager_def aws_GetSecret_def Let_def)

text \<open>With the secrets manager of AWS, a value that asks for the secret of its key gets the secret that a value
  with the full identifier gets: with the default formats, the identifier made of the names of the
  application and the environment and the key.\<close>

lemma secret_identifier_of_key:
  assumes "CHR ''{'' \<notin> set (sc_Name conf @ sc_EnvType conf @ sc_EnvName conf)" "sc_PrefixFmt conf = []" "sc_KeyFmt conf = []"
    and "secret_for (NewAWSSecretsManager conf None client) key ''<secret>'' = Ret s"
  shows "secret_for (NewAWSSecretsManager conf None client) key'
     (''<secret:'' @ sc_Name conf @ ''/'' @ sc_EnvType conf @ ''/'' @ sc_EnvName conf @ ''/'' @ key @ ''>'') = Ret s"
  using aws.secret_by_identifier[of conf None key client s key'] default_secret_id[OF assms(1-3), of key] assms(4) by simp

lemma secret_identifier_of_key_witness:
  "secret_for (NewAWSSecretsManager \<lparr>sc_Name = ''app'', sc_EnvName = ''blue'', sc_EnvType = ''prod'', sc_PrefixFmt = [], sc_KeyFmt = []\<rparr> None
       (\<lambda>i. Inr (Some (''value of '' @ i), None))) ''x'' ''<secret:app/prod/blue/Token>'' = Ret (Some ''value of app/prod/blue/Token'')"
proof -
  let ?conf = "\<lparr>sc_Name = ''app'', sc_EnvName = ''blue'', sc_EnvType = ''prod'', sc_PrefixFmt = [], sc_KeyFmt = []\<rparr>"
  let ?sm = "NewAWSSecretsManager ?conf None (\<lambda>i. Inr (Some (''value of '' @ i), None))"
  have "Transform (NewDefaultKeyTransformer ?conf) ''Token'' = ''app/prod/blue/Token''"
    using default_secret_id[of ?conf "''Token''"] by simp
  then have "secret_for ?sm ''Token'' ''<secret>'' = Ret (Some ''value of app/prod/blue/Token'')"
    by (simp add: secret_for_def got_secret_def NewAWSSecretsManager_def aws_GetSecret_def aws_GetSecretVerbatim_def HasPrefix_def HasSuffix_def)
  from secret_identifier_of_key[OF _ _ _ this] show ?thesis by simp
qed

section \<open>What a load gives\<close>

text \<open>The value that the last step decodes for a top-level entry: the environment first, and then its secret.\<close>

definition final_value :: "secrets_manager \<Rightarrow> (string \<rightharpoonup> string) \<Rightarrow> string \<Rightarrow> string \<Rightarrow> string" where
  "final_value sm env key v =
     (let t = (case env (ToLower key) of Some e \<Rightarrow> e | None \<Rightarrow> v)
      in case secret_for sm key t of Ret (Some s) \<Rightarrow> s | _ \<Rightarrow> t)"

lemma bindEnvVars_keys: "map fst (bindEnvVars env acc m) = map fst m"
  by (induction env acc m rule: bindEnvVars.induct) auto

lemma must_Ret: "must text r = Ret x \<longleftrightarrow> r = Inr x"
  by (cases r) auto

lemma go_bind_Ret: "go_bind r f = Ret y \<longleftrightarrow> (\<exists>x. r = Ret x \<and> f x = Ret y)"
  by (cases r) auto

lemma decode_stages_Ret:
  assumes "decode_stages cd environ yaml conf (Some f) = Ret c"
  obtains conf1 m m2 where "cd_json cd conf1 = Inr m" "f (bindEnvVars (parse_env environ Map.empty) [] m) = Ret m2" "cd_Decode cd m2 conf1 = Inr c"
  using assms by (auto simp: decode_stages_def Let_def go_bind_Ret must_Ret)


text \<open>A configuration that is a map itself, read from a file in the working directory.\<close>

definition sample_codec :: "(string \<times> conf_val) list codec" where
  "sample_codec = \<lparr>cd_type = ''Config'', cd_yaml = (\<lambda>y. Inr [(''Name'', CString y), (''Token'', CString ''<secret>'')]),
     cd_Decode = (\<lambda>m c. Inr m), cd_json = (\<lambda>c. if distinct (map fst c) then Inr c else Inl ''duplicate key'')\<rparr>"

definition sample_files :: files where
  "sample_files = \<lparr>fs_testing = False, fs_stat = (\<lambda>p. if p = [''app'', ''config.yaml''] then Exists else NotExist), fs_cwd = [''app''],
     fs_ReadFile = (\<lambda>p. Inr ''app''), fs_godotenv = (\<lambda>p env. Inr env)\<rparr>"

definition sample_manager :: secrets_manager where
  "sample_manager = \<lparr>GetSecret = (\<lambda>k. Ret (Inr (''s-'' @ k))), GetSecretVerbatim = (\<lambda>k. Ret (Inr k))\<rparr>"


end
