(* ===== verification/Context.thy ===== *)
theory Context
  imports Prelude
begin

text \<open>
  Package \<^verbatim>\<open>context\<close> (\<^verbatim>\<open>context/context.go\<close>): the context without deadline and cancellation, and the setting of values.
  Contexts are trees of the constructors of Go's package \<^verbatim>\<open>context\<close>, with cancellation as it documents it: a context
  made by \<^verbatim>\<open>WithCancelCause\<close> has a number, and the state holds the cause of every number that was cancelled. A context
  that can be set, such as that of a request in Gin, has a map of its own and falls back to the context below
  it.
\<close>

section \<open>Contexts\<close>

datatype 'v ctx =
    Background
  | ValueCtx "'v ctx" string 'v
  | CancelCtx "'v ctx" nat "int option"
  | SetCtx "'v ctx" nat
  | NoDeadline "'v ctx"

record 'v cstate =
  cs_ctxs :: "'v ctx list"
  cs_cause :: "nat \<rightharpoonup> string"
  cs_keys :: "nat \<Rightarrow> string \<rightharpoonup> 'v"

text \<open>\<^verbatim>\<open>Deadline\<close>, \<^verbatim>\<open>Done\<close> (no channel, or whether it is closed) and \<^verbatim>\<open>Err\<close>; the error of a cancelled context is not told apart
  from that of a passed deadline.\<close>

fun Deadline :: "'v ctx \<Rightarrow> int option" where
  "Deadline Background = None"
| "Deadline (ValueCtx c k v) = Deadline c"
| "Deadline (CancelCtx c i d) = (case d of None \<Rightarrow> Deadline c | Some t \<Rightarrow> Some t)"
| "Deadline (SetCtx c g) = Deadline c"
| "Deadline (NoDeadline c) = None"

fun Done :: "'v cstate \<Rightarrow> 'v ctx \<Rightarrow> bool option" where
  "Done st Background = None"
| "Done st (ValueCtx c k v) = Done st c"
| "Done st (CancelCtx c i d) = Some (cs_cause st i \<noteq> None)"
| "Done st (SetCtx c g) = Done st c"
| "Done st (NoDeadline c) = None"

definition Err :: "'v cstate \<Rightarrow> 'v ctx \<Rightarrow> bool" where
  "Err st c \<longleftrightarrow> Done st c = Some True"

fun Value :: "'v cstate \<Rightarrow> 'v ctx \<Rightarrow> string \<Rightarrow> 'v option" where
  "Value st Background k = None"
| "Value st (ValueCtx c k' v) k = (if k' = k then Some v else Value st c k)"
| "Value st (CancelCtx c i d) k = Value st c k"
| "Value st (SetCtx c g) k = (case cs_keys st g k of Some v \<Rightarrow> Some v | None \<Rightarrow> Value st c k)"
| "Value st (NoDeadline c) k = Value st c k"

text \<open>The nearest cancellable context: what \<^verbatim>\<open>Value\<close> gives for the key of package \<^verbatim>\<open>context\<close> itself, when it is not called
  from \<^verbatim>\<open>context.Cause\<close>.\<close>

fun cancel_value :: "'v ctx \<Rightarrow> nat option" where
  "cancel_value Background = None"
| "cancel_value (ValueCtx c k v) = cancel_value c"
| "cancel_value (CancelCtx c i d) = Some i"
| "cancel_value (SetCtx c g) = cancel_value c"
| "cancel_value (NoDeadline c) = cancel_value c"

text \<open>\<^verbatim>\<open>context.Cause\<close> asks the context itself for that value, and only then the \<open>Value\<close> of the context without deadline
  hides it.\<close>

definition Cause :: "'v cstate \<Rightarrow> 'v ctx \<Rightarrow> string option" where
  "Cause st c =
     (case (case c of NoDeadline p \<Rightarrow> None | _ \<Rightarrow> cancel_value c) of
        Some i \<Rightarrow> cs_cause st i
      | None \<Rightarrow> if Err st c then Some ''context canceled'' else None)"

definition NoDeadlineAndNotCancellableContext :: "'v ctx \<Rightarrow> 'v ctx" where
  "NoDeadlineAndNotCancellableContext parent = NoDeadline parent"

definition CtxSetValue :: "'v ctx \<Rightarrow> string \<Rightarrow> 'v \<Rightarrow> 'v cstate \<Rightarrow> 'v ctx \<times> 'v cstate" where
  "CtxSetValue c key value st =
     (case c of
        SetCtx p g \<Rightarrow> (c, st\<lparr>cs_keys := (cs_keys st)(g := (cs_keys st g)(key \<mapsto> value))\<rparr>)
      | _ \<Rightarrow> (ValueCtx c key value, st))"

section \<open>Cancellation\<close>

text \<open>Whether the end of context \<open>i\<close> ends a child of \<open>c\<close>: \<open>c\<close> passes on the channel of \<open>i\<close>, directly or through contexts
  that end with it.\<close>

fun linked :: "nat \<Rightarrow> 'v ctx \<Rightarrow> bool" where
  "linked i Background = False"
| "linked i (ValueCtx c k v) = linked i c"
| "linked i (CancelCtx c j d) = (i = j \<or> linked i c)"
| "linked i (SetCtx c g) = linked i c"
| "linked i (NoDeadline c) = False"

definition WithCancelCause :: "'v ctx \<Rightarrow> int option \<Rightarrow> 'v cstate \<Rightarrow> 'v ctx \<times> 'v cstate" where
  "WithCancelCause parent d st =
     (let i = length (cs_ctxs st); c = CancelCtx parent i d
      in (c, st\<lparr>cs_ctxs := cs_ctxs st @ [c],
                cs_cause := if Done st parent = Some True then (cs_cause st)(i := Cause st parent) else cs_cause st\<rparr>))"

text \<open>Cancelling \<open>i\<close> cancels it and everything linked to it, unless it is cancelled already.\<close>

definition cancel :: "nat \<Rightarrow> string \<Rightarrow> 'v cstate \<Rightarrow> 'v cstate" where
  "cancel i cause st =
     (if cs_cause st i \<noteq> None then st
      else st\<lparr>cs_cause := \<lambda>j. case cs_cause st j of
                Some x \<Rightarrow> Some x
              | None \<Rightarrow> if j < length (cs_ctxs st) \<and> linked i (cs_ctxs st ! j) then Some cause else None\<rparr>)"

section \<open>Properties\<close>

text \<open>A value that was set is found, and the other values stay as they were.\<close>

lemma Value_CtxSetValue:
  assumes "CtxSetValue c key v st = (c', st')"
  shows "Value st' c' k = (if k = key then Some v else Value st c k)"
proof -
  have other: "Value (st\<lparr>cs_keys := (cs_keys st)(g := (cs_keys st g)(key \<mapsto> v))\<rparr>) p k = Value st p k" if "k \<noteq> key" for p g
    using that by (induction p) (auto split: option.splits)
  show ?thesis using assms other by (cases c) (auto simp: CtxSetValue_def)
qed

lemma cancel_keeps [simp]:
  "cs_ctxs (cancel i cause st) = cs_ctxs st" "cs_keys (cancel i cause st) = cs_keys st"
  by (simp_all add: cancel_def)

lemma Value_cancel [simp]: "Value (cancel i cause st) c k = Value st c k"
  by (induction c) (auto split: option.splits)

lemma Value_extend [simp]: "Value (st\<lparr>cs_ctxs := cs\<rparr>) c k = Value st c k"
  by (induction c) (auto split: option.splits)

text \<open>The cancellation of contexts other than \<open>n\<close> does not reach \<open>n\<close> when it is not linked to them.\<close>

lemma cancels_spare:
  assumes "n < length (cs_ctxs st)" "cs_cause st n = None" "\<And>i cause. (i, cause) \<in> set cancels \<Longrightarrow> \<not> linked i (cs_ctxs st ! n)"
  shows "cs_cause (fold (\<lambda>(i, cause). cancel i cause) cancels st) n = None \<and>
     Value (fold (\<lambda>(i, cause). cancel i cause) cancels st) c k = Value st c k"
  using assms
proof (induction cancels arbitrary: st)
  case (Cons x xs)
  obtain i cause where x: "x = (i, cause)" by (cases x)
  have "cs_cause (cancel i cause st) n = None" using Cons.prems(2) Cons.prems(3)[of i cause] x by (auto simp: cancel_def)
  then show ?case using Cons.IH[of "cancel i cause st"] Cons.prems x by auto
qed simp

text \<open>A context without deadline and cancellation keeps the values of its parent and is never done, has no
  deadline, no error and no cause, whatever is cancelled; a cancellable context made from it ends only
  by its own cancellation. A context with a value made from it is not done either, but its cause is
  that of the cancelled parent.\<close>

lemma detached_context:
  assumes "WithCancelCause (NoDeadlineAndNotCancellableContext p) None st = (c, st1)" "cs_cause st (length (cs_ctxs st)) = None"
    and "length (cs_ctxs st) \<notin> fst ` set cancels"
  shows "let st2 = fold (\<lambda>(i, cause). cancel i cause) cancels st1; n = NoDeadlineAndNotCancellableContext p;
             v = fst (CtxSetValue n key val st2)
     in Done st2 n = None \<and> Deadline n = None \<and> \<not> Err st2 n \<and> Cause st2 n = None \<and> Value st2 n k = Value st p k \<and>
        Done st2 c = Some False \<and> Value st2 c k = Value st p k \<and>
        \<not> Err st2 v \<and> Cause st2 v = (case cancel_value p of None \<Rightarrow> None | Some i \<Rightarrow> cs_cause st2 i)"
proof -
  let ?n = "length (cs_ctxs st)" and ?st2 = "fold (\<lambda>(i, cause). cancel i cause) cancels st1"
  have c: "c = CancelCtx (NoDeadline p) ?n None" and s: "cs_ctxs st1 = cs_ctxs st @ [c]" "cs_cause st1 ?n = None"
      and v: "Value st1 c' k = Value st c' k" for c'
    using assms(1,2) by (auto simp: WithCancelCause_def NoDeadlineAndNotCancellableContext_def Let_def)
  have l: "\<not> linked i (cs_ctxs st1 ! ?n)" if "(i, cause) \<in> set cancels" for i cause
    using assms(3) that c s(1) by force
  have "cs_cause ?st2 ?n = None" "Value ?st2 c' k = Value st c' k" for c'
    using cancels_spare[of ?n st1 cancels _ k] l s v by auto
  then show ?thesis using c by (auto simp: NoDeadlineAndNotCancellableContext_def CtxSetValue_def Err_def Cause_def Let_def split: option.splits)
qed

definition sample_state :: "nat cstate" where
  "sample_state = \<lparr>cs_ctxs = [CancelCtx Background 0 None], cs_cause = Map.empty, cs_keys = (\<lambda>_. Map.empty)\<rparr>"

lemma detached_context_witness:
  "let p = ValueCtx (CancelCtx Background 0 None) ''k'' 7; (c, st1) = WithCancelCause (NoDeadlineAndNotCancellableContext p) None sample_state;
       st2 = cancel 0 ''stopped'' st1
   in Done st2 p = Some True \<and> Done st2 c = Some False \<and> Value st2 c ''k'' = Some 7"
proof -
  let ?p = "ValueCtx (CancelCtx Background 0 None) ''k'' (7 :: nat)"
  let ?r = "WithCancelCause (NoDeadlineAndNotCancellableContext ?p) None sample_state"
  have r: "?r = (fst ?r, snd ?r)" by simp
  have "cs_cause sample_state (length (cs_ctxs sample_state)) = None" "length (cs_ctxs sample_state) \<notin> fst ` set [(0, ''stopped'')]"
    by (simp_all add: sample_state_def)
  from detached_context[OF r this, of "''x''" 0 "''k''"]
  have "Done (cancel 0 ''stopped'' (snd ?r)) (fst ?r) = Some False \<and> Value (cancel 0 ''stopped'' (snd ?r)) (fst ?r) ''k'' = Some 7"
    by (simp add: Let_def)
  moreover have "Done (cancel 0 ''stopped'' (snd ?r)) ?p = Some True"
    by (simp add: cancel_def WithCancelCause_def sample_state_def NoDeadlineAndNotCancellableContext_def Let_def)
  ultimately show ?thesis by (simp add: case_prod_beta Let_def)
qed

end
