(* ===== verification/Database.thy ===== *)
theory Database
  imports Prelude
begin

text \<open>
  Transactions of \<^verbatim>\<open>database/database.go\<close> and the middleware \<^verbatim>\<open>rest/middleware/db_trx.go\<close> that ends those left
  open by a request. The transaction objects live in a list and are named by their position; the
  context holds the position of the current one. The database is its committed contents and the
  session of the transaction that is open on the connection, with its savepoints, as PostgreSQL
  documents them; \<open>ok\<close> says which statements the server executes. A statement of the application is a
  function on the contents that succeeds.
\<close>

section \<open>The server\<close>

datatype db_op = OpBegin | OpSavepoint | OpRelease | OpRollbackTo | OpCommit | OpRollback

record 'd session =
  se_root :: nat
  se_data :: 'd
  se_saves :: "(nat \<times> 'd) list"

record tx =
  tx_closed :: bool
  tx_automatic :: bool
  tx_root :: nat
  tx_parent :: "nat option"
  tx_savePoint :: nat

record 'd dbst =
  st_db :: 'd
  st_sess :: "'d session option"
  st_txs :: "tx list"
  st_ctx :: "nat option"
  st_next :: nat
  st_hasDB :: bool

text \<open>A statement goes to the session that was begun for the transaction object with number \<open>r\<close>; when that
  session is over it fails. The result is an error, if any, and the new state.\<close>

definition on_session ::
  "bool \<Rightarrow> nat \<Rightarrow> ('d session \<Rightarrow> 'd session option) \<Rightarrow> 'd dbst \<Rightarrow> string option \<times> 'd dbst" where
  "on_session okay r f st =
     (case st_sess st of
        None \<Rightarrow> (Some ''transaction has already been committed or rolled back'', st)
      | Some s \<Rightarrow>
         if se_root s \<noteq> r then (Some ''transaction has already been committed or rolled back'', st)
         else if \<not> okay then (Some ''server error'', st)
         else case f s of None \<Rightarrow> (Some ''savepoint does not exist'', st) | Some s' \<Rightarrow> (None, st\<lparr>st_sess := Some s'\<rparr>))"

definition sql_savepoint :: "nat \<Rightarrow> 'd session \<Rightarrow> 'd session option" where
  "sql_savepoint n s = Some (s\<lparr>se_saves := (n, se_data s) # se_saves s\<rparr>)"

text \<open>Releasing a savepoint also releases the later ones; rolling back to one keeps it.\<close>

definition sql_release :: "nat \<Rightarrow> 'd session \<Rightarrow> 'd session option" where
  "sql_release n s =
     (case dropWhile (\<lambda>e. fst e \<noteq> n) (se_saves s) of [] \<Rightarrow> None | e # es \<Rightarrow> Some (s\<lparr>se_saves := es\<rparr>))"

definition sql_rollback_to :: "nat \<Rightarrow> 'd session \<Rightarrow> 'd session option" where
  "sql_rollback_to n s =
     (case dropWhile (\<lambda>e. fst e \<noteq> n) (se_saves s) of [] \<Rightarrow> None | e # es \<Rightarrow> Some (s\<lparr>se_data := snd e, se_saves := e # es\<rparr>))"

text \<open>The end of a session; a commit that fails leaves the contents as they were.\<close>

definition sql_end :: "bool \<Rightarrow> bool \<Rightarrow> nat \<Rightarrow> 'd dbst \<Rightarrow> string option \<times> 'd dbst" where
  "sql_end okay commit r st =
     (case st_sess st of
        None \<Rightarrow> (Some ''invalid transaction'', st)
      | Some s \<Rightarrow>
         if se_root s \<noteq> r then (Some ''invalid transaction'', st)
         else (if okay then None else Some ''server error'',
               st\<lparr>st_db := if okay \<and> commit then se_data s else st_db st, st_sess := None\<rparr>))"

section \<open>Transaction objects\<close>

definition CreateDBName :: "string \<Rightarrow> string \<Rightarrow> string" where
  "CreateDBName name envName = ReplaceAll (ToLower (name @ ''_'' @ envName)) ''-'' ''_''"

definition IsAutomatic :: "tx \<Rightarrow> bool" where "IsAutomatic t = tx_automatic t"
definition IsClosed :: "tx \<Rightarrow> bool" where "IsClosed t = tx_closed t"
definition IsSub :: "tx \<Rightarrow> bool" where "IsSub t = (tx_parent t \<noteq> None)"

definition close_tx :: "nat \<Rightarrow> 'd dbst \<Rightarrow> 'd dbst" where
  "close_tx j st = st\<lparr>st_txs := (st_txs st)[j := (st_txs st ! j)\<lparr>tx_closed := True\<rparr>]\<rparr>"

text \<open>The handle of a closed transaction has no statement: using it again is a nil pointer.\<close>

definition Commit :: "(db_op \<Rightarrow> bool) \<Rightarrow> nat \<Rightarrow> 'd dbst \<Rightarrow> (string option \<times> 'd dbst) go" where
  "Commit ok j st =
     (let t = st_txs st ! j
      in if tx_closed t then Panic ''nil pointer''
         else case (case tx_parent t of
                      Some p \<Rightarrow> on_session (ok OpRelease) (tx_root t) (sql_release (tx_savePoint t)) st
                    | None \<Rightarrow> if tx_automatic t then (Some ''invalid transaction'', st) else sql_end (ok OpCommit) True (tx_root t) st) of
                (e, st') \<Rightarrow> Ret (e, close_tx j st'))"

definition Rollback :: "(db_op \<Rightarrow> bool) \<Rightarrow> nat \<Rightarrow> 'd dbst \<Rightarrow> (string option \<times> 'd dbst) go" where
  "Rollback ok j st =
     (let t = st_txs st ! j
      in if tx_closed t then Panic ''nil pointer''
         else case tx_parent t of
                Some p \<Rightarrow>
                  if tx_closed (st_txs st ! p) then Panic ''nil pointer''
                  else (case on_session (ok OpRollbackTo) (tx_root t) (sql_rollback_to (tx_savePoint t)) st of
                          (e, st') \<Rightarrow> Ret (e, close_tx j st'))
              | None \<Rightarrow>
                  (case (if tx_automatic t then (Some ''invalid transaction'', st) else sql_end (ok OpRollback) False (tx_root t) st) of
                     (e, st') \<Rightarrow> Ret (e, close_tx j st')))"

text \<open>With a panic under way the process is ended; an error of the rollback is only logged.\<close>

definition DeferredCommitOrRollback ::
  "(db_op \<Rightarrow> bool) \<Rightarrow> bool \<Rightarrow> nat \<Rightarrow> string option \<Rightarrow> 'd dbst \<Rightarrow> (string option \<times> 'd dbst) go" where
  "DeferredCommitOrRollback ok panicking j err st =
     (if panicking then Panic ''exit status 1''
      else case err of
             Some e \<Rightarrow> go_bind (Rollback ok j st) (\<lambda>(re, st'). Ret (Some e, st'))
           | None \<Rightarrow> go_bind (Commit ok j st) (\<lambda>(ce, st'). Ret (map_option ((@) ''failed to commit trx: '') ce, st')))"

definition GetDBTxFromCtx :: "'d dbst \<Rightarrow> nat option" where
  "GetDBTxFromCtx st = st_ctx st"

text \<open>The open transaction of the context.\<close>

definition open_tx :: "'d dbst \<Rightarrow> nat option" where
  "open_tx st = (case GetDBTxFromCtx st of Some i \<Rightarrow> if tx_closed (st_txs st ! i) then None else Some i | None \<Rightarrow> None)"

definition InTx :: "'d dbst \<Rightarrow> (nat \<times> 'd dbst) go" where
  "InTx st =
     (case open_tx st of
        Some i \<Rightarrow> Ret (i, st)
      | None \<Rightarrow>
         if \<not> st_hasDB st then Panic ''no db in context!''
         else Ret (length (st_txs st), st\<lparr>st_txs := st_txs st @
           [\<lparr>tx_closed = False, tx_automatic = True, tx_root = length (st_txs st), tx_parent = None, tx_savePoint = 0\<rparr>]\<rparr>))"

text \<open>The name of a savepoint is made of the time and a random number; names are taken to be different.\<close>

definition WithTx :: "(db_op \<Rightarrow> bool) \<Rightarrow> 'd dbst \<Rightarrow> (nat \<times> 'd dbst) go" where
  "WithTx ok st =
     (case open_tx st of
        Some i \<Rightarrow>
          (case on_session (ok OpSavepoint) (tx_root (st_txs st ! i)) (sql_savepoint (st_next st)) (st\<lparr>st_next := Suc (st_next st)\<rparr>) of
             (Some e, st') \<Rightarrow> Panic (''failed to create a save point in the db transaction: '' @ e)
           | (None, st') \<Rightarrow>
               Ret (length (st_txs st'), st'\<lparr>st_txs := st_txs st' @
                 [\<lparr>tx_closed = False, tx_automatic = False, tx_root = tx_root (st_txs st ! i), tx_parent = Some i, tx_savePoint = st_next st\<rparr>]\<rparr>))
      | None \<Rightarrow>
         if \<not> st_hasDB st then Panic ''no db in context!''
         else let r = length (st_txs st)
              in Ret (r, st\<lparr>st_txs := st_txs st @
                   [\<lparr>tx_closed = False, tx_automatic = False, tx_root = r, tx_parent = None, tx_savePoint = 0\<rparr>],
                   st_sess := if ok OpBegin then Some \<lparr>se_root = r, se_data = st_db st, se_saves = []\<rparr> else None,
                   st_ctx := Some r\<rparr>))"

section \<open>The middleware\<close>

definition rollback_dangling :: "(db_op \<Rightarrow> bool) \<Rightarrow> 'd dbst \<Rightarrow> 'd dbst go" where
  "rollback_dangling ok st =
     (case GetDBTxFromCtx st of
        None \<Rightarrow> Ret st
      | Some i \<Rightarrow>
         if \<not> IsAutomatic (st_txs st ! i) \<and> \<not> IsClosed (st_txs st ! i)
         then go_bind (Rollback ok i st) (\<lambda>(e, st'). Ret st') else Ret st)"

text \<open>The handler of the request changes the state and may panic; the panic goes on after the rollback.\<close>

definition DatabaseTrx_Run ::
  "(db_op \<Rightarrow> bool) \<Rightarrow> ('d dbst \<Rightarrow> string option \<times> 'd dbst) \<Rightarrow> 'd dbst \<Rightarrow> string option \<times> 'd dbst go" where
  "DatabaseTrx_Run ok nxt st = (case nxt (st\<lparr>st_hasDB := True\<rparr>) of (p, st') \<Rightarrow> (p, rollback_dangling ok st'))"

section \<open>Nested transactions\<close>

text \<open>A program of the application: statements, and blocks that open a transaction, run and end it with
  their error, if any. Its meaning is that of nested transactions: a block that fails changes nothing.\<close>

datatype 'd block = Write "'d \<Rightarrow> 'd" | Block "string option" "'d block list"

fun meaning :: "'d block \<Rightarrow> 'd \<Rightarrow> 'd" where
  "meaning (Write f) d = f d"
| "meaning (Block err bs) d = (if err = None then fold meaning bs d else d)"

definition exec_write :: "('d \<Rightarrow> 'd) \<Rightarrow> 'd dbst \<Rightarrow> 'd dbst go" where
  "exec_write f st = go_bind (InTx st) (\<lambda>(i, st').
     if tx_automatic (st_txs st' ! i) then Ret (st'\<lparr>st_db := f (st_db st')\<rparr>)
     else Ret (snd (on_session True (tx_root (st_txs st' ! i)) (\<lambda>s. Some (s\<lparr>se_data := f (se_data s)\<rparr>)) st')))"

fun run :: "(db_op \<Rightarrow> bool) \<Rightarrow> 'd block \<Rightarrow> 'd dbst \<Rightarrow> 'd dbst go"
  and run_all :: "(db_op \<Rightarrow> bool) \<Rightarrow> 'd block list \<Rightarrow> 'd dbst \<Rightarrow> 'd dbst go" where
  "run ok (Write f) st = exec_write f st"
| "run ok (Block err bs) st =
     go_bind (WithTx ok st) (\<lambda>(j, st1).
       go_bind (run_all ok bs st1) (\<lambda>st2.
         go_bind (DeferredCommitOrRollback ok False j err st2) (\<lambda>(e, st3). Ret st3)))"
| "run_all ok [] st = Ret st"
| "run_all ok (b # bs) st = go_bind (run ok b st) (run_all ok bs)"

text \<open>The context holds the open transaction \<open>r\<close> with the session \<open>s\<close>.\<close>

definition inside :: "nat \<Rightarrow> 'd dbst \<Rightarrow> 'd session \<Rightarrow> bool" where
  "inside r st s \<longleftrightarrow> st_ctx st = Some r \<and> r < length (st_txs st) \<and> st_sess st = Some s \<and> se_root s = r \<and>
     (\<exists>sp. st_txs st ! r = \<lparr>tx_closed = False, tx_automatic = False, tx_root = r, tx_parent = None, tx_savePoint = sp\<rparr>) \<and>
     (\<forall>e \<in> set (se_saves s). fst e < st_next st)"

text \<open>What a statement or block inside a transaction leaves behind: closed objects, and savepoints that it
  made.\<close>

definition advanced :: "'d dbst \<Rightarrow> 'd session \<Rightarrow> 'd dbst \<Rightarrow> 'd session \<Rightarrow> bool" where
  "advanced st s st' s' \<longleftrightarrow> inside (se_root s) st' s' \<and> st_db st' = st_db st \<and> st_hasDB st' = st_hasDB st \<and> st_next st \<le> st_next st' \<and>
     (\<exists>ex. se_saves s' = ex @ se_saves s \<and> (\<forall>e \<in> set ex. st_next st \<le> fst e)) \<and>
     (\<exists>new. st_txs st' = st_txs st @ new \<and> (\<forall>t \<in> set new. tx_closed t))"

lemma advanced_refl: "inside r st s \<Longrightarrow> advanced st s st s"
  by (auto simp: advanced_def inside_def)

lemma inside_root: "inside r st s \<Longrightarrow> se_root s = r"
  by (simp add: inside_def)

lemma advanced_trans: "advanced st s st1 s1 \<Longrightarrow> advanced st1 s1 st2 s2 \<Longrightarrow> advanced st s st2 s2"
proof -
  assume a: "advanced st s st1 s1" and b: "advanced st1 s1 st2 s2"
  have r: "se_root s1 = se_root s" using a by (simp add: advanced_def inside_def)
  obtain ex ex' where e: "se_saves s1 = ex @ se_saves s" "\<forall>x \<in> set ex. st_next st \<le> fst x"
      "se_saves s2 = ex' @ se_saves s1" "\<forall>x \<in> set ex'. st_next st1 \<le> fst x"
    using a b by (auto simp: advanced_def)
  obtain n n' where n: "st_txs st1 = st_txs st @ n" "\<forall>t \<in> set n. tx_closed t" "st_txs st2 = st_txs st1 @ n'" "\<forall>t \<in> set n'. tx_closed t"
    using a b by (auto simp: advanced_def)
  have l: "st_next st \<le> st_next st1" "st_next st1 \<le> st_next st2" using a b by (simp_all add: advanced_def)
  have "se_saves s2 = (ex' @ ex) @ se_saves s \<and> (\<forall>x \<in> set (ex' @ ex). st_next st \<le> fst x)" using e l by fastforce
  moreover have "st_txs st2 = st_txs st @ (n @ n') \<and> (\<forall>t \<in> set (n @ n'). tx_closed t)" using n by auto
  ultimately show ?thesis using a b r l unfolding advanced_def by (metis order_trans)
qed

lemma open_inside: "inside r st s \<Longrightarrow> open_tx st = Some r"
  by (auto simp: inside_def open_tx_def GetDBTxFromCtx_def)

lemma write_inside:
  assumes "inside r st s"
  shows "\<exists>st' s'. exec_write f st = Ret st' \<and> advanced st s st' s' \<and> se_data s' = f (se_data s)"
proof -
  let ?s = "s\<lparr>se_data := f (se_data s)\<rparr>"
  have "exec_write f st = Ret (st\<lparr>st_sess := Some ?s\<rparr>)"
    using assms open_inside[OF assms] by (auto simp: exec_write_def InTx_def on_session_def inside_def)
  moreover have "advanced st s (st\<lparr>st_sess := Some ?s\<rparr>) ?s" using assms by (auto simp: advanced_def inside_def)
  ultimately show ?thesis by (intro exI conjI) auto
qed

text \<open>Opening a transaction inside another one makes a savepoint.\<close>

definition sub_tx :: "nat \<Rightarrow> nat \<Rightarrow> tx" where
  "sub_tx r n = \<lparr>tx_closed = False, tx_automatic = False, tx_root = r, tx_parent = Some r, tx_savePoint = n\<rparr>"

lemma WithTx_inside:
  assumes "inside r st s" "ok OpSavepoint"
  shows "\<exists>st1. WithTx ok st = Ret (length (st_txs st), st1) \<and> inside r st1 (s\<lparr>se_saves := (st_next st, se_data s) # se_saves s\<rparr>) \<and>
     st_txs st1 = st_txs st @ [sub_tx r (st_next st)] \<and> st_next st1 = Suc (st_next st) \<and> st_db st1 = st_db st \<and> st_hasDB st1 = st_hasDB st"
  using assms open_inside[OF assms(1)]
  by (auto simp: WithTx_def on_session_def sql_savepoint_def inside_def nth_append sub_tx_def less_Suc_eq)

lemma dropWhile_fresh: "\<forall>e \<in> set ex. (n :: nat) < fst e \<Longrightarrow> dropWhile (\<lambda>e. fst e \<noteq> n) (ex @ (n, d) # es) = (n, d) # es"
  by (induction ex) auto

lemma end_inside:
  assumes "inside r st s" "advanced st1 s1 st2 s2" "\<forall>op. ok op"
    and "s1 = s\<lparr>se_saves := (st_next st, se_data s) # se_saves s\<rparr>" "st_txs st1 = st_txs st @ [sub_tx r (st_next st)]"
    and "st_next st1 = Suc (st_next st)" "st_db st1 = st_db st" "st_hasDB st1 = st_hasDB st"
  shows "\<exists>e st3 s3. DeferredCommitOrRollback ok False (length (st_txs st)) err st2 = Ret (e, st3) \<and> advanced st s st3 s3 \<and>
     se_data s3 = (if err = None then se_data s2 else se_data s)"
proof -
  let ?j = "length (st_txs st)" and ?n = "st_next st"
  have r: "se_root s = r" "se_root s1 = r" using assms(1,4) by (simp_all add: inside_def)
  obtain ex where ex: "se_saves s2 = ex @ (?n, se_data s) # se_saves s" "\<forall>e \<in> set ex. ?n < fst e"
    using assms(2,4,6) by (fastforce simp: advanced_def)
  obtain new where new: "st_txs st2 = st_txs st @ sub_tx r ?n # new" "\<forall>t \<in> set new. tx_closed t"
    using assms(2,5) by (auto simp: advanced_def)
  have i2: "inside r st2 s2" "st_db st2 = st_db st" "st_hasDB st2 = st_hasDB st" "?n < st_next st2"
    using assms(2,6-8) r by (auto simp: advanced_def)
  have j: "st_txs st2 ! ?j = sub_tx r ?n" "?j \<noteq> r" "\<not> tx_closed (st_txs st2 ! r)" "st_sess st2 = Some s2" "se_root s2 = r"
    using new(1) i2(1) assms(1) by (auto simp: inside_def)
  have fin: "advanced st s (close_tx ?j (st2\<lparr>st_sess := Some s3\<rparr>)) s3"
    if "se_root s3 = r" "se_saves s3 = se_saves s \<or> se_saves s3 = (?n, se_data s) # se_saves s" for s3
  proof -
    have t: "st_txs (close_tx ?j (st2\<lparr>st_sess := Some s3\<rparr>)) = st_txs st @ ((sub_tx r ?n)\<lparr>tx_closed := True\<rparr> # new)"
      using new(1) j(1) by (simp add: close_tx_def)
    have "inside r (close_tx ?j (st2\<lparr>st_sess := Some s3\<rparr>)) s3"
      using i2 j(2) that assms(1) unfolding inside_def by (auto simp: close_tx_def less_imp_le_nat intro: less_trans)
    moreover have "\<exists>ex. se_saves s3 = ex @ se_saves s \<and> (\<forall>e \<in> set ex. ?n \<le> fst e)"
      using that(2) by (elim disjE) (auto intro: exI[of _ "[(?n, se_data s)]"])
    moreover have "st_db (close_tx ?j (st2\<lparr>st_sess := Some s3\<rparr>)) = st_db st" "st_hasDB (close_tx ?j (st2\<lparr>st_sess := Some s3\<rparr>)) = st_hasDB st"
      "?n \<le> st_next (close_tx ?j (st2\<lparr>st_sess := Some s3\<rparr>))"
      using i2 by (simp_all add: close_tx_def)
    ultimately show ?thesis using t new(2) r(1) unfolding advanced_def by auto
  qed
  show ?thesis
  proof (cases err)
    case None
    have "on_session (ok OpRelease) r (sql_release ?n) st2 = (None, st2\<lparr>st_sess := Some (s2\<lparr>se_saves := se_saves s\<rparr>)\<rparr>)"
      using j assms(3) by (simp add: on_session_def sql_release_def ex dropWhile_fresh)
    then show ?thesis
      using None fin[of "s2\<lparr>se_saves := se_saves s\<rparr>"] j
      by (auto simp: DeferredCommitOrRollback_def Commit_def sub_tx_def Let_def)
  next
    case (Some e)
    let ?s3 = "s2\<lparr>se_data := se_data s, se_saves := (?n, se_data s) # se_saves s\<rparr>"
    have "on_session (ok OpRollbackTo) r (sql_rollback_to ?n) st2 = (None, st2\<lparr>st_sess := Some ?s3\<rparr>)"
      using j assms(3) by (simp add: on_session_def sql_rollback_to_def ex dropWhile_fresh)
    then show ?thesis
      using Some fin[of ?s3] j by (auto simp: DeferredCommitOrRollback_def Rollback_def sub_tx_def Let_def)
  qed
qed

lemma run_inside:
  assumes "\<forall>op. ok op"
  shows "inside r st s \<Longrightarrow> \<exists>st' s'. run ok b st = Ret st' \<and> advanced st s st' s' \<and> se_data s' = meaning b (se_data s)"
    and "inside r st s \<Longrightarrow> \<exists>st' s'. run_all ok bs st = Ret st' \<and> advanced st s st' s' \<and> se_data s' = fold meaning bs (se_data s)"
  using assms
proof (induction ok b st and ok bs st arbitrary: s and s rule: run_run_all.induct)
  case (1 ok f st)
  then show ?case using write_inside by fastforce
next
  case (2 ok err bs st)
  obtain st1 where w: "WithTx ok st = Ret (length (st_txs st), st1)"
    and i: "inside r st1 (s\<lparr>se_saves := (st_next st, se_data s) # se_saves s\<rparr>)"
    and t: "st_txs st1 = st_txs st @ [sub_tx r (st_next st)]" "st_next st1 = Suc (st_next st)" "st_db st1 = st_db st" "st_hasDB st1 = st_hasDB st"
    using WithTx_inside[OF "2.prems"(1), of ok] "2.prems"(2) by blast
  let ?s1 = "s\<lparr>se_saves := (st_next st, se_data s) # se_saves s\<rparr>"
  obtain st2 s2 where r: "run_all ok bs st1 = Ret st2" and a: "advanced st1 ?s1 st2 s2" and d: "se_data s2 = fold meaning bs (se_data s)"
    using "2.IH"[OF i "2.prems"(2)] by auto
  obtain e st3 s3 where "DeferredCommitOrRollback ok False (length (st_txs st)) err st2 = Ret (e, st3)" "advanced st s st3 s3"
    "se_data s3 = (if err = None then se_data s2 else se_data s)"
    using end_inside[OF "2.prems"(1) a "2.prems"(2) refl t] by blast
  then show ?case using w r d by auto
next
  case (3 ok st)
  then show ?case using advanced_refl by fastforce
next
  case (4 ok b bs st)
  obtain st1 s1 where r: "run ok b st = Ret st1" and a: "advanced st s st1 s1" and d: "se_data s1 = meaning b (se_data s)"
    using "4.IH"(1)[OF "4.prems"] by blast
  have "inside r st1 s1" using a inside_root[OF "4.prems"(1)] by (simp add: advanced_def)
  then obtain st2 s2 where "run_all ok bs st1 = Ret st2" "advanced st1 s1 st2 s2" "se_data s2 = fold meaning bs (se_data s1)"
    using "4.IH"(2) "4.prems"(2) by blast
  then show ?case using r d advanced_trans[OF a] by auto
qed


definition fresh_state :: "'d \<Rightarrow> 'd dbst" where
  "fresh_state d = \<lparr>st_db = d, st_sess = None, st_txs = [], st_ctx = None, st_next = 0, st_hasDB = True\<rparr>"


section \<open>Requests\<close>

lemma dangling_rolled_back:
  assumes "nxt (st\<lparr>st_hasDB := True\<rparr>) = (p, st')" "case open_tx st' of None \<Rightarrow> True | Some r \<Rightarrow> \<exists>s. inside r st' s"
  shows "\<exists>st''. DatabaseTrx_Run ok nxt st = (p, Ret st'') \<and> open_tx st'' = None \<and> st_db st'' = st_db st' \<and>
     (open_tx st' \<noteq> None \<longrightarrow> st_sess st'' = None)"
proof (cases "open_tx st'")
  case None
  then have "rollback_dangling ok st' = Ret st'"
    by (auto simp: rollback_dangling_def open_tx_def IsClosed_def split: option.splits if_splits)
  then show ?thesis using assms(1) None by (simp add: DatabaseTrx_Run_def)
next
  case (Some r)
  then obtain s where "inside r st' s" using assms(2) by auto
  then show ?thesis
    using assms(1) unfolding inside_def
    by (auto simp: DatabaseTrx_Run_def rollback_dangling_def GetDBTxFromCtx_def IsAutomatic_def IsClosed_def Rollback_def sql_end_def
        close_tx_def open_tx_def Let_def)
qed

text \<open>Whatever a handler does, after the middleware no transaction of the request is open: one that the handler
  left open is rolled back, also when the handler panics, and what was committed stays.\<close>

lemma request_leaves_no_transaction:
  assumes "nxt (st\<lparr>st_hasDB := True\<rparr>) = (p, st')" "case open_tx st' of None \<Rightarrow> True | Some r \<Rightarrow> \<exists>s. inside r st' s"
  shows "\<exists>st''. DatabaseTrx_Run ok nxt st = (p, Ret st'') \<and> open_tx st'' = None \<and> st_db st'' = st_db st' \<and>
     (open_tx st' \<noteq> None \<longrightarrow> st_sess st'' = None)"
  using assms by (rule dangling_rolled_back)

lemma request_leaves_no_transaction_witness:
  "\<exists>st''. DatabaseTrx_Run (\<lambda>_. False) (\<lambda>st. (Some ''boom'', case WithTx (\<lambda>_. True) st of Ret (j, st') \<Rightarrow> st' | Panic m \<Rightarrow> st)) (fresh_state (3 :: int)) =
     (Some ''boom'', Ret st'') \<and> open_tx st'' = None \<and> st_db st'' = 3"
proof -
  let ?n = "\<lambda>st :: int dbst. (Some ''boom'', case WithTx (\<lambda>_. True) st of Ret (j, st') \<Rightarrow> st' | Panic m \<Rightarrow> st)"
  let ?t = "\<lparr>tx_closed = False, tx_automatic = False, tx_root = 0, tx_parent = None, tx_savePoint = 0\<rparr>"
  let ?st = "(fresh_state 3)\<lparr>st_txs := [?t], st_sess := Some \<lparr>se_root = 0, se_data = 3, se_saves = []\<rparr>, st_ctx := Some 0\<rparr> :: int dbst"
  have n: "?n ((fresh_state 3)\<lparr>st_hasDB := True\<rparr>) = (Some ''boom'', ?st)"
    by (simp add: fresh_state_def WithTx_def open_tx_def GetDBTxFromCtx_def Let_def)
  moreover have d: "st_db ?st = 3" by (simp add: fresh_state_def)
  moreover have "case open_tx ?st of None \<Rightarrow> True | Some r \<Rightarrow> \<exists>s. inside r ?st s"
    by (simp add: open_tx_def GetDBTxFromCtx_def, simp add: inside_def[abs_def])
  ultimately show ?thesis
    using request_leaves_no_transaction[of ?n "fresh_state 3" "Some ''boom''" ?st "\<lambda>_. False"] d by metis
qed

text \<open>The name of a database has no hyphen.\<close>

lemma db_name_plain: "CHR ''-'' \<notin> set (CreateDBName name envName)"
  by (auto simp: CreateDBName_def ReplaceAll_single)

end
