(* ===== verification/Worker.thy ===== *)
theory Worker
  imports Errors Context "HOL-Library.Multiset"
begin

text \<open>
  Long running workers (\<^verbatim>\<open>worker/worker.go\<close>) and the panic handlers they use (\<^verbatim>\<open>panics/panic.go\<close>). A worker's \<^verbatim>\<open>Run\<close> and
  the distributed lock are given by what their calls return. A single worker runs in a loop that may
  go on for ever, so the runner is a partial function; the goroutines of the handler send their
  results through one channel, and the handler receives them in some order.
\<close>

section \<open>Errors and panics\<close>

definition errWorkerHandlerStopped :: error where
  "errWorkerHandlerStopped = new_error ''WORKER_HANDLER_STOPPED'' ''worker handler stopped'' []"

definition ErrWorkerHandlerNoWorkers :: error where
  "ErrWorkerHandlerNoWorkers = new_error ''WORKER_HANDLER_NO_WORKERS'' ''worker handler has no workers'' []"

text \<open>What a deferred panic handler makes of a call: the panic becomes an error that wraps the error that
  was set before, if any.\<close>

definition DeferredPanicToError :: "string \<Rightarrow> error option \<Rightarrow> 'a go \<Rightarrow> error + 'a" where
  "DeferredPanicToError text err r =
     (case r of
        Ret x \<Rightarrow> Inr x
      | Panic p \<Rightarrow>
         (case err of
            Some e \<Rightarrow> Inl (new_error ''PANIC'' (text @ '', panic: '' @ p @ '', hidden error: '' @ error_message e) [e])
          | None \<Rightarrow> Inl (new_error ''PANIC'' (text @ '', panic: '' @ p) [])))"

section \<open>One worker\<close>

datatype mode = Multi | Single | OtherMode int

definition ConcurrencyMode_String :: "mode \<Rightarrow> string" where
  "ConcurrencyMode_String m = (case m of Multi \<Rightarrow> ''ConcurrencyModeMulti'' | Single \<Rightarrow> ''ConcurrencyModeSingle''
     | OtherMode i \<Rightarrow> ''ConcurrencyMode('' @ show_int i @ '')'')"

definition multiWorkerRunner :: "string \<Rightarrow> error option go \<Rightarrow> error option" where
  "multiWorkerRunner name run =
     (case (case DeferredPanicToError (''worker: '' @ name @ '' panicked'') None run of Inl e \<Rightarrow> Some e | Inr r \<Rightarrow> r) of
        None \<Rightarrow> None
      | Some e \<Rightarrow> Some (new_error ''WORKER_ERROR'' (''multi worker: '' @ name @ '' error: '' @ error_message e) [e]))"

text \<open>What the calls of one round of the loop return: locking, the automatic extension of the lock and the
  worker. An error of the final unlocking is only logged.\<close>

record round =
  ro_Lock :: "error option go"
  ro_AutoExtend :: "error option go"
  ro_Run :: "error option go"

datatype action = Locked | Ran | Unlocked

fun round_calls :: "string \<Rightarrow> round \<Rightarrow> error option go \<times> action list" where
  "round_calls name ro =
     (case ro_Lock ro of
        Panic p \<Rightarrow> (Panic p, [])
      | Ret (Some e) \<Rightarrow> (Ret (Some (new_error ''UNKNOWN'' (''failed to lock worker: '' @ name @ '' error: '' @ error_message e) [e])), [])
      | Ret None \<Rightarrow>
         (case ro_AutoExtend ro of
            Panic p \<Rightarrow> (Panic p, [Locked, Unlocked])
          | Ret (Some e) \<Rightarrow> (Ret (Some e), [Locked, Unlocked])
          | Ret None \<Rightarrow> (ro_Run ro, [Locked, Ran, Unlocked])))"

definition round_error :: "string \<Rightarrow> round \<Rightarrow> error option" where
  "round_error name ro =
     (case DeferredPanicToError (''long running worker handler panicked while managing lock for single worker: '' @ name) None
             (fst (round_calls name ro)) of
        Inl e \<Rightarrow> Some e | Inr r \<Rightarrow> r)"

text \<open>Whether the loop goes on: the lock could not be extended.\<close>

definition goes_on :: "error \<Rightarrow> bool" where
  "goes_on e \<longleftrightarrow> \<not> (Is e errWorkerHandlerStopped \<or> IsCode e ''PANIC'') \<and> fst (AsCode e None ''LOCK_NOT_AUTO_EXTENDED'')"

partial_function (option) singleWorkerRunner ::
  "string \<Rightarrow> (nat \<Rightarrow> round) \<Rightarrow> nat \<Rightarrow> action list \<Rightarrow> (error option \<times> action list) option" where
  "singleWorkerRunner name rounds i tr =
     (let acts = tr @ snd (round_calls name (rounds i))
      in case round_error name (rounds i) of
           None \<Rightarrow> Some (None, acts)
         | Some e \<Rightarrow>
            if Is e errWorkerHandlerStopped \<or> IsCode e ''PANIC'' then Some (Some e, acts)
            else if fst (AsCode e None ''LOCK_NOT_AUTO_EXTENDED'') then singleWorkerRunner name rounds (Suc i) acts
            else Some (Some (new_error ''WORKER_ERROR'' (''single worker: '' @ name @ '' error: '' @ error_message e) [e]), acts))"

section \<open>The handler\<close>

text \<open>What the goroutine of a worker sends, given its concurrency (mode and lock time to live) and the outcome of
  its runner.\<close>

definition sent :: "string \<Rightarrow> mode \<Rightarrow> int \<Rightarrow> error option \<Rightarrow> error" where
  "sent name m ttl outcome =
     (let err = (case m of
                   OtherMode i \<Rightarrow> Some (new_error ''BAD_STATE'' (''worker: '' @ name @ '' has invalid concurrency mode: {'' @ show_int i @ '' '' @ show_int ttl @ ''}'') [])
                 | _ \<Rightarrow> outcome)
      in case err of
           Some e \<Rightarrow> if Is e errWorkerHandlerStopped then errWorkerHandlerStopped else e
         | None \<Rightarrow> new_error ''WORKER_ERROR'' (''worker: '' @ name @ '' un-expectedly finished processing without error'') [])"

text \<open>Shutting the application down, unless the handler was stopped: the number of requests so far, or a
  panic when the request fails.\<close>

definition shutdownFxApp :: "bool \<Rightarrow> string option \<Rightarrow> error \<Rightarrow> nat \<Rightarrow> nat go" where
  "shutdownFxApp stopped shErr err n =
     (if stopped then Ret n
      else case shErr of
             Some m \<Rightarrow> Panic (''failed to start graceful shutdown: '' @ m @ '', panicking because of: '' @ error_message err)
           | None \<Rightarrow> Ret (Suc n))"

text \<open>The results arrive in the order of the list, each with whether the handler was stopped by then.\<close>

fun receive :: "string option \<Rightarrow> (bool \<times> error) list \<Rightarrow> nat \<Rightarrow> error list \<Rightarrow> (nat \<times> error list) go" where
  "receive shErr [] n errs = Ret (n, errs)"
| "receive shErr ((stopped, e) # rs) n errs = go_bind (shutdownFxApp stopped shErr e n) (\<lambda>n'. receive shErr rs n' (errs @ [e]))"

definition handler_Run :: "string option \<Rightarrow> (bool \<times> error) list \<Rightarrow> (nat \<times> error) go" where
  "handler_Run shErr rs =
     go_bind (receive shErr rs 0 []) (\<lambda>(n, errs).
       Ret (n, if errs \<noteq> [] then new_error ''WORKER_ERROR'' (error_message (join_errors errs)) [join_errors errs]
               else ErrWorkerHandlerNoWorkers))"

text \<open>What \<open>Start\<close> does with the result: it stops silently, shuts down, or logs.\<close>

datatype started = LoggedStop | ShutDown | LoggedError

definition Start :: "error \<Rightarrow> started" where
  "Start err = (if Is err errWorkerHandlerStopped then LoggedStop else if Is err ErrWorkerHandlerNoWorkers then ShutDown else LoggedError)"

text \<open>Stopping cancels the context of the handler and waits for \<open>Run\<close> to end, or for the end of its own context when
  that has a deadline; \<open>ended\<close> is the cause for which that context has ended, if it has. The result is what may
  be logged, nothing when it still waits.\<close>

datatype stopping = StopFinished | StopNotInTime | StopSilent

definition Stop :: "bool \<Rightarrow> bool \<Rightarrow> string option \<Rightarrow> stopping list" where
  "Stop hasDeadline closed ended =
     (if hasDeadline
      then (if closed then [StopFinished] else []) @
           (case ended of None \<Rightarrow> [] | Some cause \<Rightarrow> [if cause = ''context deadline exceeded'' then StopNotInTime else StopSilent])
      else (if closed then [StopFinished] else []))"

text \<open>A worker with what its runs return, and what its goroutine sends; \<open>None\<close> when it does not end.\<close>

record long_worker =
  wk_Name :: string
  wk_Mode :: mode
  wk_SingleLockTTL :: int
  wk_Run :: "error option go option"
  wk_rounds :: "nat \<Rightarrow> round"

definition worker_sends :: "long_worker \<Rightarrow> error option" where
  "worker_sends w =
     map_option (sent (wk_Name w) (wk_Mode w) (wk_SingleLockTTL w))
       (case wk_Mode w of
          Multi \<Rightarrow> map_option (multiWorkerRunner (wk_Name w)) (wk_Run w)
        | Single \<Rightarrow> map_option fst (singleWorkerRunner (wk_Name w) (wk_rounds w) 0 [])
        | OtherMode i \<Rightarrow> Some None)"

section \<open>The context of a worker\<close>

text \<open>The values that the framework keeps in contexts: the name and identifier of the worker, the attributes
  of loggers, here without the sharing of arrays, the handle of the database and the factory of loggers.\<close>

datatype fw_value = WorkerInfo string string | LoggerAttrs "(string \<times> (string \<times> string) list) list" | DBHandle string | LoggerFactory string

definition db_SetCtx :: "string option \<Rightarrow> fw_value ctx \<Rightarrow> fw_value cstate \<Rightarrow> fw_value ctx \<times> fw_value cstate" where
  "db_SetCtx db c st = (case db of None \<Rightarrow> (c, st) | Some handle \<Rightarrow> CtxSetValue c ''_fw_db'' (DBHandle handle) st)"

definition lf_SetCtx :: "string \<Rightarrow> fw_value ctx \<Rightarrow> fw_value cstate \<Rightarrow> fw_value ctx \<times> fw_value cstate" where
  "lf_SetCtx lf c st = CtxSetValue c ''_fw_logger_factory'' (LoggerFactory lf) st"

text \<open>The context of a new handler.\<close>

definition NewLongRunningWorkerHandler :: "string option \<Rightarrow> fw_value cstate \<Rightarrow> fw_value ctx \<times> fw_value cstate" where
  "NewLongRunningWorkerHandler db st = (case db_SetCtx db Background st of (c, st1) \<Rightarrow> WithCancelCause c None st1)"

definition NewWorkerContext :: "fw_value ctx \<Rightarrow> string \<Rightarrow> string \<Rightarrow> fw_value cstate \<Rightarrow> fw_value ctx \<times> fw_value cstate" where
  "NewWorkerContext parent name i st =
     (case CtxSetValue parent ''_fw_worker'' (WorkerInfo name i) st of (c, st1) \<Rightarrow>
        let group = [(''worker'', [(''name'', name), (''id'', i)])];
            attrs = (case Value st1 c ''_fw_logger_attrs'' of Some (LoggerAttrs old) \<Rightarrow> old @ group | _ \<Rightarrow> group)
        in CtxSetValue c ''_fw_logger_attrs'' (LoggerAttrs attrs) st1)"

definition GetWorkerName :: "fw_value cstate \<Rightarrow> fw_value ctx \<Rightarrow> string \<times> bool" where
  "GetWorkerName st c = (case Value st c ''_fw_worker'' of Some (WorkerInfo name i) \<Rightarrow> (name, True) | _ \<Rightarrow> ([], False))"

definition GetWorkerID :: "fw_value cstate \<Rightarrow> fw_value ctx \<Rightarrow> string \<times> bool" where
  "GetWorkerID st c = (case Value st c ''_fw_worker'' of Some (WorkerInfo name i) \<Rightarrow> (i, True) | _ \<Rightarrow> ([], False))"

lemma worker_context_knows_worker:
  assumes "NewWorkerContext parent name i st = (c, st')"
  shows "GetWorkerName st' c = (name, True) \<and> GetWorkerID st' c = (i, True) \<and>
     (k \<noteq> ''_fw_worker'' \<and> k \<noteq> ''_fw_logger_attrs'' \<longrightarrow> Value st' c k = Value st parent k)"
proof -
  obtain c1 st1 where s: "CtxSetValue parent ''_fw_worker'' (WorkerInfo name i) st = (c1, st1)" by fastforce
  have "\<exists>attrs. CtxSetValue c1 ''_fw_logger_attrs'' (LoggerAttrs attrs) st1 = (c, st')"
    using assms s by (auto simp: NewWorkerContext_def Let_def)
  then obtain attrs where a: "CtxSetValue c1 ''_fw_logger_attrs'' (LoggerAttrs attrs) st1 = (c, st')" by blast
  show ?thesis by (auto simp: GetWorkerName_def GetWorkerID_def Value_CtxSetValue[OF a] Value_CtxSetValue[OF s])
qed

section \<open>Properties\<close>

text \<open>Every lock is released before the next one is taken, and the worker runs only in between.\<close>

fun bracketed :: "action list \<Rightarrow> bool" where
  "bracketed [] = True"
| "bracketed (Locked # Unlocked # tr) = bracketed tr"
| "bracketed (Locked # Ran # Unlocked # tr) = bracketed tr"
| "bracketed tr = False"

lemma bracketed_append: "bracketed xs \<Longrightarrow> bracketed ys \<Longrightarrow> bracketed (xs @ ys)"
  by (induction xs rule: bracketed.induct) auto

lemma bracketed_round: "bracketed (snd (round_calls name ro))"
  by (auto split: go.splits option.splits)

definition trace_to :: "string \<Rightarrow> (nat \<Rightarrow> round) \<Rightarrow> nat \<Rightarrow> action list" where
  "trace_to name rounds n = concat (map (\<lambda>i. snd (round_calls name (rounds i))) [0..<n])"

lemma bracketed_trace: "bracketed (trace_to name rounds n)"
  by (induction n) (auto simp: trace_to_def intro!: bracketed_append bracketed_round simp del: round_calls.simps)

definition retried :: "string \<Rightarrow> round \<Rightarrow> bool" where
  "retried name ro \<longleftrightarrow> (case round_error name ro of None \<Rightarrow> False | Some e \<Rightarrow> goes_on e)"

text \<open>The answer of the runner after a round that is not repeated.\<close>

definition round_answer :: "string \<Rightarrow> round \<Rightarrow> error option" where
  "round_answer name ro =
     (case round_error name ro of
        None \<Rightarrow> None
      | Some e \<Rightarrow> if Is e errWorkerHandlerStopped \<or> IsCode e ''PANIC'' then Some e
                  else Some (new_error ''WORKER_ERROR'' (''single worker: '' @ name @ '' error: '' @ error_message e) [e]))"

lemma runner_step:
  "singleWorkerRunner name rounds i tr =
     (let acts = tr @ snd (round_calls name (rounds i))
      in if retried name (rounds i) then singleWorkerRunner name rounds (Suc i) acts else Some (round_answer name (rounds i), acts))"
  by (subst singleWorkerRunner.simps)
    (auto simp: retried_def goes_on_def round_answer_def Let_def split: option.splits)

lemma runner_reaches:
  "(\<And>j. j < n \<Longrightarrow> retried name (rounds j)) \<Longrightarrow>
   singleWorkerRunner name rounds 0 [] = singleWorkerRunner name rounds n (trace_to name rounds n)"
proof (induction n)
  case 0
  then show ?case by (simp add: trace_to_def)
next
  case (Suc n)
  have "singleWorkerRunner name rounds n (trace_to name rounds n) = singleWorkerRunner name rounds (Suc n) (trace_to name rounds (Suc n))"
    using runner_step[of name rounds n "trace_to name rounds n"] Suc.prems[of n] by (simp add: trace_to_def Let_def del: round_calls.simps)
  then show ?case using Suc by simp
qed

lemma runner_returns: "singleWorkerRunner name rounds i tr = Some r \<Longrightarrow> \<exists>j \<ge> i. \<not> retried name (rounds j)"
proof (rule singleWorkerRunner.raw_induct[of "\<lambda>name rounds i tr r. \<exists>j \<ge> i. \<not> retried name (rounds j)"], goal_cases)
  case (1 rec name rounds i tr r)
  show ?case
  proof (cases "retried name (rounds i)")
    case True
    then have "\<exists>acts. rec name rounds (Suc i) acts = Some r"
      using 1(3) by (auto simp: retried_def goes_on_def Let_def split: option.splits)
    then show ?thesis using 1(2) Suc_leD by blast
  qed auto
qed


text \<open>The handler without a failing shutdown returns an error that joins the results of all workers, in the order in
  which they arrived.\<close>

lemma receive_all: "receive None rs n errs = Ret (n + length (filter (\<lambda>r. \<not> fst r) rs), errs @ map snd rs)"
  by (induction "None :: string option" rs n errs rule: receive.induct) (auto simp: shutdownFxApp_def)

lemma handler_joins_results:
  "handler_Run None rs = Ret (length (filter (\<lambda>r. \<not> fst r) rs),
     if rs \<noteq> [] then new_error ''WORKER_ERROR'' (error_message (join_errors (map snd rs))) [join_errors (map snd rs)] else ErrWorkerHandlerNoWorkers)"
  by (simp add: handler_Run_def receive_all)

lemma joined_errors: "Is (new_error code m [join_errors es]) t \<longleftrightarrow> new_error code m [join_errors es] = t \<or> join_errors es = t \<or> (\<exists>e \<in> set es. Is e t)"
  by (simp add: new_error_def join_errors_def Is_list_iff)


definition sample_worker :: "string \<Rightarrow> mode \<Rightarrow> long_worker" where
  "sample_worker name m = \<lparr>wk_Name = name, wk_Mode = m, wk_SingleLockTTL = 0, wk_Run = Some (Panic ''boom''),
     wk_rounds = (\<lambda>_. \<lparr>ro_Lock = Ret None, ro_AutoExtend = Ret None, ro_Run = Ret (Some errWorkerHandlerStopped)\<rparr>)\<rparr>"


section \<open>Stopping the handler\<close>

text \<open>Contexts are only added.\<close>

definition later :: "'v cstate \<Rightarrow> 'v cstate \<Rightarrow> bool" where
  "later st st' \<longleftrightarrow> (\<exists>cs. cs_ctxs st' = cs_ctxs st @ cs)"

lemma later_nth: "later st st' \<Longrightarrow> i < length (cs_ctxs st) \<Longrightarrow> i < length (cs_ctxs st') \<and> cs_ctxs st' ! i = cs_ctxs st ! i"
  by (auto simp: later_def nth_append)

lemma WithCancelCause_new:
  "WithCancelCause p d st = (c, st') \<Longrightarrow> i = length (cs_ctxs st) \<Longrightarrow>
   c = CancelCtx p i d \<and> i < length (cs_ctxs st') \<and> cs_ctxs st' ! i = c"
  by (auto simp: WithCancelCause_def Let_def)

lemma NewWorkerContext_of_cancel:
  "NewWorkerContext (CancelCtx p i d) name wid st = (c, st') \<Longrightarrow>
   (\<exists>v v'. c = ValueCtx (ValueCtx (CancelCtx p i d) ''_fw_worker'' v) ''_fw_logger_attrs'' v') \<and> st' = st"
  by (auto simp: NewWorkerContext_def CtxSetValue_def Let_def)

text \<open>Stopping a handler ends the context of each of its workers, with the handler as its cause, and the context under which the
  lock of a single worker is extended, which keeps the cause for which it ended before, if it did. The context with which the
  lock is released goes on. A worker that then returns the cause of its context ends its runner.\<close>

lemma stop_reaches_workers:
  assumes "NewLongRunningWorkerHandler db st0 = (h, st1)" and "n = length (cs_ctxs st0)"
    and "later st1 st2" "NewWorkerContext h name wid st2 = (w, st3)"
    and "later st3 st4" "WithCancelCause w None st4 = (a, st5)" "m = length (cs_ctxs st4)"
    and "later st5 st6" "cs_cause st6 n = None" "st7 = cancel n ''worker handler stopped'' st6"
  shows "Err st7 w \<and> Cause st7 w = Some ''worker handler stopped'' \<and> Err st7 a \<and>
     Cause st7 a = (case cs_cause st6 m of Some cause \<Rightarrow> Some cause | None \<Rightarrow> Some ''worker handler stopped'') \<and>
     \<not> Err st7 (NoDeadlineAndNotCancellableContext w) \<and>
     \<not> retried name \<lparr>ro_Lock = Ret None, ro_AutoExtend = Ret None, ro_Run = Ret (Some errWorkerHandlerStopped)\<rparr>"
proof -
  have ctxs0: "cs_ctxs (snd (db_SetCtx db Background st0)) = cs_ctxs st0" by (auto simp: db_SetCtx_def CtxSetValue_def split: option.splits)
  obtain c0 where hc: "h = CancelCtx c0 n None" "n < length (cs_ctxs st1)" "cs_ctxs st1 ! n = h"
    using assms(1,2) ctxs0 WithCancelCause_new[of _ None "snd (db_SetCtx db Background st0)" h st1 n]
    by (auto simp: NewLongRunningWorkerHandler_def split: prod.splits)
  obtain v v' where w: "w = ValueCtx (ValueCtx h ''_fw_worker'' v) ''_fw_logger_attrs'' v'" "st3 = st2"
    using NewWorkerContext_of_cancel assms(4) hc(1) by blast
  have a: "a = CancelCtx w m None" "m < length (cs_ctxs st5)" "cs_ctxs st5 ! m = a" using WithCancelCause_new[OF assms(6,7)] by auto
  have "later st4 st5" using assms(6) by (auto simp: WithCancelCause_def Let_def later_def)
  then have n6: "n < length (cs_ctxs st6)" "cs_ctxs st6 ! n = h"
    using hc later_nth[OF assms(3)] later_nth[OF assms(5)] later_nth[of st4 st5] later_nth[OF assms(8)] w(2) by metis+
  have m6: "m < length (cs_ctxs st6)" "cs_ctxs st6 ! m = a" using a later_nth[OF assms(8)] by auto
  have "cs_cause st7 n = Some ''worker handler stopped''" using n6 hc(1) assms(9,10) by (simp add: cancel_def)
  moreover have "cs_cause st7 m = (case cs_cause st6 m of Some cause \<Rightarrow> Some cause | None \<Rightarrow> Some ''worker handler stopped'')"
    using m6 a(1) w(1) hc(1) assms(9,10) by (simp add: cancel_def split: option.split)
  moreover have "\<not> retried name \<lparr>ro_Lock = Ret None, ro_AutoExtend = Ret None, ro_Run = Ret (Some errWorkerHandlerStopped)\<rparr>"
    by (simp add: retried_def round_error_def DeferredPanicToError_def goes_on_def)
  ultimately show ?thesis using a(1) w(1) hc(1)
    by (auto simp: Err_def Cause_def NoDeadlineAndNotCancellableContext_def split: option.splits)
qed

section \<open>A panic that ends the process\<close>

text \<open>A recovered panic is an error of the package or the text of another value: it is logged and the process exits.\<close>

definition DeferredPanicToLogAndExit :: "(error + string) option \<Rightarrow> string list \<times> int option" where
  "DeferredPanicToLogAndExit recovered =
     (case recovered of
        None \<Rightarrow> ([], None)
      | Some (Inl e) \<Rightarrow> ([''panic: '' @ error_message e], Some 2)
      | Some (Inr text) \<Rightarrow> ([''panic: '' @ error_message (new_error ''PANIC'' text [])], Some 2))"

section \<open>The database of a context\<close>

text \<open>The handle that is read is used with the context it is read from: the result is the handle and that context.\<close>

definition GetDBFromCtx :: "fw_value cstate \<Rightarrow> fw_value ctx \<Rightarrow> (string \<times> fw_value ctx) option" where
  "GetDBFromCtx st c = (case Value st c ''_fw_db'' of Some (DBHandle handle) \<Rightarrow> Some (handle, c) | _ \<Rightarrow> None)"

text \<open>The handle that was set is read from the context and from the context of a worker below it, and one without
  deadline of it.\<close>

lemma db_of_context:
  assumes "db_SetCtx (Some db) c st = (c1, st1)"
  shows "GetDBFromCtx st1 c1 = Some (db, c1) \<and> GetDBFromCtx st1 (NoDeadline c1) = Some (db, NoDeadline c1)"
  using assms Value_CtxSetValue[of c "''_fw_db''" "DBHandle db" st c1 st1] by (simp add: db_SetCtx_def GetDBFromCtx_def)

lemma db_of_worker_context:
  assumes "db_SetCtx (Some db) c st = (c1, st1)" "NewWorkerContext c1 name i st1 = (c2, st2)"
  shows "GetDBFromCtx st2 c2 = Some (db, c2)"
proof -
  have "Value st2 c2 ''_fw_db'' = Value st1 c1 ''_fw_db''" using worker_context_knows_worker[OF assms(2), of "''_fw_db''"] by simp
  moreover have "Value st1 c1 ''_fw_db'' = Some (DBHandle db)"
    using db_of_context[OF assms(1)] by (auto simp: GetDBFromCtx_def split: option.splits fw_value.splits)
  ultimately show ?thesis by (simp add: GetDBFromCtx_def)
qed

end
