(* ===== verification/Logging.thy ===== *)
theory Logging
  imports Middleware Config
begin

text \<open>
  Package \<^verbatim>\<open>log\<close>: the attributes of a log call (\<^verbatim>\<open>logger_internal.go\<close>), which calls reach the handler (\<^verbatim>\<open>logger.go\<close>), the
  level of a logger by its path and the names of loggers (\<^verbatim>\<open>logger_factory.go\<close>), and the attributes kept in a
  context (\<^verbatim>\<open>logger_attrs.go\<close>). The attributes of a context are a Go slice that \<^verbatim>\<open>append\<close> may extend in place, so
  they are modelled with the arrays that slices share. Handlers and writers belong to other
  packages: a record of what a handler receives stands for them.
\<close>

section \<open>Attributes of a call\<close>

text \<open>Values of attributes: the kinds of \<^verbatim>\<open>slog.Value\<close> that the framework makes, with the text of any other value.\<close>

datatype log_val =
    VNil | VStr string | VInt int | VBool bool | VDuration int | VLevel int | VAny string
  | VGroup "(string \<times> log_val) list" | VSource string int string

type_synonym log_attr = "string \<times> log_val"

definition SkipAttr :: log_attr where
  "SkipAttr = ([], VNil)"

text \<open>An argument: a string, an attribute, or another value.\<close>

datatype log_arg = LStr string | LAttr log_attr | LVal log_val

definition badKey :: string where
  "badKey = ''!BADKEY''"

text \<open>An attribute in the place of a value is a value of some other type; \<open>show\<close> is its text.\<close>

fun arg_value :: "(log_attr \<Rightarrow> string) \<Rightarrow> log_arg \<Rightarrow> log_val" where
  "arg_value show (LStr s) = VStr s"
| "arg_value show (LAttr a) = VAny (show a)"
| "arg_value show (LVal v) = v"

fun argsToAttr :: "(log_attr \<Rightarrow> string) \<Rightarrow> log_arg \<Rightarrow> log_arg list \<Rightarrow> log_attr \<times> log_arg list" where
  "argsToAttr show (LStr x) [] = ((badKey, VStr x), [])"
| "argsToAttr show (LStr x) (a # rest) = ((x, arg_value show a), rest)"
| "argsToAttr show (LAttr a) rest = (a, rest)"
| "argsToAttr show (LVal v) rest = ((badKey, v), rest)"

lemma argsToAttr_shorter: "length (snd (argsToAttr show a rest)) \<le> length rest"
  by (cases a; cases rest) auto

function argsToAttrSlice :: "(log_attr \<Rightarrow> string) \<Rightarrow> log_arg list \<Rightarrow> log_attr list" where
  "argsToAttrSlice show [] = []"
| "argsToAttrSlice show (a # rest) = fst (argsToAttr show a rest) # argsToAttrSlice show (snd (argsToAttr show a rest))"
  by pat_completeness auto
termination
  by (relation "measure (\<lambda>(show, args). length args)") (auto simp: le_imp_less_Suc argsToAttr_shorter)

section \<open>Loggers\<close>

text \<open>A logger is copied when it is passed on, but its copies share one level: \<open>lg_Leveler\<close> is the position of the
  level in the list of all levels (\<^verbatim>\<open>*slog.LevelVar\<close>). The handler is the attributes it was given.\<close>

datatype sink = Stdout | Stderr | Buffer | Given

record logger =
  lg_name :: string
  lg_Leveler :: nat
  lg_IsSlogJSON :: bool
  lg_IsConsole :: bool
  lg_attrs :: "log_attr list"
  lg_writer :: sink
  lg_SkipCallers :: int

definition SetLevel :: "int \<Rightarrow> logger \<Rightarrow> int list \<Rightarrow> int list" where
  "SetLevel level lg levels = levels[lg_Leveler lg := level]"

definition Level :: "int list \<Rightarrow> logger \<Rightarrow> int" where
  "Level levels lg = levels ! lg_Leveler lg"

definition WithAttrs :: "log_attr list \<Rightarrow> logger \<Rightarrow> logger" where
  "WithAttrs attrs lg = lg\<lparr>lg_attrs := lg_attrs lg @ attrs\<rparr>"

definition With :: "(log_attr \<Rightarrow> string) \<Rightarrow> log_arg list \<Rightarrow> logger \<Rightarrow> logger" where
  "With show args lg = WithAttrs (argsToAttrSlice show args) lg"

text \<open>A handler is enabled for the levels from its own on.\<close>

definition Enabled :: "int list \<Rightarrow> logger \<Rightarrow> int \<Rightarrow> bool" where
  "Enabled levels lg level \<longleftrightarrow> Level levels lg \<le> level"

text \<open>What reaches the handler: level, message and attributes, and how many frames of the stack are skipped to
  find the source.\<close>

record log_record =
  rc_level :: int
  rc_msg :: string
  rc_attrs :: "log_attr list"
  rc_skip :: int

definition logAttrs :: "int list \<Rightarrow> logger \<Rightarrow> int \<Rightarrow> int \<Rightarrow> string \<Rightarrow> log_attr list \<Rightarrow> log_record option" where
  "logAttrs levels lg level skipCallers msg attrs =
     (if \<not> Enabled levels lg level then None
      else Some \<lparr>rc_level = level, rc_msg = msg, rc_attrs = lg_attrs lg @ attrs, rc_skip = lg_SkipCallers lg + skipCallers + 1\<rparr>)"

definition log_args :: "(log_attr \<Rightarrow> string) \<Rightarrow> int list \<Rightarrow> logger \<Rightarrow> int \<Rightarrow> string \<Rightarrow> log_arg list \<Rightarrow> log_record option" where
  "log_args show levels lg level msg args = logAttrs levels lg level 3 msg (argsToAttrSlice show args)"

text \<open>The methods of one level test it first, before the text is formatted; \<open>Log\<close> and \<open>LogAttrs\<close> leave the test to
  \<open>logAttrs\<close>.\<close>

definition log_at :: "(log_attr \<Rightarrow> string) \<Rightarrow> int \<Rightarrow> int list \<Rightarrow> logger \<Rightarrow> string \<Rightarrow> log_arg list \<Rightarrow> log_record option" where
  "log_at show level levels lg msg args = (if \<not> Enabled levels lg level then None else log_args show levels lg level msg args)"

definition logf_at :: "(string \<Rightarrow> 'a list \<Rightarrow> string) \<Rightarrow> int \<Rightarrow> int list \<Rightarrow> logger \<Rightarrow> string \<Rightarrow> 'a list \<Rightarrow> log_record option" where
  "logf_at sprintf level levels lg format args =
     (if \<not> Enabled levels lg level then None else log_args (\<lambda>a. []) levels lg level (sprintf format args) [])"

definition ErrorE :: "int list \<Rightarrow> logger \<Rightarrow> string \<Rightarrow> log_record option" where
  "ErrorE levels lg err =
     (if \<not> Enabled levels lg LogLevelError then None
      else log_args (\<lambda>a. []) levels lg LogLevelError err [LAttr (''error'', VAny err)])"

definition Log :: "(log_attr \<Rightarrow> string) \<Rightarrow> int list \<Rightarrow> logger \<Rightarrow> int \<Rightarrow> string \<Rightarrow> log_arg list \<Rightarrow> log_record option" where
  "Log show levels lg level msg args = log_args show levels lg level msg args"

definition LogAttrs :: "int list \<Rightarrow> logger \<Rightarrow> int \<Rightarrow> string \<Rightarrow> log_attr list \<Rightarrow> log_record option" where
  "LogAttrs levels lg level msg attrs = logAttrs levels lg level 2 msg attrs"

text \<open>The part of the configuration that loggers use.\<close>

record log_conf =
  lc_EnvType :: string
  lc_Level :: int
  lc_Levels :: "string \<rightharpoonup> int"
  lc_Writer :: string

text \<open>The attributes of a record in JSON are renamed for Datadog; \<open>text\<close> is the text of a value.\<close>

definition source_group :: "string \<Rightarrow> string \<Rightarrow> int \<Rightarrow> string \<Rightarrow> log_val" where
  "source_group name function line file =
     VGroup ([(''name'', VStr name)] @ (if function \<noteq> [] then [(''method_name'', VStr function)] else []) @
             (if line \<noteq> 0 then [(''line'', VInt line)] else []) @ (if file \<noteq> [] then [(''file'', VStr file)] else []))"

definition ReplaceAttr :: "(log_val \<Rightarrow> string) \<Rightarrow> string \<Rightarrow> log_attr \<Rightarrow> log_attr go" where
  "ReplaceAttr text name attr =
     (if fst attr = ''time'' then Ret (''timestamp'', snd attr)
      else if fst attr = ''level'' \<and> text (snd attr) = TraceAsSlogStr then Ret (fst attr, VStr (LogLevel_String LogLevelTrace))
      else if fst attr = ''source''
      then (case snd attr of
              VSource function line file \<Rightarrow> Ret (''logger'', source_group name function line file)
            | _ \<Rightarrow> Panic ''interface conversion'')
      else Ret attr)"

definition NewLoggerWithWriter :: "string \<Rightarrow> log_conf \<Rightarrow> string \<Rightarrow> sink \<Rightarrow> int list \<Rightarrow> logger \<times> int list" where
  "NewLoggerWithWriter semVer conf name writer levels =
     (let lg = \<lparr>lg_name = name, lg_Leveler = length levels, lg_IsSlogJSON = False, lg_IsConsole = False, lg_attrs = [],
                lg_writer = writer, lg_SkipCallers = 0\<rparr>;
          levels' = SetLevel (lc_Level conf) lg (levels @ [LogLevelInfo])
      in if lc_EnvType conf = ''local'' \<or> lc_EnvType conf = ''test''
         then (WithAttrs [(''logger.name'', VStr name)] (lg\<lparr>lg_IsConsole := True\<rparr>), levels')
         else (lg\<lparr>lg_IsSlogJSON := True, lg_attrs := [(''dd.version'', VStr semVer)]\<rparr>, levels'))"

section \<open>The factory\<close>

text \<open>The configured levels by path; Go iterates over them in the order of the list.\<close>

fun normalize_levels :: "(string \<times> int) list \<Rightarrow> (string \<rightharpoonup> int) \<Rightarrow> (string \<rightharpoonup> int)" where
  "normalize_levels [] m = m"
| "normalize_levels ((p, l) # ps) m = normalize_levels ps (m(path_Clean p \<mapsto> l))"

definition is_sep :: "char \<Rightarrow> bool" where
  "is_sep c \<longleftrightarrow> c = CHR ''/'' \<or> c = CHR ''.''"

text \<open>\<^verbatim>\<open>strings.LastIndexAny(pth, "/.")\<close>, or \<open>-1\<close>.\<close>

definition LastIndexAny :: "string \<Rightarrow> int" where
  "LastIndexAny s = (if \<exists>c \<in> set s. is_sep c then int (length (dropWhile (\<lambda>c. \<not> is_sep c) (rev s))) - 1 else - 1)"

lemma LastIndexAny_less: "LastIndexAny s < int (length s)"
  using length_dropWhile_le[of "\<lambda>c. \<not> is_sep c" "rev s"] by (auto simp: LastIndexAny_def)

text \<open>The loop of \<open>newLogger\<close> over the prefixes of the path.\<close>

function find_level :: "(string \<rightharpoonup> int) \<Rightarrow> string \<Rightarrow> int \<Rightarrow> int option" where
  "find_level levels pth idx =
     (if \<not> (0 < idx \<and> idx \<le> int (length pth)) then None
      else let p = take (nat idx) pth
           in case levels p of Some l \<Rightarrow> Some l | None \<Rightarrow> find_level levels p (LastIndexAny p))"
  by pat_completeness auto
termination
proof (relation "measure (\<lambda>(levels, pth, idx). nat idx)", goal_cases)
  case (2 levels pth idx p)
  then show ?case using LastIndexAny_less[of p] by auto
qed simp

declare find_level.simps [simp del]

definition newLogger :: "string \<Rightarrow> bool \<Rightarrow> log_conf \<Rightarrow> string \<Rightarrow> int list \<Rightarrow> (logger \<times> int list) go" where
  "newLogger semVer hasWriter conf pth levels =
     (let mk = (\<lambda>w. case NewLoggerWithWriter semVer conf pth w levels of (lg, levels') \<Rightarrow>
                  Ret (lg, case find_level (lc_Levels conf) pth (int (length pth)) of
                             Some l \<Rightarrow> SetLevel l lg levels' | None \<Rightarrow> levels'))
      in if hasWriter then mk Given
         else if lc_Writer conf = [] \<or> lc_Writer conf = ''stdout'' then mk Stdout
         else if lc_Writer conf = ''stderr'' then mk Stderr
         else if lc_Writer conf = ''buffer'' then mk Buffer
         else Panic (''unknown log writer: '' @ lc_Writer conf))"

text \<open>A factory keeps the loggers by path; the world is the factory and the levels of all loggers.\<close>

record factory =
  lf_loggersByPath :: "string \<rightharpoonup> logger"
  lf_conf :: log_conf
  lf_hasWriter :: bool

definition NewLoggerFactory :: "log_conf \<Rightarrow> (string \<times> int) list \<Rightarrow> factory" where
  "NewLoggerFactory conf confLevels =
     \<lparr>lf_loggersByPath = Map.empty, lf_conf = conf\<lparr>lc_Levels := normalize_levels confLevels Map.empty\<rparr>, lf_hasWriter = False\<rparr>"

definition NewLoggerFactoryWithWriter :: "log_conf \<Rightarrow> (string \<times> int) list \<Rightarrow> factory" where
  "NewLoggerFactoryWithWriter conf confLevels = (NewLoggerFactory conf confLevels)\<lparr>lf_hasWriter := True\<rparr>"

definition GetLoggerFromCtxForPath :: "string \<Rightarrow> log_attr list \<Rightarrow> string \<Rightarrow> factory \<times> int list \<Rightarrow> (logger \<times> factory \<times> int list) go" where
  "GetLoggerFromCtxForPath semVer attrs pth w =
     (case w of (lf, levels) \<Rightarrow>
        go_bind (case lf_loggersByPath lf pth of
                   Some lg \<Rightarrow> Ret (lg, lf, levels)
                 | None \<Rightarrow> go_bind (newLogger semVer (lf_hasWriter lf) (lf_conf lf) pth levels)
                             (\<lambda>(lg, levels'). Ret (lg, lf\<lparr>lf_loggersByPath := (lf_loggersByPath lf)(pth \<mapsto> lg)\<rparr>, levels')))
          (\<lambda>(lg, w'). Ret (if attrs \<noteq> [] then WithAttrs attrs lg else lg, w')))"

text \<open>The path of a type: its package and name, after at most ten steps to an element type.\<close>

datatype rtype = RNil | RNamed string string | RElem rtype | RUnnamed

fun type_path :: "nat \<Rightarrow> rtype \<Rightarrow> string" where
  "type_path 0 t = ''_''"
| "type_path (Suc n) RNil = ''_''"
| "type_path (Suc n) (RNamed pkg name) = pkg @ ''.'' @ name"
| "type_path (Suc n) (RElem t) = type_path n t"
| "type_path (Suc n) RUnnamed = ''_''"

definition GetLoggerFromCtxForType :: "string \<Rightarrow> log_attr list \<Rightarrow> rtype \<Rightarrow> factory \<times> int list \<Rightarrow> (logger \<times> factory \<times> int list) go" where
  "GetLoggerFromCtxForType semVer attrs t w = GetLoggerFromCtxForPath semVer attrs (type_path 10 t) w"

definition skipPathPrefixes :: "string list" where
  "skipPathPrefixes = [''github.com/southernlabs-io/go-fw/log.(*LoggerFactory).'', ''github.com/southernlabs-io/go-fw/log.Logger.'',
     ''github.com/southernlabs-io/go-fw/log.GetLogger'', ''github.com/southernlabs-io/go-fw/worker.NewWorkerContext'']"

text \<open>The path of the caller among the functions of the first six frames.\<close>

fun first_caller :: "string list \<Rightarrow> string" where
  "first_caller [] = ''_''"
| "first_caller (f # fs) = (if list_ex (HasPrefix f) skipPathPrefixes \<or> f = [] then first_caller fs else f)"

definition findCallerPath :: "string list \<Rightarrow> string" where
  "findCallerPath frames = first_caller (take 6 frames)"

text \<open>The logger of the caller; the factory in the context is taken before the default one.\<close>

definition GetLoggerFromCtx :: "string \<Rightarrow> string list \<Rightarrow> log_attr list \<Rightarrow> factory option \<Rightarrow> factory \<Rightarrow> int list \<Rightarrow> (logger \<times> factory \<times> int list) go" where
  "GetLoggerFromCtx semVer frames attrs ctxFactory defaultFactory levels =
     GetLoggerFromCtxForPath semVer attrs (findCallerPath frames) (case ctxFactory of Some lf \<Rightarrow> lf | None \<Rightarrow> defaultFactory, levels)"

text \<open>The loggers without a context, and those of the functions of the package, which use the factory of the context or the
  default one; \<open>SetDefaultLoggerFactory\<close> replaces it.\<close>

definition GetLoggerForPath :: "string \<Rightarrow> string \<Rightarrow> factory \<times> int list \<Rightarrow> (logger \<times> factory \<times> int list) go" where
  "GetLoggerForPath semVer pth w = GetLoggerFromCtxForPath semVer [] pth w"

definition GetLoggerForType :: "string \<Rightarrow> rtype \<Rightarrow> factory \<times> int list \<Rightarrow> (logger \<times> factory \<times> int list) go" where
  "GetLoggerForType semVer t w = GetLoggerFromCtxForType semVer [] t w"

definition GetLogger :: "string \<Rightarrow> string list \<Rightarrow> factory \<times> int list \<Rightarrow> (logger \<times> factory \<times> int list) go" where
  "GetLogger semVer frames w = GetLoggerFromCtxForPath semVer [] (findCallerPath frames) w"

definition GetRootLogger :: "string \<Rightarrow> factory \<times> int list \<Rightarrow> (logger \<times> factory \<times> int list) go" where
  "GetRootLogger semVer w = GetLoggerForPath semVer ''root'' w"

definition SetDefaultLoggerFactory :: "factory \<Rightarrow> factory \<Rightarrow> factory" where
  "SetDefaultLoggerFactory f defaultFactory = f"

definition factory_of :: "factory option \<Rightarrow> factory \<Rightarrow> factory" where
  "factory_of ctxFactory defaultFactory = (case ctxFactory of Some lf \<Rightarrow> lf | None \<Rightarrow> defaultFactory)"

definition default_GetLoggerFromCtxForType ::
  "string \<Rightarrow> log_attr list \<Rightarrow> rtype \<Rightarrow> factory option \<Rightarrow> factory \<Rightarrow> int list \<Rightarrow> (logger \<times> factory \<times> int list) go" where
  "default_GetLoggerFromCtxForType semVer attrs t ctxFactory defaultFactory levels =
     GetLoggerFromCtxForType semVer attrs t (factory_of ctxFactory defaultFactory, levels)"

definition default_GetLoggerFromCtxForPath ::
  "string \<Rightarrow> log_attr list \<Rightarrow> string \<Rightarrow> factory option \<Rightarrow> factory \<Rightarrow> int list \<Rightarrow> (logger \<times> factory \<times> int list) go" where
  "default_GetLoggerFromCtxForPath semVer attrs pth ctxFactory defaultFactory levels =
     GetLoggerFromCtxForPath semVer attrs pth (factory_of ctxFactory defaultFactory, levels)"

section \<open>Attributes of a context\<close>

text \<open>A slice is an array and a length; the arrays live in a list, and the length of an array is the capacity
  of its slices. \<open>grow\<close> gives the capacity of a new array.\<close>

type_synonym slice = "nat \<times> nat"

definition slice_items :: "'a list list \<Rightarrow> slice \<Rightarrow> 'a list" where
  "slice_items h s = take (snd s) (h ! fst s)"

definition go_append :: "(nat \<Rightarrow> nat \<Rightarrow> nat) \<Rightarrow> 'a \<Rightarrow> 'a list list \<Rightarrow> slice \<Rightarrow> 'a list \<Rightarrow> slice \<times> 'a list list" where
  "go_append grow pad h s xs =
     (let arr = h ! fst s; n = snd s + length xs
      in if n \<le> length arr then ((fst s, n), h[fst s := take (snd s) arr @ xs @ drop n arr])
         else ((length h, n), h @ [take (snd s) arr @ xs @ replicate (grow (length arr) n - n) pad]))"

text \<open>A context holds a slice, or none; a new slice of exactly the given attributes is made for the
  arguments of a call.\<close>

definition CtxAppendLoggerAttrs ::
  "(nat \<Rightarrow> nat \<Rightarrow> nat) \<Rightarrow> 'a \<Rightarrow> 'a list list \<Rightarrow> slice option \<Rightarrow> 'a list \<Rightarrow> slice \<times> 'a list list" where
  "CtxAppendLoggerAttrs grow pad h ctx attrs =
     (case ctx of
        None \<Rightarrow> ((length h, length attrs), h @ [attrs])
      | Some s \<Rightarrow> go_append grow pad h s attrs)"

definition GetLoggerAttrsFromCtx :: "'a list list \<Rightarrow> slice option \<Rightarrow> 'a list" where
  "GetLoggerAttrsFromCtx h ctx = (case ctx of None \<Rightarrow> [] | Some s \<Rightarrow> slice_items h s)"

text \<open>The attributes that replace those of the context are a slice of their own.\<close>

definition CtxWithLoggerAttrs :: "'a list list \<Rightarrow> 'a list \<Rightarrow> slice \<times> 'a list list" where
  "CtxWithLoggerAttrs h attrs = ((length h, length attrs), h @ [attrs])"

section \<open>Properties\<close>

text \<open>Pairs of keys and values are logged as they are written, and a call is logged exactly if its level is
  enabled.\<close>

lemma argsToAttrSlice_pairs:
  "argsToAttrSlice show (concat (map (\<lambda>(k, v). [LStr k, LVal v]) kvs)) = kvs"
  by (induction kvs) auto

lemma log_at_enabled: "log_at show level levels lg msg args = Log show levels lg level msg args"
  by (simp add: log_at_def Log_def log_args_def logAttrs_def)

text \<open>The level of the longest prefix of the path, cut at a separator, that has one.\<close>

fun nearest :: "(string \<rightharpoonup> int) \<Rightarrow> string \<Rightarrow> nat \<Rightarrow> int option" where
  "nearest levels pth 0 = None"
| "nearest levels pth (Suc n) =
     (if (Suc n = length pth \<or> is_sep (pth ! Suc n)) \<and> levels (take (Suc n) pth) \<noteq> None then levels (take (Suc n) pth)
      else nearest levels pth n)"

lemma nearest_skip:
  "m \<le> n \<Longrightarrow> n < length pth \<Longrightarrow> (\<And>i. m < i \<Longrightarrow> i \<le> n \<Longrightarrow> \<not> is_sep (pth ! i)) \<Longrightarrow> nearest levels pth n = nearest levels pth m"
  by (induction n) (auto simp: le_Suc_eq)

lemma LastIndexAny_cases:
  obtains "LastIndexAny s = - 1" "\<And>i. i < length s \<Longrightarrow> \<not> is_sep (s ! i)"
  | k where "LastIndexAny s = int k" "k < length s" "is_sep (s ! k)" "\<And>i. k < i \<Longrightarrow> i < length s \<Longrightarrow> \<not> is_sep (s ! i)"
proof (cases "\<exists>c \<in> set s. is_sep c")
  case False
  then show ?thesis by (intro that(1)) (auto simp: LastIndexAny_def)
next
  case True
  then obtain ys c zs where s: "s = ys @ c # zs" "is_sep c" "\<forall>z \<in> set zs. \<not> is_sep z" using split_list_last_prop[of s is_sep] by metis
  have "dropWhile (\<lambda>c. \<not> is_sep c) (rev zs @ c # rev ys) = c # rev ys"
    using s(2,3) dropWhile_append2[of "rev zs" "\<lambda>c. \<not> is_sep c" "c # rev ys"] by simp
  then have "LastIndexAny s = int (length ys)" using s by (simp add: LastIndexAny_def)
  moreover have "\<not> is_sep (s ! i)" if "length ys < i" "i < length s" for i
    using that s(1,3) by (auto simp: nth_append nth_Cons' split: if_splits)
  ultimately show ?thesis using s by (intro that(2)[of "length ys"]) auto
qed

lemma find_level_nearest:
  "k \<le> length pth \<Longrightarrow> k = length pth \<or> is_sep (pth ! k) \<Longrightarrow> find_level levels (take k pth) (int k) = nearest levels pth k"
proof (induction k rule: less_induct)
  case (less k)
  show ?case
  proof (cases k)
    case 0
    then show ?thesis by (simp add: find_level.simps)
  next
    case (Suc n)
    let ?p = "take k pth"
    have step: "find_level levels ?p (int k) = (case levels ?p of Some l \<Rightarrow> Some l | None \<Rightarrow> find_level levels ?p (LastIndexAny ?p))"
    proof -
      have "\<not> \<not> (0 < int k \<and> int k \<le> int (length ?p))" "take (nat (int k)) ?p = ?p"
        using less.prems(1) Suc by (simp, simp only: nat_int take_take min.idem)
      then show ?thesis by (subst find_level.simps) (simp only: if_False Let_def)
    qed
    have "find_level levels ?p (LastIndexAny ?p) = nearest levels pth n"
    proof (cases rule: LastIndexAny_cases[of ?p])
      case 1
      have "nearest levels pth n = nearest levels pth 0"
      proof (rule nearest_skip)
        fix i
        assume "0 < i" "i \<le> n"
        then show "\<not> is_sep (pth ! i)" using 1(2)[of i] less.prems(1) Suc by auto
      qed (use less.prems(1) Suc in auto)
      then show ?thesis using 1(1) by (simp add: find_level.simps)
    next
      case (2 j)
      have j: "j < k" "is_sep (pth ! j)" using 2(2,3) less.prems(1) by auto
      have "nearest levels pth n = nearest levels pth j"
      proof (rule nearest_skip)
        fix i
        assume "j < i" "i \<le> n"
        then show "\<not> is_sep (pth ! i)" using 2(4)[of i] less.prems(1) Suc by auto
      qed (use j less.prems(1) Suc in auto)
      moreover have "find_level levels ?p (int j) = find_level levels (take j pth) (int j)"
        using j(1) less.prems(1) find_level.simps[of levels ?p "int j"] find_level.simps[of levels "take j pth" "int j"]
        by (simp add: min_def Let_def)
      ultimately show ?thesis using less.IH[OF j(1)] j less.prems(1) 2(1) by simp
    qed
    then show ?thesis using step less.prems(2) Suc by (auto split: option.splits)
  qed
qed

text \<open>The level of a new logger is that of the longest prefix of its path, ending before a slash or a dot, for
  which a level is configured, and the level of the configuration if there is none.\<close>

lemma logger_level_is_nearest:
  "find_level (lc_Levels conf) pth (int (length pth)) = nearest (lc_Levels conf) pth (length pth) \<and>
   (\<exists>lg levels'. newLogger semVer True conf pth levels = Ret (lg, levels') \<and>
      Level levels' lg = (case nearest (lc_Levels conf) pth (length pth) of Some l \<Rightarrow> l | None \<Rightarrow> lc_Level conf) \<and>
      lg_name lg = pth \<and> lg_Leveler lg = length levels \<and> take (length levels) levels' = levels)"
proof -
  have "find_level (lc_Levels conf) pth (int (length pth)) = nearest (lc_Levels conf) pth (length pth)"
    using find_level_nearest[of "length pth" pth "lc_Levels conf"] by simp
  then show ?thesis
    by (auto simp: newLogger_def NewLoggerWithWriter_def SetLevel_def Level_def WithAttrs_def Let_def split: option.splits)
qed

text \<open>Adding attributes to a context gives a context with the old and the new ones. When the slice of the
  context has room for them, a second context made from the same one takes the place of the first:
  the attributes of the first are then those of the second.\<close>

lemma sibling_contexts_share_attributes:
  assumes "fst s < length h" "snd s \<le> length (h ! fst s)" "length ys = length xs"
  shows "let (c1, h1) = CtxAppendLoggerAttrs grow pad h (Some s) xs; (c2, h2) = CtxAppendLoggerAttrs grow pad h1 (Some s) ys;
         old = GetLoggerAttrsFromCtx h (Some s); room = (snd s + length xs \<le> length (h ! fst s))
     in GetLoggerAttrsFromCtx h1 (Some c1) = old @ xs \<and> GetLoggerAttrsFromCtx h2 (Some c2) = old @ ys \<and>
        GetLoggerAttrsFromCtx h2 (Some c1) = old @ (if room then ys else xs)"
  using assms
  by (auto simp: CtxAppendLoggerAttrs_def GetLoggerAttrsFromCtx_def slice_items_def go_append_def Let_def nth_append)

lemma sibling_contexts_share_attributes_witness:
  "let (c1, h1) = CtxAppendLoggerAttrs (\<lambda>_ n. n) 0 [[1, 2, 3, 0 :: nat]] (Some (0, 3)) [4];
       (c2, h2) = CtxAppendLoggerAttrs (\<lambda>_ n. n) 0 h1 (Some (0, 3)) [5]
   in GetLoggerAttrsFromCtx h1 (Some c1) = [1, 2, 3, 4] \<and> GetLoggerAttrsFromCtx h2 (Some c1) = [1, 2, 3, 5]"
  using sibling_contexts_share_attributes[of "(0, 3)" "[[1, 2, 3, 0 :: nat]]" "[5]" "[4]" "\<lambda>_ n. n" 0]
  by (simp add: GetLoggerAttrsFromCtx_def slice_items_def case_prod_beta Let_def)

section \<open>Levels of the loggers of a factory\<close>

text \<open>Use of a factory: get the logger of a path with the attributes of a context, and perhaps set its level.\<close>

fun use_factory :: "string \<Rightarrow> (string \<times> log_attr list \<times> int option) list \<Rightarrow> factory \<times> int list \<Rightarrow> (factory \<times> int list) go" where
  "use_factory semVer [] w = Ret w"
| "use_factory semVer ((pth, attrs, level) # us) w =
     go_bind (GetLoggerFromCtxForPath semVer attrs pth w) (\<lambda>(lg, lf, levels).
       use_factory semVer us (lf, case level of None \<Rightarrow> levels | Some l \<Rightarrow> SetLevel l lg levels))"

text \<open>Every logger has a level of its own among the levels.\<close>

definition own_levels :: "factory \<times> int list \<Rightarrow> bool" where
  "own_levels w \<longleftrightarrow>
     (\<forall>p lg. lf_loggersByPath (fst w) p = Some lg \<longrightarrow> lg_Leveler lg < length (snd w)) \<and>
     (\<forall>p q lg lg'. lf_loggersByPath (fst w) p = Some lg \<longrightarrow> lf_loggersByPath (fst w) q = Some lg' \<longrightarrow>
        lg_Leveler lg = lg_Leveler lg' \<longrightarrow> p = q)"

lemma newLogger_level: "newLogger semVer hasWriter conf pth levels = Ret (lg, levels') \<Longrightarrow>
  lg_Leveler lg = length levels \<and> length levels' = Suc (length levels)"
  by (auto simp: newLogger_def NewLoggerWithWriter_def SetLevel_def WithAttrs_def Let_def split: option.splits if_splits)

lemma GetLogger_cached:
  assumes "own_levels w" "GetLoggerFromCtxForPath semVer attrs pth w = Ret (lg, w')"
  obtains lg0 where "lf_loggersByPath (fst w') pth = Some lg0" "lg_Leveler lg = lg_Leveler lg0" "own_levels w'"
    "\<And>q x. lf_loggersByPath (fst w) q = Some x \<Longrightarrow> lf_loggersByPath (fst w') q = Some x"
proof (cases "lf_loggersByPath (fst w) pth")
  case (Some lg0)
  then have "w' = w" "lg_Leveler lg = lg_Leveler lg0"
    using assms(2) by (auto simp: GetLoggerFromCtxForPath_def WithAttrs_def split: prod.splits if_splits)
  then show ?thesis using that[of lg0] assms(1) Some by simp
next
  case None
  obtain lf levels where w: "w = (lf, levels)" by (cases w)
  obtain lg0 levels' where n: "newLogger semVer (lf_hasWriter lf) (lf_conf lf) pth levels = Ret (lg0, levels')"
      "w' = (lf\<lparr>lf_loggersByPath := (lf_loggersByPath lf)(pth \<mapsto> lg0)\<rparr>, levels')" "lg_Leveler lg = lg_Leveler lg0"
    using assms(2) None w
    by (cases "newLogger semVer (lf_hasWriter lf) (lf_conf lf) pth levels")
      (auto simp: GetLoggerFromCtxForPath_def WithAttrs_def split: if_splits)
  have "own_levels w'" using assms(1) newLogger_level[OF n(1)] n(2) w by (fastforce simp: own_levels_def)
  then show ?thesis by (intro that[of lg0]) (use n None w in auto)
qed

lemma own_levels_SetLevel [simp]: "own_levels (lf, SetLevel l lg levels) = own_levels (lf, levels)"
  by (simp add: own_levels_def SetLevel_def)

lemma own_levels_use: "own_levels w \<Longrightarrow> use_factory semVer us w = Ret w' \<Longrightarrow> own_levels w'"
proof (induction semVer us w rule: use_factory.induct)
  case (2 semVer pth attrs level us w)
  then obtain lg lf levels where g: "GetLoggerFromCtxForPath semVer attrs pth w = Ret (lg, lf, levels)"
    by (cases "GetLoggerFromCtxForPath semVer attrs pth w") auto
  have "own_levels (lf, levels)" using GetLogger_cached[OF "2.prems"(1) g] by auto
  then have o: "own_levels (lf, case level of None \<Rightarrow> levels | Some l \<Rightarrow> SetLevel l lg levels)" by (simp split: option.split)
  have u: "use_factory semVer us (lf, case level of None \<Rightarrow> levels | Some l \<Rightarrow> SetLevel l lg levels) = Ret w'"
    using "2.prems"(2) g by simp
  show ?case by (rule "2.IH"[OF o u])
qed auto

text \<open>C25. However a factory was used, setting the level of a logger it gave out sets the level of all loggers of the
  same path, with whatever attributes, and of no logger of another path.\<close>

theorem levels_belong_to_paths:
  assumes "use_factory semVer us (NewLoggerFactory conf confLevels, levels0) = Ret w"
    and "GetLoggerFromCtxForPath semVer attrs p w = Ret (lg, w1)"
    and "GetLoggerFromCtxForPath semVer attrs' q w1 = Ret (lg', w2)"
  shows "Level (SetLevel l lg (snd w2)) lg' = (if p = q then l else Level (snd w2) lg')"
proof -
  have "own_levels (NewLoggerFactory conf confLevels, levels0)" by (simp add: own_levels_def NewLoggerFactory_def)
  then have "own_levels w" using assms(1) by (rule own_levels_use)
  then obtain x where x: "lf_loggersByPath (fst w1) p = Some x" "lg_Leveler lg = lg_Leveler x" and o1: "own_levels w1"
    using GetLogger_cached[OF _ assms(2)] by metis
  obtain y where y: "lf_loggersByPath (fst w2) q = Some y" "lg_Leveler lg' = lg_Leveler y" and o2: "own_levels w2"
      and x2: "lf_loggersByPath (fst w2) p = Some x"
    using GetLogger_cached[OF o1 assms(3)] x(1) by metis
  have "lg_Leveler x < length (snd w2)" "lg_Leveler x = lg_Leveler y \<longleftrightarrow> p = q"
    using o2 x2 y(1) by (auto simp: own_levels_def)
  then show ?thesis using x(2) y(2) by (auto simp: Level_def SetLevel_def)
qed

definition sample_conf :: log_conf where
  "sample_conf = \<lparr>lc_EnvType = ''prod'', lc_Level = LogLevelWarn, lc_Levels = Map.empty, lc_Writer = ''stdout''\<rparr>"

theorem levels_belong_to_paths_witness:
  "case GetLoggerFromCtxForPath ''v1'' [] ''a.b'' (NewLoggerFactory sample_conf [(''a'', LogLevelInfo)], []) of
     Panic _ \<Rightarrow> False
   | Ret (lg1, w1) \<Rightarrow>
      (case GetLoggerFromCtxForPath ''v1'' [(''k'', VInt 1)] ''c'' w1 of
         Panic _ \<Rightarrow> False
       | Ret (lg2, w2) \<Rightarrow> Level (SetLevel LogLevelError lg1 (snd w2)) lg2 = LogLevelWarn)"
proof -
  let ?w0 = "(NewLoggerFactory sample_conf [(''a'', LogLevelInfo)], [])"
  have "case GetLoggerFromCtxForPath ''v1'' [] ''a.b'' ?w0 of Panic _ \<Rightarrow> False
    | Ret (lg1, w1) \<Rightarrow> (case GetLoggerFromCtxForPath ''v1'' [(''k'', VInt 1)] ''c'' w1 of Panic _ \<Rightarrow> False
       | Ret (lg2, w2) \<Rightarrow> Level (snd w2) lg2 = LogLevelWarn)"
    by code_simp
  then show ?thesis
    using levels_belong_to_paths[of "''v1''" "[]" sample_conf "[(''a'', LogLevelInfo)]" "[]" ?w0 "[]" "''a.b''" _ _ "[(''k'', VInt 1)]" "''c''"]
    by (auto split: go.splits)
qed

text \<open>The path of the root logger is a path like any other: a level that is configured for the path of a single slash does not
  apply to it.\<close>

lemma root_logger_is_a_path:
  "find_level [''/'' \<mapsto> l] ''root'' (int (length ''root'')) = None" "find_level [''/'' \<mapsto> l] ''/'' (int (length ''/'')) = Some l"
  by (simp_all add: find_level.simps LastIndexAny_def is_sep_def Let_def)

lemma attributes_of_context:
  "case CtxWithLoggerAttrs h attrs of (s, h') \<Rightarrow> GetLoggerAttrsFromCtx h' (Some s) = attrs"
  by (simp add: CtxWithLoggerAttrs_def GetLoggerAttrsFromCtx_def slice_items_def)

end
