(* ===== verification/LogAdapters.thy ===== *)
theory LogAdapters
  imports Logging
begin

text \<open>
  Loggers of other packages written on top of package \<^verbatim>\<open>log\<close>: those of gorm (\<^verbatim>\<open>database/logger_gorm.go\<close>), of goose
  (\<^verbatim>\<open>database/logger_goose.go\<close>), the writers of Gin (\<^verbatim>\<open>rest/logger_gin.go\<close>) and the logger of the events of the injector
  (\<^verbatim>\<open>di/fx_logger.go\<close>). Each method is the list of records that reach the handler. A duration is its number of
  nanoseconds, and \<open>show\<close> and \<open>dur\<close> are the texts of an attribute in the place of a value and of a duration.
\<close>

section \<open>Gorm\<close>

record gorm_logger =
  gl_logger :: logger
  gl_silent :: bool
  gl_slowThreshold :: int
  gl_ignoreRecordNotFoundError :: bool

definition skip_callers :: "int \<Rightarrow> logger \<Rightarrow> logger" where
  "skip_callers n lg = lg\<lparr>lg_SkipCallers := lg_SkipCallers lg + n\<rparr>"

definition NewGormLogger :: "logger \<Rightarrow> gorm_logger" where
  "NewGormLogger lg = \<lparr>gl_logger = skip_callers 1 lg, gl_silent = False, gl_slowThreshold = 200 * 10 ^ 6,
     gl_ignoreRecordNotFoundError = True\<rparr>"

datatype gorm_level = GormSilent | GormError | GormWarn | GormInfo | GormOther int

text \<open>The new logger is a copy, but it has the level of the old one.\<close>

definition LogMode :: "gorm_level \<Rightarrow> gorm_logger \<Rightarrow> int list \<Rightarrow> (gorm_logger \<times> int list) go" where
  "LogMode level gl levels =
     (case level of
        GormInfo \<Rightarrow> Ret (gl, SetLevel LogLevelTrace (gl_logger gl) levels)
      | GormWarn \<Rightarrow> Ret (gl, SetLevel LogLevelWarn (gl_logger gl) levels)
      | GormError \<Rightarrow> Ret (gl, SetLevel LogLevelError (gl_logger gl) levels)
      | GormSilent \<Rightarrow> Ret (gl\<lparr>gl_silent := True\<rparr>, SetLevel LogLevelError (gl_logger gl) levels)
      | GormOther n \<Rightarrow> Panic (''unknown gorm log level: '' @ show_int n))"

definition configureLogger :: "gorm_logger \<Rightarrow> log_attr list \<Rightarrow> logger" where
  "configureLogger gl attrs = (if attrs \<noteq> [] then WithAttrs attrs (gl_logger gl) else gl_logger gl)"

definition gorm_logf ::
  "(string \<Rightarrow> 'a list \<Rightarrow> string) \<Rightarrow> int \<Rightarrow> int list \<Rightarrow> gorm_logger \<Rightarrow> log_attr list \<Rightarrow> string \<Rightarrow> 'a list \<Rightarrow> log_record option" where
  "gorm_logf sprintf level levels gl attrs format args = logf_at sprintf level levels (configureLogger gl attrs) format args"

text \<open>The error of a statement, and whether it is \<^verbatim>\<open>gorm.ErrRecordNotFound\<close>; \<open>sql\<close> and \<open>rows\<close> are what \<open>fc\<close> returns.\<close>

definition Trace ::
  "(log_attr \<Rightarrow> string) \<Rightarrow> (int \<Rightarrow> string) \<Rightarrow> int list \<Rightarrow> gorm_logger \<Rightarrow> log_attr list \<Rightarrow> int \<Rightarrow> string \<times> int \<Rightarrow> (string \<times> bool) option \<Rightarrow> log_record option" where
  "Trace show dur levels gl ctxAttrs elapsed fc err =
     (if gl_silent gl then None
      else let lg = skip_callers 2 (configureLogger gl ctxAttrs); (sql, rows) = fc
      in case (case err of None \<Rightarrow> None | Some (e, notFound) \<Rightarrow> if \<not> notFound \<or> \<not> gl_ignoreRecordNotFoundError gl then Some e else None) of
           Some e \<Rightarrow>
             log_at show LogLevelError levels lg ''Failed to run query''
               (map LAttr [(''error'', VAny e), (''sql'', VStr sql), (''duration'', VDuration elapsed), (''rows'', VInt rows)])
         | None \<Rightarrow>
             if elapsed > gl_slowThreshold gl \<and> gl_slowThreshold gl \<noteq> 0 \<and> Enabled levels (gl_logger gl) LogLevelWarn
             then log_at show LogLevelWarn levels lg (''Slow sql executed: '' @ dur elapsed)
                    (map LAttr [(''sql'', VStr sql), (''duration'', VDuration elapsed), (''rows'', VInt rows), (''slow_sql'', VBool True)])
             else if Enabled levels (gl_logger gl) LogLevelTrace
             then log_at show LogLevelTrace levels lg (''SQL executed: '' @ dur elapsed)
                    (map LAttr ([(''sql'', VStr sql), (''duration'', VDuration elapsed)] @ (if rows \<noteq> - 1 then [(''rows'', VInt rows)] else [])))
             else None)"

section \<open>Goose and Gin\<close>

text \<open>\<^verbatim>\<open>strings.CutSuffix(s, "\n")\<close>.\<close>

definition cut_newline :: "string \<Rightarrow> string" where
  "cut_newline s = TrimSuffix s [CHR 0x0A]"

definition NewGooseLogger :: "logger \<Rightarrow> logger" where
  "NewGooseLogger lg = skip_callers 1 lg"

definition Printf :: "(string \<Rightarrow> 'a list \<Rightarrow> string) \<Rightarrow> int list \<Rightarrow> logger \<Rightarrow> string \<Rightarrow> 'a list \<Rightarrow> log_record option" where
  "Printf sprintf levels lg format args = logf_at sprintf LogLevelInfo levels lg (cut_newline format) args"

text \<open>\<open>Fatalf\<close> ends the process after its record; the number is the exit status.\<close>

definition Fatalf :: "(string \<Rightarrow> 'a list \<Rightarrow> string) \<Rightarrow> int list \<Rightarrow> logger \<Rightarrow> string \<Rightarrow> 'a list \<Rightarrow> log_record option \<times> nat" where
  "Fatalf sprintf levels lg format args = (logf_at sprintf LogLevelError levels lg (cut_newline format) args, 1)"

datatype gin_writer = DefaultGinWriter logger | DefaultErrorGinWriter logger

definition NewDefaultGinWriter :: "logger \<Rightarrow> gin_writer" where
  "NewDefaultGinWriter lg = DefaultGinWriter (skip_callers 4 lg)"

definition NewDefaultErrorGinWriter :: "logger \<Rightarrow> gin_writer" where
  "NewDefaultErrorGinWriter lg = DefaultErrorGinWriter (skip_callers 3 lg)"

definition gin_Write :: "(log_attr \<Rightarrow> string) \<Rightarrow> int list \<Rightarrow> gin_writer \<Rightarrow> string \<Rightarrow> nat \<times> log_record option" where
  "gin_Write show levels w p =
     (length p,
      case w of
        DefaultGinWriter lg \<Rightarrow> log_at show LogLevelInfo levels lg (cut_newline p) []
      | DefaultErrorGinWriter lg \<Rightarrow> log_at show LogLevelError levels lg (cut_newline p) [])"

section \<open>Events of the injector\<close>

text \<open>The events with the fields that are logged; errors and other values are their texts.\<close>

record fx_source =
  fx_StackTrace :: string
  fx_ModuleTrace :: string
  fx_ModuleName :: string

datatype fx_event =
    OnStartExecuting string string
  | OnStartExecuted string string "string option" int
  | OnStopExecuting string string
  | OnStopExecuted string string "string option" int
  | Supplied string fx_source "string option"
  | Provided string fx_source "string list" bool "string option"
  | Replaced fx_source "string list" "string option"
  | Decorated string fx_source "string list" "string option"
  | BeforeRun string string string
  | RunEvent string string string "string option"
  | Invoking string string
  | Invoked string string string "string option"
  | Stopping string
  | Stopped "string option"
  | RollingBack string
  | RolledBack "string option"
  | Started "string option"
  | LoggerInitialized string "string option"
  | UnknownEvent string

definition maybeModuleField :: "string \<Rightarrow> log_attr" where
  "maybeModuleField name = (if name = [] then SkipAttr else (''module'', VStr name))"

definition maybeBool :: "string \<Rightarrow> bool \<Rightarrow> log_attr" where
  "maybeBool name b = (if b then (name, VBool True) else SkipAttr)"

definition kv :: "string \<Rightarrow> log_val \<Rightarrow> log_arg list" where
  "kv k v = [LStr k, LVal v]"

definition trace_args :: "fx_source \<Rightarrow> log_arg list" where
  "trace_args m = kv ''stacktrace'' (VAny (fx_StackTrace m)) @ kv ''moduletrace'' (VAny (fx_ModuleTrace m))"

definition module_arg :: "fx_source \<Rightarrow> log_arg list" where
  "module_arg m = [LAttr (maybeModuleField (fx_ModuleName m))]"

text \<open>The calls that an event makes on the logger: level, message and arguments.\<close>

fun event_calls :: "fx_event \<Rightarrow> (int \<times> string \<times> log_arg list) list" where
  "event_calls (OnStartExecuting callee caller) =
     [(LogLevelDebug, ''OnStart hook executing'', kv ''callee'' (VStr callee) @ kv ''caller'' (VStr caller))]"
| "event_calls (OnStartExecuted callee caller err runtime) =
     (case err of
        Some e \<Rightarrow> [(LogLevelError, ''OnStart hook failed'', kv ''callee'' (VStr callee) @ kv ''caller'' (VStr caller) @ kv ''error'' (VAny e))]
      | None \<Rightarrow> [(LogLevelDebug, ''OnStart hook executed'', kv ''callee'' (VStr callee) @ kv ''caller'' (VStr caller) @ kv ''runtime'' (VDuration runtime))])"
| "event_calls (OnStopExecuting callee caller) =
     [(LogLevelDebug, ''OnStop hook executing'', kv ''callee'' (VStr callee) @ kv ''caller'' (VStr caller))]"
| "event_calls (OnStopExecuted callee caller err runtime) =
     (case err of
        Some e \<Rightarrow> [(LogLevelError, ''OnStop hook failed'', kv ''callee'' (VStr callee) @ kv ''caller'' (VStr caller) @ kv ''error'' (VAny e))]
      | None \<Rightarrow> [(LogLevelDebug, ''OnStop hook executed'', kv ''callee'' (VStr callee) @ kv ''caller'' (VStr caller) @ kv ''runtime'' (VDuration runtime))])"
| "event_calls (Supplied type m err) =
     (case err of
        Some e \<Rightarrow> [(LogLevelError, ''Error encountered while applying options'', kv ''type'' (VStr type) @ trace_args m @ module_arg m @ kv ''error'' (VAny e))]
      | None \<Rightarrow> [(LogLevelDebug, ''Supplied'', kv ''type'' (VStr type) @ trace_args m @ module_arg m)])"
| "event_calls (Provided constructor m types private err) =
     map (\<lambda>rtype. (LogLevelDebug, ''Provided'', kv ''constructor'' (VStr constructor) @ trace_args m @ module_arg m @
                     kv ''type'' (VStr rtype) @ [LAttr (maybeBool ''private'' private)])) types @
     (case err of
        Some e \<Rightarrow> [(LogLevelError, ''Error encountered while applying options'', module_arg m @ trace_args m @ kv ''error'' (VAny e))]
      | None \<Rightarrow> [])"
| "event_calls (Replaced m types err) =
     map (\<lambda>rtype. (LogLevelDebug, ''Replaced'', trace_args m @ module_arg m @ kv ''type'' (VStr rtype))) types @
     (case err of
        Some e \<Rightarrow> [(LogLevelError, ''Error encountered while replacing'', trace_args m @ module_arg m @ kv ''error'' (VAny e))]
      | None \<Rightarrow> [])"
| "event_calls (Decorated decorator m types err) =
     map (\<lambda>rtype. (LogLevelDebug, ''Decorated'', kv ''decorator'' (VStr decorator) @ trace_args m @ module_arg m @ kv ''type'' (VStr rtype))) types @
     (case err of
        Some e \<Rightarrow> [(LogLevelError, ''Error encountered while applying options'', trace_args m @ module_arg m @ kv ''error'' (VAny e))]
      | None \<Rightarrow> [])"
| "event_calls (BeforeRun name kind module) =
     [(LogLevelDebug, ''Run'', kv ''name'' (VStr name) @ kv ''kind'' (VStr kind) @ [LAttr (maybeModuleField module)])]"
| "event_calls (RunEvent name kind module err) =
     (case err of
        Some e \<Rightarrow> [(LogLevelError, ''Error returned'', kv ''name'' (VStr name) @ kv ''kind'' (VStr kind) @ [LAttr (maybeModuleField module)] @ kv ''error'' (VAny e))]
      | None \<Rightarrow> [(LogLevelDebug, ''Run'', kv ''name'' (VStr name) @ kv ''kind'' (VStr kind) @ [LAttr (maybeModuleField module)])])"
| "event_calls (Invoking function module) =
     [(LogLevelDebug, ''Invoking'', kv ''function'' (VStr function) @ [LAttr (maybeModuleField module)])]"
| "event_calls (Invoked function module trace err) =
     (case err of
        Some e \<Rightarrow> [(LogLevelError, ''Invoke failed'', kv ''error'' (VAny e) @ kv ''stack'' (VStr trace) @ kv ''function'' (VStr function) @ [LAttr (maybeModuleField module)])]
      | None \<Rightarrow> [])"
| "event_calls (Stopping signal) = [(LogLevelDebug, ''Received signal'', kv ''signal'' (VStr (ToUpper signal)))]"
| "event_calls (Stopped err) =
     (case err of Some e \<Rightarrow> [(LogLevelError, ''Stop failed'', kv ''error'' (VAny e))] | None \<Rightarrow> [(LogLevelInfo, ''Stopped'', [])])"
| "event_calls (RollingBack startErr) = [(LogLevelError, ''Start failed, rolling back'', kv ''error'' (VAny startErr))]"
| "event_calls (RolledBack err) = (case err of Some e \<Rightarrow> [(LogLevelError, ''Rollback failed'', kv ''error'' (VAny e))] | None \<Rightarrow> [])"
| "event_calls (Started err) =
     (case err of Some e \<Rightarrow> [(LogLevelError, ''Start failed'', kv ''error'' (VAny e))] | None \<Rightarrow> [(LogLevelInfo, ''Started'', [])])"
| "event_calls (LoggerInitialized constructor err) =
     (case err of
        Some e \<Rightarrow> [(LogLevelError, ''custom logger initialization failed'', kv ''error'' (VAny e))]
      | None \<Rightarrow> [(LogLevelDebug, ''initialized custom fxevent.Logger'', kv ''function'' (VStr constructor))])"
| "event_calls (UnknownEvent e) =
     [(LogLevelWarn, ''Unknown event!, you are using an fx version newer than what it is supported'', kv ''event'' (VAny e))]"

definition NewFxLogger :: "logger \<Rightarrow> logger" where
  "NewFxLogger lg = skip_callers 2 lg"

definition LogEvent :: "(log_attr \<Rightarrow> string) \<Rightarrow> int list \<Rightarrow> logger \<Rightarrow> fx_event \<Rightarrow> log_record list" where
  "LogEvent show levels lg e =
     concat (map (\<lambda>(level, msg, args). case log_at show level levels lg msg args of None \<Rightarrow> [] | Some r \<Rightarrow> [r]) (event_calls e))"

section \<open>Properties\<close>

lemmas adapter_defs = log_at_def log_args_def logAttrs_def Enabled_def

lemma skip_callers_level [simp]: "lg_Leveler (skip_callers n lg) = lg_Leveler lg"
  by (simp add: skip_callers_def)

lemma configureLogger_level [simp]: "lg_Leveler (configureLogger gl attrs) = lg_Leveler (gl_logger gl)"
  by (simp add: configureLogger_def WithAttrs_def)

lemma Level_same [simp]:
  "Level levels (skip_callers n lg) = Level levels lg" "Level levels (configureLogger gl attrs) = Level levels (gl_logger gl)"
  by (simp_all add: Level_def)

text \<open>The level at which a statement is traced: errors first, then slow statements, then all statements.\<close>

lemma gorm_trace_level:
  "map_option rc_level (Trace show dur levels gl ctxAttrs elapsed fc err) =
     (let l = Level levels (gl_logger gl);
          failed = (case err of None \<Rightarrow> False | Some (e, notFound) \<Rightarrow> \<not> (notFound \<and> gl_ignoreRecordNotFoundError gl))
      in if gl_silent gl then None
         else if failed then (if l \<le> LogLevelError then Some LogLevelError else None)
         else if elapsed > gl_slowThreshold gl \<and> gl_slowThreshold gl \<noteq> 0 \<and> l \<le> LogLevelWarn then Some LogLevelWarn
         else if l \<le> LogLevelTrace then Some LogLevelTrace else None)"
proof -
  have o: "LogLevelTrace \<le> LogLevelWarn" by (simp add: level_defs)
  show ?thesis by (cases fc) (auto simp: Trace_def adapter_defs Let_def split: option.splits prod.splits)
qed

text \<open>Asking for a quieter logger changes the level of the one that was asked: it no longer traces slow
  statements.\<close>

lemma log_mode_changes_original:
  assumes "LogMode GormSilent gl levels = Ret (gl', levels')" "lg_Leveler (gl_logger gl) < length levels"
  shows "Level levels' (gl_logger gl) = LogLevelError \<and> Trace show dur levels' gl ctxAttrs elapsed fc None = None"
proof -
  have l: "Level levels' (gl_logger gl) = LogLevelError" using assms by (auto simp: LogMode_def SetLevel_def Level_def)
  have "map_option rc_level (Trace show dur levels' gl ctxAttrs elapsed fc None) = None"
    by (simp add: gorm_trace_level l Let_def level_defs)
  then show ?thesis using l by simp
qed

text \<open>The error that an event carries.\<close>

fun event_err :: "fx_event \<Rightarrow> string option" where
  "event_err (OnStartExecuted callee caller err runtime) = err"
| "event_err (OnStopExecuted callee caller err runtime) = err"
| "event_err (Supplied type m err) = err"
| "event_err (Provided constructor m types private err) = err"
| "event_err (Replaced m types err) = err"
| "event_err (Decorated decorator m types err) = err"
| "event_err (RunEvent name kind module err) = err"
| "event_err (Invoked function module trace err) = err"
| "event_err (Stopped err) = err"
| "event_err (RollingBack startErr) = Some startErr"
| "event_err (RolledBack err) = err"
| "event_err (Started err) = err"
| "event_err (LoggerInitialized constructor err) = err"
| "event_err _ = None"

lemma event_levels:
  "event_err e = None \<Longrightarrow> (l, msg, args) \<in> set (event_calls e) \<Longrightarrow> l < LogLevelError"
  by (cases e) (auto simp: level_defs)

lemma argsToAttrSlice_kv [simp]:
  "argsToAttrSlice show (kv k v @ rest) = (k, v) # argsToAttrSlice show rest"
  "argsToAttrSlice show (kv k v) = [(k, v)]"
  "argsToAttrSlice show (trace_args m @ rest) =
     (''stacktrace'', VAny (fx_StackTrace m)) # (''moduletrace'', VAny (fx_ModuleTrace m)) # argsToAttrSlice show rest"
  "argsToAttrSlice show (module_arg m @ rest) = maybeModuleField (fx_ModuleName m) # argsToAttrSlice show rest"
  by (simp_all add: kv_def trace_args_def module_arg_def)

lemma event_error_call:
  assumes "event_err e = Some err"
  obtains msg args where "(LogLevelError, msg, args) \<in> set (event_calls e)" "(''error'', VAny err) \<in> set (argsToAttrSlice show args)"
proof -
  have "\<exists>c \<in> set (event_calls e). fst c = LogLevelError \<and> (''error'', VAny err) \<in> set (argsToAttrSlice show (snd (snd c)))"
    using assms by (cases e) (auto simp: bex_Un)
  then show ?thesis using that by (metis prod.collapse)
qed

text \<open>Every event of the injector that carries an error is logged at the error level with that error among its
  attributes, as long as the logger is enabled for errors, and an event without an error is never
  logged as one.\<close>

lemma failed_events_are_errors:
  assumes "Level levels lg \<le> LogLevelError"
  shows "case event_err e of
     Some err \<Rightarrow> \<exists>r \<in> set (LogEvent show levels lg e). rc_level r = LogLevelError \<and> (''error'', VAny err) \<in> set (rc_attrs r)
   | None \<Rightarrow> \<forall>r \<in> set (LogEvent show levels lg e). rc_level r < LogLevelError"
proof (cases "event_err e")
  case None
  then show ?thesis using event_levels[OF None] by (auto simp: LogEvent_def adapter_defs split: if_splits)
next
  case (Some err)
  obtain msg args where c: "(LogLevelError, msg, args) \<in> set (event_calls e)" "(''error'', VAny err) \<in> set (argsToAttrSlice show args)"
    using event_error_call[OF Some] .
  obtain r where "log_at show LogLevelError levels lg msg args = Some r" "rc_level r = LogLevelError" "(''error'', VAny err) \<in> set (rc_attrs r)"
    using assms c(2) by (simp add: adapter_defs)
  then show ?thesis using c(1) Some by (force simp: LogEvent_def)
qed

lemma failed_events_are_errors_witness:
  "\<exists>r \<in> set (LogEvent (\<lambda>a. []) [LogLevelInfo] (fst (NewLoggerWithWriter ''v1'' sample_conf ''fx'' Stdout [])) (Invoked ''main'' [] ''trace'' (Some ''boom''))).
     rc_level r = LogLevelError \<and> (''error'', VAny ''boom'') \<in> set (rc_attrs r)"
  using failed_events_are_errors[of "[LogLevelInfo]" "fst (NewLoggerWithWriter ''v1'' sample_conf ''fx'' Stdout [])"
      "\<lambda>a. []" "Invoked ''main'' [] ''trace'' (Some ''boom'')"]
  by (simp add: NewLoggerWithWriter_def sample_conf_def Level_def level_defs Let_def)

end
