(* ===== verification/RequestLog.thy ===== *)
theory RequestLog
  imports Logging
begin

text \<open>
  What the request logger writes (\<^verbatim>\<open>rest/middleware/request_logger.go\<close>): the attributes of a request, with the host and the
  port taken from the host of the request by Go's \<^verbatim>\<open>net/url\<close>, and the records at its start and end. Requests,
  responses and the spans of Datadog are given by the values the code reads from them.
\<close>

section \<open>Host and port\<close>

definition is_digit :: "char \<Rightarrow> bool" where
  "is_digit c \<longleftrightarrow> (let n = (of_char c :: nat) in 48 \<le> n \<and> n \<le> 57)"

text \<open>\<^verbatim>\<open>splitHostPort\<close> of \<^verbatim>\<open>net/url\<close>, for \<^verbatim>\<open>Hostname\<close> and \<^verbatim>\<open>Port\<close>: the text after the last colon is the port if it is made of
  digits; brackets around the host are taken off.\<close>

definition splitHostPort :: "string \<Rightarrow> string \<times> string" where
  "splitHostPort hostPort =
     (let after = rev (takeWhile (\<lambda>c. c \<noteq> CHR '':'') (rev hostPort));
          (host, port) = (if CHR '':'' \<in> set hostPort \<and> list_all is_digit after
                          then (take (length hostPort - length after - 1) hostPort, after) else (hostPort, []))
      in (if HasPrefix host ''['' \<and> HasSuffix host '']'' then take (length host - 2) (drop 1 host) else host, port))"

text \<open>\<^verbatim>\<open>strconv.Atoi\<close> on digits: it fails for numbers that do not fit.\<close>

definition digits_value :: "string \<Rightarrow> int" where
  "digits_value s = foldl (\<lambda>n c. 10 * n + (int (of_char c) - 48)) 0 s"

definition Atoi :: "string \<Rightarrow> int option" where
  "Atoi s = (if s \<noteq> [] \<and> list_all is_digit s \<and> digits_value s < 2 ^ 63 then Some (digits_value s) else None)"

section \<open>Attributes of a request\<close>

record request =
  rq_Method :: string
  rq_RequestURI :: string
  rq_RequestID :: string
  rq_Referer :: string
  rq_UserAgent :: string
  rq_Proto :: string
  rq_Host :: string
  rq_Path :: string
  rq_Query :: string
  rq_ClientIP :: string

definition port_attr :: "string \<Rightarrow> log_attr" where
  "port_attr portStr = (if portStr \<noteq> [] then (case Atoi portStr of Some port \<Rightarrow> (''port'', VInt port) | None \<Rightarrow> SkipAttr) else SkipAttr)"

text \<open>\<open>tracing\<close> is whether tracing is on, and then the identifiers of the trace and the span, if there is one.\<close>

definition request_attrs :: "string \<Rightarrow> (int \<times> int) option option \<Rightarrow> request \<Rightarrow> log_attr list" where
  "request_attrs uuid tracing rq =
     (let (hostname, portStr) = splitHostPort (rq_Host rq)
      in [(''http'', VGroup
             [(''method'', VStr (rq_Method rq)), (''url'', VStr (rq_RequestURI rq)),
              (''request_id'', VStr (request_id (rq_RequestID rq) uuid)), (''referer'', VStr (rq_Referer rq)),
              (''useragent'', VStr (rq_UserAgent rq)), (''version'', VStr (rq_Proto rq)),
              (''url_details'', VGroup [(''host'', VStr hostname), port_attr portStr, (''path'', VStr (rq_Path rq)), (''queryString'', VAny (rq_Query rq))])]),
          (''network.client.ip'', VStr (rq_ClientIP rq))] @
         (case tracing of Some (Some (trace, span)) \<Rightarrow> [(''dd.trace_id'', VInt trace), (''dd.span_id'', VInt span)] | _ \<Rightarrow> []))"

definition request_log_level :: "int \<Rightarrow> int" where
  "request_log_level status = (if status \<ge> 500 then LogLevelError else if status \<ge> 400 then LogLevelWarn else LogLevelInfo)"

text \<open>The records of \<open>Run\<close>: \<open>start\<close> and \<open>finish\<close> are the loggers it gets at the start and at the end, which already have
  the attributes of the context.\<close>

definition Run_records ::
  "(log_attr \<Rightarrow> string) \<Rightarrow> int list \<Rightarrow> string set \<Rightarrow> string \<Rightarrow> (int \<times> int) option option \<Rightarrow> logger \<Rightarrow> logger \<Rightarrow> logger \<Rightarrow> string \<Rightarrow> request \<Rightarrow> int \<Rightarrow> int \<Rightarrow> log_record list" where
  "Run_records show levels excludeMap uuid tracing caller start finish fullPath rq status latency =
     (let opt = (\<lambda>r. case r of None \<Rightarrow> [] | Some x \<Rightarrow> [x])
      in (if tracing = Some None
          then opt (logf_at (\<lambda>f args. f) LogLevelError levels (WithAttrs (request_attrs uuid tracing rq) caller)
                      ''tracing is enabled but there is no span in the context!'' ([] :: unit list))
          else []) @
         (if fullPath \<in> excludeMap then []
          else opt (logf_at (\<lambda>f args. f) LogLevelDebug levels start (''Req Start: '' @ rq_Path rq) ([] :: unit list)) @
               opt (Log show levels finish (request_log_level status) (''Req End: '' @ rq_Path rq)
                      [LAttr (''http.status_code'', VInt status), LAttr (''duration'', VDuration latency)])))"

section \<open>Properties\<close>

text \<open>A host with a port of digits is taken apart, with and without brackets; a host without a port has none.\<close>

lemma takeWhile_rev_digits:
  "list_all is_digit p \<Longrightarrow> takeWhile (\<lambda>c. c \<noteq> CHR '':'') (rev p @ CHR '':'' # rev h) = rev p"
proof -
  assume p: "list_all is_digit p"
  have "c \<noteq> CHR '':''" if "is_digit c" for c using that by (auto simp: is_digit_def Let_def)
  then have "\<forall>c \<in> set (rev p). c \<noteq> CHR '':''" using p by (auto simp: list_all_iff)
  then show ?thesis by (simp add: takeWhile_append2 del: set_rev)
qed

lemma host_and_port:
  "list_all is_digit p \<Longrightarrow> CHR ''['' \<notin> set h \<Longrightarrow> splitHostPort (h @ '':'' @ p) = (h, p) \<and> splitHostPort (''['' @ h @ '']:'' @ p) = (h, p)"
  "CHR '':'' \<notin> set h \<Longrightarrow> CHR ''['' \<notin> set h \<Longrightarrow> splitHostPort h = (h, [])"
proof -
  assume p: "list_all is_digit p" and h: "CHR ''['' \<notin> set h"
  have n: "\<not> HasPrefix h ''[''" using h by (cases h) (auto simp: HasPrefix_def)
  have s: "HasSuffix (CHR ''['' # h @ '']'') '']''" by (simp add: HasSuffix_def)
  have "splitHostPort (h @ '':'' @ p) = (h, p)"
    using takeWhile_rev_digits[OF p, of h] p n by (simp add: splitHostPort_def Let_def)
  moreover have "splitHostPort (''['' @ h @ '']:'' @ p) = (h, p)"
    using takeWhile_rev_digits[OF p, of "''['' @ h @ '']''"] p s by (simp add: splitHostPort_def HasPrefix_def Let_def)
  ultimately show "splitHostPort (h @ '':'' @ p) = (h, p) \<and> splitHostPort (''['' @ h @ '']:'' @ p) = (h, p)" by simp
next
  assume h: "CHR '':'' \<notin> set h" "CHR ''['' \<notin> set h"
  have n: "\<not> HasPrefix h ''[''" using h(2) by (cases h) (auto simp: HasPrefix_def)
  show "splitHostPort h = (h, [])" using h n by (simp add: splitHostPort_def Let_def)
qed

text \<open>A request that is not excluded ends with exactly one record at its end, if the logger is enabled for the level
  of its status: errors from 500 on, warnings from 400 on.\<close>

lemma request_end_record:
  assumes "fullPath \<notin> excludeMap" "Level levels finish \<le> request_log_level status"
  shows "\<exists>r. last (Run_records show levels excludeMap uuid tracing caller start finish fullPath rq status latency) = r \<and>
     rc_level r = request_log_level status \<and> (''http.status_code'', VInt status) \<in> set (rc_attrs r)"
  using assms by (simp add: Run_records_def Log_def log_args_def logAttrs_def Enabled_def Let_def)

end
