(* ===== verification/Slack.thy ===== *)
theory Slack
  imports LogAdapters
begin

text \<open>
  Notifications in Slack (\<^verbatim>\<open>slack/slack_client.go\<close>) and the logger that sends them for the start and the stop of the
  application (\<^verbatim>\<open>slack/fx_logger.go\<close>): the two templates of the message with the part of \<^verbatim>\<open>text/template\<close> that they use, the
  choice of the webhook and the answer of the server. Texts are UTF-8 bytes; the HTTP client, the hash of
  a URL, \<^verbatim>\<open>fmt.Sprintf\<close> and \<^verbatim>\<open>strcase.ToCamel\<close> are arguments.
\<close>

section \<open>Templates\<close>

definition tabs :: "nat \<Rightarrow> string" where
  "tabs n = replicate n (CHR 0x09)"

definition contextSectionTemplateSrc :: string where
  \<open>contextSectionTemplateSrc = Join
     [''{'', tabs 3 @ ''"type": "divider"'', tabs 2 @ ''},'', tabs 2 @ ''{'', tabs 3 @ ''"type": "context",'', tabs 3 @ ''"elements": ['',
      tabs 4 @ ''{'', tabs 5 @ ''"type": "mrkdwn",'', tabs 5 @ ''"text": "*EnvType*'' @ [CHR 0x5C] @ ''t'' @ [CHR 0x5C] @ ''n{{.env_type}}"'', tabs 4 @ ''},'',
      tabs 4 @ ''{'', tabs 5 @ ''"type": "mrkdwn",'', tabs 5 @ ''"text": "*EnvName*'' @ [CHR 0x5C] @ ''t'' @ [CHR 0x5C] @ ''n{{.env_name}}"'', tabs 4 @ ''},'',
      tabs 4 @ ''{'', tabs 5 @ ''"type": "mrkdwn",'', tabs 5 @ ''"text": "*Host*'' @ [CHR 0x5C] @ ''t'' @ [CHR 0x5C] @ ''n{{.host}}"'', tabs 4 @ ''},'',
      tabs 4 @ ''{'', tabs 5 @ ''"type": "mrkdwn",'', tabs 5 @ ''"text": "*Release*'' @ [CHR 0x5C] @ ''t'' @ [CHR 0x5C] @ ''n{{.release}}"'', tabs 4 @ ''},'',
      tabs 4 @ ''{'', tabs 5 @ ''"type": "mrkdwn",'', tabs 5 @ ''"text": "*Commit*'' @ [CHR 0x5C] @ ''t'' @ [CHR 0x5C] @ ''n{{.commit}}"'', tabs 4 @ ''},'',
      tabs 4 @ ''{'', tabs 5 @ ''"type": "mrkdwn",'', tabs 5 @ ''"text": "*BuildTime*'' @ [CHR 0x5C] @ ''t'' @ [CHR 0x5C] @ ''n{{.build_time}}"'', tabs 4 @ ''}'',
      tabs 3 @ '']'', tabs 2 @ ''},'', tabs 2 @ ''{'', tabs 3 @ ''"type": "divider"'', tabs 2 @ ''}''] [CHR 0x0A]\<close>

definition fullMsgTemplateSrc :: string where
  \<open>fullMsgTemplateSrc = Join
     [''{'', tabs 1 @ ''"blocks": ['', tabs 2 @ ''{'', tabs 3 @ ''"type": "header",'', tabs 3 @ ''"text": {'', tabs 4 @ ''"type": "plain_text",'',
      tabs 4 @ ''"text": "{{.level_msg}}: {{.service_name}}",'', tabs 4 @ ''"emoji": true'', tabs 3 @ ''}'', tabs 2 @ ''},'',
      tabs 2 @ ''{'', tabs 3 @ ''"type": "section",'', tabs 3 @ ''"text": {'', tabs 4 @ ''"type": "mrkdwn",'',
      tabs 4 @ ''"text": "{{.main_msg | js}}"'', tabs 3 @ ''}'', tabs 2 @ ''},'', tabs 2 @ ''${context_section}'', tabs 1 @ '']'', ''}''] [CHR 0x0A]\<close>

text \<open>The function \<open>js\<close> of templates: quotes, the backslash and some other characters are escaped. A byte that is not
  ASCII belongs to a printable rune and is kept.\<close>

definition hex_upper :: "nat \<Rightarrow> char" where
  "hex_upper d = (if d < 10 then char_of (48 + d) else char_of (55 + d))"

definition js_char :: "char \<Rightarrow> string" where
  "js_char c =
     (let n = (of_char c :: nat)
      in if n = 0x5C \<or> n = 0x27 \<or> n = 0x22 then [CHR 0x5C, c]
         else if n < 32 \<or> n = 0x3C \<or> n = 0x3E \<or> n = 0x26 \<or> n = 0x3D
         then CHR 0x5C # ''u00'' @ [hex_upper (n div 16), hex_upper (n mod 16)]
         else [c])"

definition js_escape :: "string \<Rightarrow> string" where
  "js_escape s = concat (map js_char s)"

text \<open>The text up to the end of an action, and what follows it.\<close>

fun action_end :: "string \<Rightarrow> string \<times> string" where
  "action_end [] = ([], [])"
| "action_end (c # s) = (if HasPrefix (c # s) ''}}'' then ([], drop 1 s) else (case action_end s of (a, r) \<Rightarrow> (c # a, r)))"

lemma action_end_shorter: "length (snd (action_end s)) \<le> length s"
  by (induction s) (auto simp: case_prod_beta)

text \<open>Running a template whose actions are data of a map, perhaps through \<open>js\<close>.\<close>

definition action_text :: "(string \<rightharpoonup> string) \<Rightarrow> string \<Rightarrow> string" where
  "action_text data a =
     (let name = TrimSuffix a '' | js''; v = (case data name of Some v \<Rightarrow> v | None \<Rightarrow> ''<no value>'')
      in if HasSuffix a '' | js'' then js_escape v else v)"

function template_Execute :: "(string \<rightharpoonup> string) \<Rightarrow> string \<Rightarrow> string" where
  "template_Execute data [] = []"
| "template_Execute data (c # s) =
     (if HasPrefix (c # s) ''{{.''
      then (case action_end (drop 2 s) of (a, r) \<Rightarrow> action_text data a @ template_Execute data r)
      else c # template_Execute data s)"
  by pat_completeness auto
termination
proof (relation "measure (\<lambda>(data, s). length s)", goal_cases)
  case (2 data c s a r)
  then have "length r \<le> length (drop 2 s)" using action_end_shorter[of "drop 2 s"] by (metis snd_conv)
  then show ?case by simp
qed simp_all

section \<open>The client\<close>

record slack_conf =
  sl_Name :: string
  sl_EnvType :: string
  sl_EnvName :: string
  sl_Host :: string
  sl_Enabled :: bool
  sl_HTTPTimeoutSeconds :: int

text \<open>The version of the application: release, commit and time of the build.\<close>

record build_info =
  bi_Release :: string
  bi_Commit :: string
  bi_BuildTime :: string

text \<open>A message is sent on a channel; the text of a channel starts with an emoji.\<close>

datatype channel = Info | Warn | Error | OtherChannel string

fun channel_text :: "channel \<Rightarrow> string" where
  "channel_text Info = [CHR 0xE2, CHR 0x84, CHR 0xB9, CHR 0xEF, CHR 0xB8, CHR 0x8F] @ '' Info''"
| "channel_text Warn = [CHR 0xE2, CHR 0x9A, CHR 0xA0, CHR 0xEF, CHR 0xB8, CHR 0x8F] @ '' Warn''"
| "channel_text Error = [CHR 0xE2, CHR 0x9D, CHR 0x97, CHR 0xEF, CHR 0xB8, CHR 0x8F] @ ''Error''"
| "channel_text (OtherChannel c) = c"

record webhooks =
  wh_Info :: string
  wh_Warn :: string
  wh_Error :: string

record client =
  cl_conf :: slack_conf
  cl_urls :: webhooks
  cl_build :: build_info
  cl_fullMsgTemplate :: string

definition context_fields :: "(string \<Rightarrow> string) \<Rightarrow> slack_conf \<Rightarrow> build_info \<Rightarrow> string \<rightharpoonup> string" where
  "context_fields camel conf b =
     [''env_type'' \<mapsto> camel (sl_EnvType conf), ''env_name'' \<mapsto> camel (sl_EnvName conf), ''host'' \<mapsto> sl_Host conf,
      ''release'' \<mapsto> bi_Release b, ''commit'' \<mapsto> bi_Commit b, ''build_time'' \<mapsto> bi_BuildTime b]"

text \<open>No client is made when notifications are disabled.\<close>

definition NewSlackClient :: "(string \<Rightarrow> string) \<Rightarrow> build_info \<Rightarrow> slack_conf \<Rightarrow> webhooks \<Rightarrow> client option go" where
  "NewSlackClient camel b conf urls =
     (if \<not> sl_Enabled conf then Ret None
      else if wh_Error urls = [] \<and> wh_Warn urls = [] \<and> wh_Info urls = []
      then Panic ''no Slack Webhook URLs configured, but it was explicitly enabled''
      else Ret (Some \<lparr>cl_conf = conf, cl_urls = urls, cl_build = b,
             cl_fullMsgTemplate = ReplaceAll fullMsgTemplateSrc ''${context_section}''
                                    (template_Execute (context_fields camel conf b) contextSectionTemplateSrc)\<rparr>))"

fun firstNonEmpty :: "string list \<Rightarrow> string" where
  "firstNonEmpty [] = []"
| "firstNonEmpty (v # s) = (if v \<noteq> [] then v else firstNonEmpty s)"

fun getWebhookURL :: "webhooks \<Rightarrow> channel \<Rightarrow> string go" where
  "getWebhookURL urls Info = Ret (wh_Info urls)"
| "getWebhookURL urls Warn = Ret (firstNonEmpty [wh_Warn urls, wh_Info urls])"
| "getWebhookURL urls Error = Ret (firstNonEmpty [wh_Error urls, wh_Warn urls, wh_Info urls])"
| "getWebhookURL urls (OtherChannel c) = Panic (''invalid SlackWebhookChannelType: '' @ c)"

text \<open>The network: the answer of the HTTP client to a request, an error or a status with the body, if it could be
  read; \<open>sha256\<close> is the hash in hexadecimal. The result is the error and the requests that were made.\<close>

record network =
  nw_Post :: "string \<Rightarrow> string \<Rightarrow> string + (nat \<times> string option)"
  nw_sha256 :: "string \<Rightarrow> string"

definition sendRaw :: "network \<Rightarrow> client \<Rightarrow> channel \<Rightarrow> string \<Rightarrow> (string option \<times> (string \<times> string) list) go" where
  "sendRaw nw cl c body =
     go_bind (getWebhookURL (cl_urls cl) c) (\<lambda>url.
       if url = [] then Ret (None, [])
       else Ret (case nw_Post nw url body of
                   Inl e \<Rightarrow> Some (''failed to send HTTP request to: '' @ take (length url div 2) url @ ''...'' @
                                  '', urlSHA256: '' @ nw_sha256 nw url @ '', error: '' @ e)
                 | Inr (code, reply) \<Rightarrow>
                     if code div 100 \<noteq> 2
                     then Some (''slack request not successful, code: '' @ show_nat code @ '', body: '' @
                                (case reply of None \<Rightarrow> ''<error reading body>'' | Some b \<Rightarrow> b))
                     else None, [(url, body)]))"

definition Send_fields :: "(string \<Rightarrow> 'a list \<Rightarrow> string) \<Rightarrow> client \<Rightarrow> channel \<Rightarrow> string \<Rightarrow> 'a list \<Rightarrow> string \<rightharpoonup> string" where
  "Send_fields sprintf cl c message args =
     [''service_name'' \<mapsto> sl_Name (cl_conf cl), ''level_msg'' \<mapsto> channel_text c, ''main_msg'' \<mapsto> sprintf message args,
      ''env_type'' \<mapsto> sl_EnvType (cl_conf cl), ''env_name'' \<mapsto> sl_EnvName (cl_conf cl), ''host'' \<mapsto> sl_Host (cl_conf cl),
      ''release'' \<mapsto> bi_Release (cl_build cl), ''commit'' \<mapsto> bi_Commit (cl_build cl), ''build_time'' \<mapsto> bi_BuildTime (cl_build cl)]"

definition Send ::
  "network \<Rightarrow> (string \<Rightarrow> 'a list \<Rightarrow> string) \<Rightarrow> client \<Rightarrow> channel \<Rightarrow> string \<Rightarrow> 'a list \<Rightarrow> (string option \<times> (string \<times> string) list) go" where
  "Send nw sprintf cl c message args =
     sendRaw nw cl c (template_Execute (Send_fields sprintf cl c message args) (cl_fullMsgTemplate cl))"

text \<open>A message given by blocks is encoded by \<^verbatim>\<open>encoding/json\<close>, which may fail.\<close>

definition SendWithBlocks ::
  "network \<Rightarrow> ('b \<Rightarrow> string + string) \<Rightarrow> client \<Rightarrow> channel \<Rightarrow> 'b \<Rightarrow> (string option \<times> (string \<times> string) list) go" where
  "SendWithBlocks nw marshal cl c blocks =
     (case marshal blocks of
        Inl e \<Rightarrow> Ret (Some (''error building payload: '' @ e), [])
      | Inr body \<Rightarrow> sendRaw nw cl c body)"

section \<open>The logger of the injector\<close>

text \<open>Every event goes to the logger below; the end of the start and of the stop are sent as messages, and a
  message that cannot be sent is logged. \<open>dump\<close> is the text of an event. The result is the records, the
  requests, or the panic of an unknown channel.\<close>

definition failed_text :: "string \<Rightarrow> string \<Rightarrow> string" where
  "failed_text what err = ''Application *failed* to '' @ what @ '': ```'' @ err @ ''```''"

fun event_message :: "fx_event \<Rightarrow> (channel \<times> string) option" where
  "event_message (Started (Some err)) = Some (Error, failed_text ''start'' err)"
| "event_message (Started None) = Some (Info, ''Application *successfully* started '' @ [CHR 0xF0, CHR 0x9F, CHR 0x9F, CHR 0xA2])"
| "event_message (Stopped (Some err)) = Some (Error, failed_text ''stop cleanly'' err)"
| "event_message (Stopped None) = Some (Info, ''Application *successfully* stopped '' @ [CHR 0xF0, CHR 0x9F, CHR 0x94, CHR 0xB4])"
| "event_message _ = None"

definition fx_LogEvent ::
  "network \<Rightarrow> (log_attr \<Rightarrow> string) \<Rightarrow> (fx_event \<Rightarrow> string) \<Rightarrow> int list \<Rightarrow> client \<Rightarrow> logger \<Rightarrow> logger \<Rightarrow> fx_event \<Rightarrow>
     (log_record list \<times> (string \<times> string) list) go" where
  "fx_LogEvent nw show dump levels cl fxLogger lg e =
     (let rs = LogEvent show levels fxLogger e
      in case event_message e of
           None \<Rightarrow> Ret (rs, [])
         | Some (c, text) \<Rightarrow>
             go_bind (Send nw (\<lambda>message args. message) cl c text ([] :: unit list)) (\<lambda>(err, posts).
               Ret (rs @ (case err of
                            None \<Rightarrow> []
                          | Some m \<Rightarrow>
                              (case logf_at (\<lambda>f args. f) LogLevelWarn levels lg
                                      (''Failed to send slack message for event: '' @ dump e @ '', error: '' @ m) ([] :: unit list) of
                                 None \<Rightarrow> [] | Some r \<Rightarrow> [r])), posts)))"

section \<open>Properties\<close>

text \<open>A message goes to its own channel or to a less severe one, and is silently dropped when none is
  configured.\<close>

lemma message_needs_webhook:
  "wh_Info (cl_urls cl) = [] \<Longrightarrow> sendRaw nw cl Info body = Ret (None, [])"
  "wh_Error (cl_urls cl) = [] \<and> wh_Warn (cl_urls cl) = [] \<and> wh_Info (cl_urls cl) = [] \<Longrightarrow> sendRaw nw cl Error body = Ret (None, [])"
  by (auto simp: sendRaw_def)

text \<open>Reading the inside of a string of JSON (RFC 8259): bytes from the space on other than the quote and the
  backslash stand for themselves, and only some characters may follow a backslash.\<close>

definition hex_digit :: "char \<Rightarrow> nat option" where
  "hex_digit c = (let n = of_char c in if 48 \<le> n \<and> n \<le> 57 then Some (n - 48) else if 65 \<le> n \<and> n \<le> 70 then Some (n - 55)
     else if 97 \<le> n \<and> n \<le> 102 then Some (n - 87) else None)"

definition utf8 :: "nat \<Rightarrow> string" where
  "utf8 n = (if n < 0x80 then [char_of n] else if n < 0x800 then [char_of (0xC0 + n div 64), char_of (0x80 + n mod 64)]
     else [char_of (0xE0 + n div 4096), char_of (0x80 + n div 64 mod 64), char_of (0x80 + n mod 64)])"

fun json_read :: "string \<Rightarrow> string option" where
  "json_read [] = Some []"
| "json_read (c # s) =
     (if c = CHR 0x22 \<or> (of_char c :: nat) < 32 then None
      else if c \<noteq> CHR 0x5C then map_option (Cons c) (json_read s)
      else (case s of
              [] \<Rightarrow> None
            | e # r \<Rightarrow>
                if e = CHR 0x22 \<or> e = CHR 0x5C \<or> e = CHR ''/'' then map_option (Cons e) (json_read r)
                else if e = CHR ''b'' then map_option (Cons (CHR 0x08)) (json_read r)
                else if e = CHR ''f'' then map_option (Cons (CHR 0x0C)) (json_read r)
                else if e = CHR ''n'' then map_option (Cons (CHR 0x0A)) (json_read r)
                else if e = CHR ''r'' then map_option (Cons (CHR 0x0D)) (json_read r)
                else if e = CHR ''t'' then map_option (Cons (CHR 0x09)) (json_read r)
                else if e = CHR ''u''
                then (case r of
                        h1 # h2 # h3 # h4 # r' \<Rightarrow>
                          (case (hex_digit h1, hex_digit h2, hex_digit h3, hex_digit h4) of
                             (Some a, Some b, Some c, Some d) \<Rightarrow> map_option ((@) (utf8 (((a * 16 + b) * 16 + c) * 16 + d))) (json_read r')
                           | _ \<Rightarrow> None)
                      | _ \<Rightarrow> None)
                else None))"

declare json_read.simps(2) [simp del]

lemma hex_digit_upper: "d < 16 \<Longrightarrow> hex_digit (hex_upper d) = Some d"
  by (auto simp: hex_digit_def hex_upper_def Let_def)

lemma json_read_js_char: "json_read (js_char c @ s) = (if c = CHR 0x27 then None else map_option (Cons c) (json_read s))"
proof -
  define n where "n = (of_char c :: nat)"
  have c: "c = char_of n" by (simp add: n_def)
  have byte: "c = d \<longleftrightarrow> n = of_char d" for d unfolding n_def by (simp only: of_char_eq_iff)
  have special: "c = CHR 0x22 \<longleftrightarrow> n = 0x22" "c = CHR 0x5C \<longleftrightarrow> n = 0x5C" "c = CHR 0x27 \<longleftrightarrow> n = 0x27"
    using byte[of "CHR 0x22"] byte[of "CHR 0x5C"] byte[of "CHR 0x27"] by simp_all
  consider "n = 0x5C \<or> n = 0x22" | "n = 0x27" | "n < 32 \<or> n = 0x3C \<or> n = 0x3E \<or> n = 0x26 \<or> n = 0x3D"
    | "n \<ge> 32" "n \<notin> {0x5C, 0x22, 0x27, 0x3C, 0x3E, 0x26, 0x3D}"
    by (cases "n < 32") auto
  then show ?thesis
  proof cases
    case 1
    then have "js_char c = [CHR 0x5C, c]" by (auto simp: js_char_def Let_def simp flip: n_def)
    moreover have "c = CHR 0x22 \<or> c = CHR 0x5C" using 1 special by auto
    ultimately show ?thesis by (auto simp: json_read.simps(2))
  next
    case 2
    then have "js_char c = [CHR 0x5C, CHR 0x27]" "c = CHR 0x27" using special by (auto simp: js_char_def Let_def simp flip: n_def)
    then show ?thesis by (simp add: json_read.simps(2))
  next
    case 3
    then have j: "js_char c = CHR 0x5C # ''u00'' @ [hex_upper (n div 16), hex_upper (n mod 16)]"
      by (auto simp: js_char_def Let_def simp flip: n_def)
    have lt: "n < 128" using 3 by auto
    then have h: "hex_digit (hex_upper (n div 16)) = Some (n div 16)" "hex_digit (hex_upper (n mod 16)) = Some (n mod 16)"
      by (simp_all add: hex_digit_upper)
    have z: "hex_digit (CHR ''0'') = Some 0" by (simp add: hex_digit_def)
    have "n div 16 * 16 + n mod 16 = n" by simp
    then have "utf8 (n div 16 * 16 + n mod 16) = [c]" using lt c by (simp add: utf8_def)
    moreover have "(@) [c] = Cons c" by auto
    moreover have "c \<noteq> CHR 0x27" using 3 special by auto
    ultimately show ?thesis using h z by (simp add: j json_read.simps(2))
  next
    case 4
    then have "js_char c = [c]" by (auto simp: js_char_def Let_def simp flip: n_def)
    moreover have "c \<noteq> CHR 0x22" "c \<noteq> CHR 0x5C" "c \<noteq> CHR 0x27" using 4 special by auto
    ultimately show ?thesis using 4(1) by (simp add: json_read.simps(2) flip: n_def)
  qed
qed

text \<open>The text of a notification, escaped by the template and put between quotes, reads back as that text in JSON
  if it has no apostrophe; with an apostrophe the body is not JSON at all, because the escape is that
  of JavaScript.\<close>

lemma notification_text_reads_back:
  "json_read (action_text (Send_fields sprintf cl c message args) ''main_msg | js'') =
     (if CHR 0x27 \<in> set (sprintf message args) then None else Some (sprintf message args))"
proof -
  have r: "json_read (js_escape s) = (if CHR 0x27 \<in> set s then None else Some s)" for s
    by (induction s) (auto simp: js_escape_def json_read_js_char)
  have "HasSuffix ''main_msg | js'' '' | js''" "TrimSuffix ''main_msg | js'' '' | js'' = ''main_msg''" by code_simp+
  then show ?thesis by (simp add: action_text_def Send_fields_def Let_def r)
qed

section \<open>Messages by channel\<close>

definition Infof where "Infof nw sprintf cl message args = Send nw sprintf cl Info message args"
definition Infob where "Infob nw marshal cl blocks = SendWithBlocks nw marshal cl Info blocks"
definition Warnf where "Warnf nw sprintf cl message args = Send nw sprintf cl Warn message args"
definition Warnb where "Warnb nw marshal cl blocks = SendWithBlocks nw marshal cl Warn blocks"
definition Errorf where "Errorf nw sprintf cl message args = Send nw sprintf cl Error message args"
definition Errorb where "Errorb nw marshal cl blocks = SendWithBlocks nw marshal cl Error blocks"

text \<open>None of them panics, as their channels are known.\<close>

lemma channels_do_not_panic:
  "Infof nw sprintf cl message args \<noteq> Panic p" "Warnf nw sprintf cl message args \<noteq> Panic p"
  "Errorf nw sprintf cl message args \<noteq> Panic p" "Infob nw mar cl blocks \<noteq> Panic p"
  "Warnb nw mar cl blocks \<noteq> Panic p" "Errorb nw mar cl blocks \<noteq> Panic p"
  by (simp_all add: Infof_def Warnf_def Errorf_def Infob_def Warnb_def Errorb_def Send_def SendWithBlocks_def sendRaw_def Let_def
      split: sum.split option.split)

section \<open>The factory of the logger of the injector\<close>

text \<open>The factory is replaced only when there is a client.\<close>

datatype 'l fx_factory = OtherFactory 'l | SlackFactory client 'l logger

record 'l slack_fx_logger =
  fl_client :: client
  fl_fxLogger :: 'l
  fl_logger :: logger

datatype 'l created = OtherLogger 'l | SlackLogger "'l slack_fx_logger"

definition NewFxLogger :: "client \<Rightarrow> 'l \<Rightarrow> logger \<Rightarrow> 'l slack_fx_logger" where
  "NewFxLogger cl fxl l = \<lparr>fl_client = cl, fl_fxLogger = fxl, fl_logger = l\<rparr>"

definition CreateLogger :: "'l fx_factory \<Rightarrow> 'l created" where
  "CreateLogger f = (case f of OtherFactory l \<Rightarrow> OtherLogger l | SlackFactory cl fxl l \<Rightarrow> SlackLogger (NewFxLogger cl fxl l))"

definition NewFxLoggerFactory :: "'l \<Rightarrow> client option \<Rightarrow> logger \<Rightarrow> 'l fx_factory" where
  "NewFxLoggerFactory fxl slackClient l = (case slackClient of None \<Rightarrow> OtherFactory fxl | Some cl \<Rightarrow> SlackFactory cl fxl l)"

lemma factory_keeps_logger:
  "CreateLogger (NewFxLoggerFactory fxl None l) = OtherLogger fxl"
  "CreateLogger (NewFxLoggerFactory fxl (Some cl) l) = SlackLogger \<lparr>fl_client = cl, fl_fxLogger = fxl, fl_logger = l\<rparr>"
  by (simp_all add: CreateLogger_def NewFxLoggerFactory_def NewFxLogger_def)

end
