(* ===== verification/Router.thy ===== *)
theory Router
  imports Middleware
begin

text \<open>
  The router group of \<^verbatim>\<open>rest/gin_routergroup.go\<close> and \<^verbatim>\<open>rest/gin_routergroup_internal.go\<close>, which keeps metadata for routes. How Gin joins the path of a group
  with a relative path is an argument (\<open>join\<close>); the handlers of a route are left out, as they only go to
  Gin.
\<close>

section \<open>Metadata of routes\<close>

text \<open>The mapping is shared by all groups made from one root.\<close>

type_synonym 'm mapping = "string \<rightharpoonup> (string \<rightharpoonup> 'm list)"

record 'm router_group =
  gr_BasePath :: string
  gr_metadata :: "'m list"

definition NewGinRouterGroup :: "string \<Rightarrow> 'm router_group \<times> 'm mapping" where
  "NewGinRouterGroup basePath = (\<lparr>gr_BasePath = basePath, gr_metadata = []\<rparr>, Map.empty)"

definition addMeta :: "'m router_group \<Rightarrow> string \<Rightarrow> string \<Rightarrow> 'm option \<Rightarrow> 'm mapping \<Rightarrow> 'm mapping" where
  "addMeta g relativePath httpMethod metadata byPath =
     (let fullPath = path_Join [gr_BasePath g, relativePath];
          pathMapping = (case byPath fullPath of None \<Rightarrow> Map.empty | Some pm \<Rightarrow> pm);
          before = (case pathMapping httpMethod of None \<Rightarrow> gr_metadata g | Some ms \<Rightarrow> ms);
          after = (case metadata of None \<Rightarrow> before | Some m \<Rightarrow> before @ [m])
      in byPath(fullPath \<mapsto> pathMapping(httpMethod \<mapsto> after)))"

definition GetMetaByFullPath :: "'m mapping \<Rightarrow> string \<Rightarrow> string \<Rightarrow> 'm list" where
  "GetMetaByFullPath byPath fullPath httpMethod =
     (case byPath fullPath of None \<Rightarrow> [] | Some pm \<Rightarrow> (case pm httpMethod of None \<Rightarrow> [] | Some ms \<Rightarrow> ms))"

definition HandleWithMeta :: "'m router_group \<Rightarrow> string \<Rightarrow> string \<Rightarrow> 'm option \<Rightarrow> 'm mapping \<Rightarrow> 'm mapping" where
  "HandleWithMeta g httpMethod relativePath metadata byPath = addMeta g relativePath httpMethod metadata byPath"

definition Handle :: "'m router_group \<Rightarrow> string \<Rightarrow> string \<Rightarrow> 'm mapping \<Rightarrow> 'm mapping" where
  "Handle g httpMethod relativePath byPath = addMeta g relativePath httpMethod None byPath"

text \<open>The loop of \<open>MatchWithMeta\<close> returns in its first round.\<close>

fun MatchWithMeta :: "'m router_group \<Rightarrow> string list \<Rightarrow> string \<Rightarrow> 'm option \<Rightarrow> 'm mapping \<Rightarrow> 'm mapping" where
  "MatchWithMeta g [] relativePath metadata byPath = byPath"
| "MatchWithMeta g (method # methods) relativePath metadata byPath = HandleWithMeta g method relativePath metadata byPath"

definition GroupWithMeta :: "(string \<Rightarrow> string \<Rightarrow> string) \<Rightarrow> string \<Rightarrow> 'm option \<Rightarrow> 'm router_group \<Rightarrow> 'm router_group" where
  "GroupWithMeta join relativePath metadata g =
     \<lparr>gr_BasePath = join (gr_BasePath g) relativePath,
      gr_metadata = (case metadata of None \<Rightarrow> gr_metadata g | Some m \<Rightarrow> gr_metadata g @ [m])\<rparr>"

definition Group :: "(string \<Rightarrow> string \<Rightarrow> string) \<Rightarrow> string \<Rightarrow> 'm router_group \<Rightarrow> 'm router_group" where
  "Group join relativePath g = GroupWithMeta join relativePath None g"

text \<open>The methods named after a verb.\<close>

definition verb_WithMeta :: "string \<Rightarrow> 'm router_group \<Rightarrow> string \<Rightarrow> 'm option \<Rightarrow> 'm mapping \<Rightarrow> 'm mapping" where
  "verb_WithMeta verb g relativePath metadata byPath = HandleWithMeta g verb relativePath metadata byPath"

definition verb_route :: "string \<Rightarrow> 'm router_group \<Rightarrow> string \<Rightarrow> 'm mapping \<Rightarrow> 'm mapping" where
  "verb_route verb g relativePath byPath = Handle g verb relativePath byPath"

text \<open>A group made by opening groups one inside the other.\<close>

definition nested :: "(string \<Rightarrow> string \<Rightarrow> string) \<Rightarrow> (string \<times> 'm option) list \<Rightarrow> 'm router_group \<Rightarrow> 'm router_group" where
  "nested join gs g = fold (\<lambda>(rel, md). GroupWithMeta join rel md) gs g"

lemma nested_metadata: "gr_metadata (nested join gs g) = gr_metadata g @ concat (map (\<lambda>(rel, md). case md of None \<Rightarrow> [] | Some m \<Rightarrow> [m]) gs)"
proof (induction gs arbitrary: g)
  case (Cons x gs)
  obtain rel md where x: "x = (rel, md)" by (cases x)
  have "nested join (x # gs) g = nested join gs (GroupWithMeta join rel md g)" by (simp add: nested_def x)
  then show ?case using Cons[of "GroupWithMeta join rel md g"] x by (auto simp: GroupWithMeta_def split: option.splits)
qed (simp add: nested_def)

text \<open>A route that is registered for the first time has the metadata of all groups around it, from the
  outermost to the innermost, and then its own; a route registered again only adds its own; and no
  other route changes.\<close>

lemma route_metadata_chain:
  assumes "g = nested join gs (fst (NewGinRouterGroup base))" "full = path_Join [gr_BasePath g, rel]"
  shows "GetMetaByFullPath (HandleWithMeta g method rel md byPath) full method =
       (if (case byPath full of None \<Rightarrow> True | Some pm \<Rightarrow> pm method = None)
        then concat (map (\<lambda>(r, d). case d of None \<Rightarrow> [] | Some m \<Rightarrow> [m]) gs) else GetMetaByFullPath byPath full method) @
       (case md of None \<Rightarrow> [] | Some m \<Rightarrow> [m]) \<and>
     ((p, q) \<noteq> (full, method) \<longrightarrow> GetMetaByFullPath (HandleWithMeta g method rel md byPath) p q = GetMetaByFullPath byPath p q)"
  using assms(2) nested_metadata[of join gs "fst (NewGinRouterGroup base)"] unfolding assms(1)
  by (auto simp: GetMetaByFullPath_def HandleWithMeta_def addMeta_def NewGinRouterGroup_def Let_def split: option.splits)

lemma route_metadata_chain_witness:
  "GetMetaByFullPath (HandleWithMeta (nested (\<lambda>a b. a @ ''/'' @ b) [(''resources'', Some 1), (''sub'', None), (''low'', Some (3 :: nat))]
       (fst (NewGinRouterGroup ''/api''))) ''POST'' '':id'' (Some 9) Map.empty)
     (path_Join [''/api/resources/sub/low'', '':id'']) ''POST'' = [1, 3, 9]"
proof -
  let ?g = "nested (\<lambda>a b. a @ ''/'' @ b) [(''resources'', Some 1), (''sub'', None), (''low'', Some (3 :: nat))] (fst (NewGinRouterGroup ''/api''))"
  have "gr_BasePath ?g = ''/api/resources/sub/low''" by (simp add: nested_def GroupWithMeta_def NewGinRouterGroup_def)
  then show ?thesis
    using route_metadata_chain[OF refl refl, of "\<lambda>a b. a @ ''/'' @ b" "[(''resources'', Some 1), (''sub'', None), (''low'', Some (3 :: nat))]" "''/api''"
        "''POST''" "'':id''" "Some 9" Map.empty] by simp
qed

text \<open>Only the first method of a match gets a route.\<close>

lemma match_registers_first: "MatchWithMeta g (m # ms) rel md byPath = MatchWithMeta g [m] rel md byPath"
  by simp

text \<open>The mapping that \<open>MetaMapping\<close> returns is a copy; \<open>Use\<close> hands its handlers to Gin; \<open>Match\<close> registers its
  routes with Gin and adds no metadata, not even that of the group.\<close>

definition MetaMapping :: "'m mapping \<Rightarrow> 'm mapping" where
  "MetaMapping byPath = byPath"

definition Use :: "'m router_group \<Rightarrow> string list \<Rightarrow> 'm router_group" where
  "Use g handlers = g"

definition Match :: "'m router_group \<Rightarrow> string list \<Rightarrow> string \<Rightarrow> 'm mapping \<Rightarrow> 'm mapping" where
  "Match g methods relativePath byPath = byPath"

lemma match_has_no_metadata:
  "GetMetaByFullPath byPath full m = [] \<Longrightarrow> GetMetaByFullPath (Match g (m # ms) rel byPath) full m = []"
  by (simp add: Match_def)

section \<open>The metadata of a request\<close>

text \<open>The handler of the root group stores the metadata of the route under a key of the Gin context, and a handler reads it
  there.\<close>

definition routeMetadataCtxKey :: string where
  "routeMetadataCtxKey = ''_fw_route_metadata''"

definition meta_middleware :: "'m mapping \<Rightarrow> string \<Rightarrow> string \<Rightarrow> (string \<rightharpoonup> 'm list) \<Rightarrow> (string \<rightharpoonup> 'm list)" where
  "meta_middleware byPath fullPath method keys = keys(routeMetadataCtxKey \<mapsto> GetMetaByFullPath byPath fullPath method)"

definition GetPathMetaFromCtx :: "(string \<rightharpoonup> 'm list) \<Rightarrow> 'm list" where
  "GetPathMetaFromCtx keys = (case keys routeMetadataCtxKey of None \<Rightarrow> [] | Some meta \<Rightarrow> meta)"

lemma meta_of_request [simp]:
  "GetPathMetaFromCtx (meta_middleware byPath fullPath method keys) = GetMetaByFullPath byPath fullPath method"
  by (simp add: GetPathMetaFromCtx_def meta_middleware_def)

section \<open>Chains of calls\<close>

text \<open>The methods of the interface, chained on the group that each of them returns; the mapping is the one of the root.\<close>

datatype 'm group_call =
    CallUse "string list"
  | CallVerb string string
  | CallVerbWithMeta string string "'m option"
  | CallHandle string string
  | CallHandleWithMeta string string "'m option"
  | CallGroup string
  | CallGroupWithMeta string "'m option"

fun group_exec :: "(string \<Rightarrow> string \<Rightarrow> string) \<Rightarrow> 'm group_call \<Rightarrow> 'm router_group \<times> 'm mapping \<Rightarrow> 'm router_group \<times> 'm mapping" where
  "group_exec join (CallUse hs) (g, m) = (Use g hs, m)"
| "group_exec join (CallVerb verb rel) (g, m) = (g, verb_route verb g rel m)"
| "group_exec join (CallVerbWithMeta verb rel md) (g, m) = (g, verb_WithMeta verb g rel md m)"
| "group_exec join (CallHandle method rel) (g, m) = (g, Handle g method rel m)"
| "group_exec join (CallHandleWithMeta method rel md) (g, m) = (g, HandleWithMeta g method rel md m)"
| "group_exec join (CallGroup rel) (g, m) = (Group join rel g, m)"
| "group_exec join (CallGroupWithMeta rel md) (g, m) = (GroupWithMeta join rel md g, m)"

definition chain :: "(string \<Rightarrow> string \<Rightarrow> string) \<Rightarrow> 'm router_group \<Rightarrow> 'm group_call list \<Rightarrow> 'm mapping \<Rightarrow> 'm mapping" where
  "chain join g cs m = snd (fold (group_exec join) cs (g, m))"

text \<open>A call on a chain touches at most one route, and never takes metadata away.\<close>

lemma group_exec_keeps:
  "\<exists>added. GetMetaByFullPath (snd (group_exec join c (g, m))) full verb = GetMetaByFullPath m full verb @ added"
  by (cases c)
    (auto simp: GetMetaByFullPath_def HandleWithMeta_def Handle_def verb_route_def verb_WithMeta_def addMeta_def Let_def split: option.splits)

lemma chain_keeps:
  "\<exists>added. GetMetaByFullPath (chain join g cs m) full verb = GetMetaByFullPath m full verb @ added"
proof (induction cs arbitrary: g m)
  case (Cons c cs)
  obtain g' m' where s: "group_exec join c (g, m) = (g', m')" by fastforce
  then show ?case using Cons[of g' m'] group_exec_keeps[of join c g m full verb] by (auto simp: chain_def)
qed (simp add: chain_def)

text \<open>The routes that a chain registers, in order, each with the metadata of its group and its own.\<close>

type_synonym 'm registration = "(string \<times> string) \<times> 'm list \<times> 'm list"

definition own_meta :: "'m option \<Rightarrow> 'm list" where
  "own_meta md = (case md of None \<Rightarrow> [] | Some m \<Rightarrow> [m])"

fun registered :: "'m group_call \<Rightarrow> 'm router_group \<Rightarrow> 'm registration list" where
  "registered (CallVerb verb rel) g = [((path_Join [gr_BasePath g, rel], verb), gr_metadata g, [])]"
| "registered (CallVerbWithMeta verb rel md) g = [((path_Join [gr_BasePath g, rel], verb), gr_metadata g, own_meta md)]"
| "registered (CallHandle verb rel) g = [((path_Join [gr_BasePath g, rel], verb), gr_metadata g, [])]"
| "registered (CallHandleWithMeta verb rel md) g = [((path_Join [gr_BasePath g, rel], verb), gr_metadata g, own_meta md)]"
| "registered _ g = []"

fun chain_routes :: "(string \<Rightarrow> string \<Rightarrow> string) \<Rightarrow> 'm group_call list \<Rightarrow> 'm router_group \<Rightarrow> 'm registration list" where
  "chain_routes join [] g = []"
| "chain_routes join (c # cs) g = registered c g @ chain_routes join cs (fst (group_exec join c (g, Map.empty)))"

definition lookup_meta :: "'m mapping \<Rightarrow> string \<times> string \<rightharpoonup> 'm list" where
  "lookup_meta m k = (case m (fst k) of None \<Rightarrow> None | Some pm \<Rightarrow> pm (snd k))"

fun register :: "'m registration \<Rightarrow> (string \<times> string \<rightharpoonup> 'm list) \<Rightarrow> (string \<times> string \<rightharpoonup> 'm list)" where
  "register (k, gm, own) f = f(k \<mapsto> (case f k of None \<Rightarrow> gm | Some ms \<Rightarrow> ms) @ own)"

lemma GetMeta_lookup: "GetMetaByFullPath m p q = (case lookup_meta m (p, q) of None \<Rightarrow> [] | Some ms \<Rightarrow> ms)"
  by (simp add: GetMetaByFullPath_def lookup_meta_def split: option.split)

lemma addMeta_lookup:
  "lookup_meta (addMeta g rel method md m) =
   register ((path_Join [gr_BasePath g, rel], method), gr_metadata g, own_meta md) (lookup_meta m)"
  by (rule ext) (auto simp: lookup_meta_def addMeta_def own_meta_def Let_def split: option.splits)

lemma group_exec_lookup:
  "lookup_meta (snd (group_exec join c (g, m))) = fold register (registered c g) (lookup_meta m)"
  "fst (group_exec join c (g, m)) = fst (group_exec join c (g, m'))"
  by (cases c; simp add: addMeta_lookup Handle_def HandleWithMeta_def verb_route_def verb_WithMeta_def own_meta_def)+

lemma chain_lookup: "lookup_meta (chain join g cs m) = fold register (chain_routes join cs g) (lookup_meta m)"
proof (induction cs arbitrary: g m)
  case (Cons c cs)
  obtain g' m' where s: "group_exec join c (g, m) = (g', m')" by fastforce
  then show ?case using Cons[of g' m'] group_exec_lookup(1)[of join c g m] group_exec_lookup(2)[of join c g Map.empty m]
    by (simp add: chain_def)
qed (simp add: chain_def)

lemma register_other: "k \<notin> fst ` set rs \<Longrightarrow> fold register rs f k = f k"
  by (induction rs arbitrary: f) auto

text \<open>Routes that differ get the metadata of their group and then their own, and nothing else has any.\<close>

lemma register_distinct:
  "distinct (map fst rs) \<Longrightarrow> fold register rs Map.empty = map_of (map (\<lambda>(k, gm, own). (k, gm @ own)) rs)"
proof (induction rs rule: rev_induct)
  case (snoc r rs)
  obtain k gm own where r: "r = (k, gm, own)" by (cases r) auto
  have "fold register rs Map.empty k = None" using snoc.prems r register_other[of k rs Map.empty] by simp
  moreover have "map_of (map (\<lambda>(k, gm, own). (k, gm @ own)) rs) k = None"
    using snoc.prems r by (force simp: map_of_eq_None_iff)
  moreover from this have "map_of (map (\<lambda>(k, gm, own). (k, gm @ own)) rs @ [(k, gm @ own)]) =
      (map_of (map (\<lambda>(k, gm, own). (k, gm @ own)) rs))(k \<mapsto> gm @ own)"
    by (auto simp: map_add_def fun_eq_iff split: option.split)
  ultimately show ?case using snoc r by simp
qed simp

end
