(* ===== verification/Tags.thy ===== *)
theory Tags
  imports SyncMap
begin

text \<open>
  The names of the fields of a struct by tag (\<^verbatim>\<open>tag/tag.go\<close>) with the cache of the package, a synchronised map. A type is
  what reflection sees of it.
\<close>

section \<open>Field names\<close>

text \<open>A type with its text, which has the last element of the path of its package and the name, and its fields: name,
  whether it is embedded, tags and type.\<close>

datatype gtype = GStruct string "gfield list" | GOther string
and gfield = GField string bool "(string \<times> string) list" gtype

fun FieldName :: "(string \<times> string) list \<Rightarrow> string list \<Rightarrow> string option" where
  "FieldName tags [] = None"
| "FieldName tags (tagName # tagNames) =
     (case map_of tags tagName of None \<Rightarrow> FieldName tags tagNames | Some t \<Rightarrow> Some (fst (Cut t CHR '','')))"

text \<open>A type that is no struct has a name; its fields cannot be listed, which panics when it is embedded.\<close>

fun fieldNames :: "gtype \<Rightarrow> string list \<Rightarrow> (string \<rightharpoonup> string) go"
  and fieldNames_loop :: "gfield list \<Rightarrow> string list \<Rightarrow> (string \<rightharpoonup> string) \<Rightarrow> (string \<rightharpoonup> string) go" where
  "fieldNames (GOther n) tagNames = Panic ''reflect: NumField of non-struct type''"
| "fieldNames (GStruct n fs) tagNames = fieldNames_loop fs tagNames Map.empty"
| "fieldNames_loop [] tagNames resp = Ret resp"
| "fieldNames_loop (GField name anonymous tags t # fs) tagNames resp =
     (if anonymous then go_bind (fieldNames t tagNames) (\<lambda>embedded. fieldNames_loop fs tagNames (embedded ++ resp))
      else case FieldName tags tagNames of
             None \<Rightarrow> fieldNames_loop fs tagNames resp
           | Some n \<Rightarrow> fieldNames_loop fs tagNames (if resp n = None then resp(n \<mapsto> name) else resp))"

definition field_key :: "gtype \<Rightarrow> string list \<Rightarrow> string" where
  "field_key t tagNames = (case t of GStruct n fs \<Rightarrow> n | GOther n \<Rightarrow> n) @ '':'' @ Join tagNames '',''"

definition FieldNames ::
  "gtype \<Rightarrow> string list \<Rightarrow> (string, string \<rightharpoonup> string) contents \<Rightarrow> (string + (string \<rightharpoonup> string)) go \<times> (string, string \<rightharpoonup> string) contents" where
  "FieldNames t tagNames cache =
     (case t of
        GOther n \<Rightarrow> (Ret (Inl (''structType must be a struct, given: '' @ n)), cache)
      | GStruct n fs \<Rightarrow>
         if tagNames = [] then (Ret (Inl ''tagNames are required''), cache)
         else (case LoadOrStoreFunc (field_key t tagNames) (\<lambda>_. fieldNames t tagNames) cache of
                 (r, cache') \<Rightarrow> (go_bind r (\<lambda>m. Ret (Inr m)), cache')))"

section \<open>Properties\<close>

text \<open>The names of all fields with a tag, those of embedded structs in their place.\<close>

fun flat_names :: "string list \<Rightarrow> gtype \<Rightarrow> (string \<times> string) list"
  and flat_fields :: "string list \<Rightarrow> gfield list \<Rightarrow> (string \<times> string) list" where
  "flat_names tagNames (GOther n) = []"
| "flat_names tagNames (GStruct n fs) = flat_fields tagNames fs"
| "flat_fields tagNames [] = []"
| "flat_fields tagNames (GField name anonymous tags t # fs) =
     (if anonymous then flat_names tagNames t
      else case FieldName tags tagNames of None \<Rightarrow> [] | Some n \<Rightarrow> [(n, name)]) @ flat_fields tagNames fs"

lemma fieldNames_first:
  "fieldNames t tagNames = Ret m \<Longrightarrow> m = map_of (flat_names tagNames t)"
  "fieldNames_loop fs tagNames resp = Ret m \<Longrightarrow> m = map_of (flat_fields tagNames fs) ++ resp"
proof (induction t tagNames and fs tagNames resp arbitrary: m and m rule: fieldNames_fieldNames_loop.induct)
  case (4 name anonymous tags t fs tagNames resp)
  show ?case
  proof (cases anonymous)
    case True
    then obtain e where "fieldNames t tagNames = Ret e" using "4.prems" by (cases "fieldNames t tagNames") auto
    then show ?thesis using 4 True by (auto simp: map_add_assoc)
  next
    case False
    show ?thesis
    proof (cases "FieldName tags tagNames")
      case None
      then show ?thesis using 4 False by auto
    next
      case (Some n)
      have e: "map_of r ++ (if resp n = None then resp(n \<mapsto> name) else resp) = map_of ((n, name) # r) ++ resp" for r
        by (auto simp: map_add_def fun_eq_iff split: option.splits)
      have "fieldNames_loop fs tagNames (if resp n = None then resp(n \<mapsto> name) else resp) = Ret m" using "4.prems" False Some by simp
      from 4(4)[OF False Some this] show ?thesis unfolding e using False Some by (simp add: fun_upd_def)
    qed
  qed
qed auto

text \<open>Among types and tag names that are told apart by their key, the cache gives every call its own fields.\<close>

definition told_apart :: "(gtype \<times> string list) set \<Rightarrow> (gtype \<times> string list) set" where
  "told_apart ts = {x \<in> ts. \<forall>y \<in> ts. field_key (fst y) (snd y) = field_key (fst x) (snd x) \<longrightarrow> y = x}"

interpretation tag_cache: memo "\<lambda>(t, tagNames). field_key t tagNames" "\<lambda>(t, tagNames). fieldNames t tagNames" "told_apart ts"
  by unfold_locales (auto simp: told_apart_def)

lemma field_names_cached:
  assumes "(GStruct n fs, tagNames) \<in> told_apart ts" "tagNames \<noteq> []"
    and "cached (\<lambda>(t, tagNames). field_key t tagNames) (\<lambda>(t, tagNames). fieldNames t tagNames) (told_apart ts) cache"
    and "fst (FieldNames (GStruct n fs) tagNames cache) = Ret r"
  shows "r = Inr (map_of (flat_names tagNames (GStruct n fs)))"
proof -
  have "fst (LoadOrStoreFunc (field_key (GStruct n fs) tagNames) (\<lambda>_. fieldNames (GStruct n fs) tagNames) cache) =
      fieldNames (GStruct n fs) tagNames"
    using tag_cache.lookup(1)[OF assms(3,1)] by (simp del: fieldNames.simps)
  then obtain m where m: "fieldNames (GStruct n fs) tagNames = Ret m" "r = Inr m"
    using assms(2,4)
    by (cases "fieldNames (GStruct n fs) tagNames") (auto simp: FieldNames_def case_prod_beta simp del: fieldNames.simps)
  show ?thesis using fieldNames_first(1)[OF m(1)] m(2) by simp
qed

text \<open>Two types of packages with one last name share a key: the second gets the fields of the first.\<close>

lemma field_names_collide:
  assumes "tagNames \<noteq> []" "FieldNames (GStruct n fs) tagNames NewMap = (Ret r, cache)"
  shows "fst (FieldNames (GStruct n gs) tagNames cache) = Ret r"
  using assms
  by (cases "fieldNames (GStruct n fs) tagNames")
    (auto simp: FieldNames_def LoadOrStoreFunc_def NewMap_def Store_def field_key_def simp del: fieldNames.simps)

end
