(* ===== verification/Rest.thy ===== *)
theory Rest
  imports ErrorHandler Middleware
begin

text \<open>
  The helpers of handlers (\<^verbatim>\<open>rest/gin.go\<close>), the providers of health checks (\<^verbatim>\<open>rest/providers/healthcheck_database.go\<close>,
  \<^verbatim>\<open>healthcheck_redis.go\<close>) and of tokens (\<^verbatim>\<open>rest/providers/jwt.go\<close>). What a helper does to the Gin context is the
  list of its calls. Parsing, validation, decoding and signing belong to other packages and are arguments.
\<close>

section \<open>Binding\<close>

text \<open>An error that is added has a type: that of binding, public or private.\<close>

datatype rest_call = CallError gin_error bool | CallAbort | CallAbortWithError int error

fun added_errors :: "rest_call list \<Rightarrow> gin_error option list" where
  "added_errors [] = []"
| "added_errors (CallError g public # cs) = Some g # added_errors cs"
| "added_errors (CallAbort # cs) = added_errors cs"
| "added_errors (CallAbortWithError status e # cs) = Some \<lparr>ge_Err = e, ge_bind = False\<rparr> # added_errors cs"

definition bind_error :: "string \<Rightarrow> string \<Rightarrow> error \<Rightarrow> gin_error" where
  "bind_error text ty err = \<lparr>ge_Err = new_error ''BAD_ARGUMENT'' (text @ ty @ '', validation error: '' @ error_message err) [err], ge_bind = True\<rparr>"

text \<open>\<open>bound\<close> is what reading the body gives, \<open>validated\<close> what its validation gives, when it can be validated.\<close>

definition BindJSONBody :: "string \<Rightarrow> error option \<Rightarrow> error option option \<Rightarrow> rest_call list \<times> error option" where
  "BindJSONBody ty bound validated =
     (case bound of
        Some err \<Rightarrow>
          ([CallError \<lparr>ge_Err = new_error ''BAD_ARGUMENT'' (''could not parse body in to: '' @ ty @ '', binding error: '' @ error_message err) [err],
                       ge_bind = True\<rparr> False, CallAbort], Some err)
      | None \<Rightarrow>
          (case validated of
             Some (Some err) \<Rightarrow> ([CallError (bind_error ''could not parse body into: '' ty err) False, CallAbort], Some err)
           | _ \<Rightarrow> ([], None)))"

text \<open>The query in the order in which Go visits its keys; \<open>queryMap\<close> is \<^verbatim>\<open>QueryMap\<close> of Gin. A key has at least one value.\<close>

datatype query_val = QueryMap "string \<rightharpoonup> string" | QueryList "string list" | QueryStr string

definition IndexByte :: "string \<Rightarrow> char \<Rightarrow> int" where
  "IndexByte s c = (if c \<in> set s then int (length (takeWhile (\<lambda>x. x \<noteq> c) s)) else - 1)"

fun ParseQueryDeepObject ::
  "(string \<Rightarrow> string \<rightharpoonup> string) \<Rightarrow> (string \<times> string list) list \<Rightarrow> (string \<rightharpoonup> query_val) \<Rightarrow> (string \<rightharpoonup> query_val) go" where
  "ParseQueryDeepObject queryMap [] resp = Ret resp"
| "ParseQueryDeepObject queryMap ((key, vals) # qs) resp =
     (let i = IndexByte key (CHR ''['')
      in if i > 0 then let mapKey = take (nat i) key in ParseQueryDeepObject queryMap qs (resp(mapKey \<mapsto> QueryMap (queryMap mapKey)))
         else case vals of
                [] \<Rightarrow> Panic ''index out of range''
              | [v] \<Rightarrow> ParseQueryDeepObject queryMap qs (resp(key \<mapsto> QueryStr v))
              | _ \<Rightarrow> ParseQueryDeepObject queryMap qs (resp(key \<mapsto> QueryList vals)))"

definition BindDeepObjectQuery ::
  "(string \<Rightarrow> string \<rightharpoonup> string) \<Rightarrow> ((string \<rightharpoonup> query_val) \<Rightarrow> error option) \<Rightarrow> error option option \<Rightarrow> string \<Rightarrow> (string \<times> string list) list \<Rightarrow>
     (rest_call list \<times> error option) go" where
  "BindDeepObjectQuery queryMap weakDecode validated ty query =
     go_bind (ParseQueryDeepObject queryMap query Map.empty) (\<lambda>vals. Ret
       (case weakDecode vals of
          Some err \<Rightarrow>
            ([CallAbortWithError 400 (ge_Err (bind_error ''could not parse query parameters into: '' ty err))], Some err)
        | None \<Rightarrow>
            (case validated of
               Some (Some err) \<Rightarrow> ([CallError (bind_error ''could not validate query parameters for: '' ty err) False, CallAbort], Some err)
             | _ \<Rightarrow> ([], None))))"

text \<open>\<open>text\<close> is the formatted text for an error that is none of the framework.\<close>

definition HandleError :: "string \<Rightarrow> error \<Rightarrow> string \<Rightarrow> rest_call list" where
  "HandleError envType err text =
     [case As err of
        Some x \<Rightarrow> CallError \<lparr>ge_Err = err, ge_bind = False\<rparr> False
      | None \<Rightarrow> CallError \<lparr>ge_Err = new_error ''UNKNOWN'' (text @ '': '' @ error_message err) [err], ge_bind = False\<rparr> (envType \<noteq> ''prod''),
      CallAbort]"

section \<open>Health checks\<close>

text \<open>A database or Redis client that is not configured has no check; otherwise the check is the answer of the
  server.\<close>

definition NewDatabaseHealthCheckProvider :: "string option option \<Rightarrow> check" where
  "NewDatabaseHealthCheckProvider db = (case db of None \<Rightarrow> None | Some r \<Rightarrow> Some (''DB'', r))"

definition NewRedisHealthCheckProvider :: "string option option \<Rightarrow> check" where
  "NewRedisHealthCheckProvider redis = (case redis of None \<Rightarrow> None | Some r \<Rightarrow> Some (''Redis'', r))"

section \<open>Tokens\<close>

text \<open>\<^verbatim>\<open>hex.DecodeString\<close>.\<close>

definition from_hex :: "char \<Rightarrow> nat option" where
  "from_hex c = (let n = of_char c in if 48 \<le> n \<and> n \<le> 57 then Some (n - 48) else if 97 \<le> n \<and> n \<le> 102 then Some (n - 87)
     else if 65 \<le> n \<and> n \<le> 70 then Some (n - 55) else None)"

fun hex_DecodeString :: "string \<Rightarrow> string + string" where
  "hex_DecodeString [] = Inr []"
| "hex_DecodeString [c] = Inl (if from_hex c = None then ''encoding/hex: invalid byte'' else ''encoding/hex: odd length hex string'')"
| "hex_DecodeString (a # b # s) =
     (case (from_hex a, from_hex b) of
        (Some x, Some y) \<Rightarrow> (case hex_DecodeString s of Inr r \<Rightarrow> Inr (char_of (16 * x + y) # r) | Inl e \<Rightarrow> Inl e)
      | _ \<Rightarrow> Inl ''encoding/hex: invalid byte'')"

definition NewJWTProvider :: "string \<Rightarrow> string go" where
  "NewJWTProvider signingKey =
     (if signingKey = [] then Panic ''JWT signing key not set in config''
      else case hex_DecodeString signingKey of
             Inl e \<Rightarrow> Panic (''could not hex decode signing key, error: '' @ e)
           | Inr key \<Rightarrow> Ret key)"

text \<open>The kinds of claims; \<open>'c\<close> is the rest of them. The library rounds
  a date, signs claims with a key and parses a text with a key.\<close>

datatype 'c claims = MapClaims "int option" 'c | RegisteredClaims "int option" 'c | SettableClaims "int option" 'c | OtherClaims string 'c

record 'c jwt_library =
  jl_NewNumericDate :: "int \<Rightarrow> int"
  jl_sign :: "string \<Rightarrow> 'c claims \<Rightarrow> string + string"
  jl_parse :: "string \<Rightarrow> string \<Rightarrow> string + 'c claims"

definition Encode :: "'c jwt_library \<Rightarrow> string \<Rightarrow> 'c claims \<Rightarrow> string + string" where
  "Encode jl key claims = (case jl_sign jl key claims of Inl e \<Rightarrow> Inl (''failed to encode, error: '' @ e) | Inr t \<Rightarrow> Inr t)"

definition EncodeWithExp :: "'c jwt_library \<Rightarrow> int \<Rightarrow> string \<Rightarrow> 'c claims \<Rightarrow> int \<Rightarrow> string + string" where
  "EncodeWithExp jl now key claims ttl =
     (case claims of
        MapClaims e c \<Rightarrow> Encode jl key (MapClaims (Some (jl_NewNumericDate jl (now + ttl))) c)
      | RegisteredClaims e c \<Rightarrow> Encode jl key (RegisteredClaims (Some (jl_NewNumericDate jl (now + ttl))) c)
      | SettableClaims e c \<Rightarrow> Encode jl key (SettableClaims (Some (jl_NewNumericDate jl (now + ttl))) c)
      | OtherClaims ty c \<Rightarrow> Inl (''could not set expires on type: '' @ ty))"

definition Decode :: "'c jwt_library \<Rightarrow> string \<Rightarrow> string \<Rightarrow> string + 'c claims" where
  "Decode jl key token =
     (case jl_parse jl key token of Inl e \<Rightarrow> Inl (''failed to decode token: '' @ token @ '', error: '' @ e) | Inr c \<Rightarrow> Inr c)"

section \<open>Properties\<close>

lemma default_answer:
  assumes "errs = [Some g]"
  shows "handleErrors [] isProd writerStatus False False errs =
     Ret (Some \<lparr>h_calls = snd (defaultHandler errs isProd None True),
       h_level = status_level (writerStatus (snd (defaultHandler errs isProd None True))), h_mapped = ge_Err g, h_others = []\<rparr>)"
  by (simp add: assms handleErrors_def Let_def)

text \<open>A handler that passes on the result of binding a body is answered 422 by the error handler without
  mappers, whether the body could not be read or was not valid, and exactly when binding failed.\<close>

lemma failed_binding_is_answered:
  assumes "BindJSONBody ty bound validated = (cs, err)"
  shows "if err = None then cs = [] \<and> handleErrors [] isProd writerStatus False False (added_errors cs) = Ret None
     else \<exists>h. handleErrors [] isProd writerStatus False False (added_errors cs) = Ret (Some h) \<and> h_calls h = [GinStatus 422] \<and>
            CallAbort \<in> set cs"
  using assms
  by (auto simp: BindJSONBody_def bind_error_def default_answer[OF refl] defaultHandler_def default_status_def handleErrors_def Let_def
      split: option.splits)

lemma failed_binding_is_answered_witness:
  "\<exists>h. handleErrors [] True (\<lambda>_. 422) False False
     (added_errors (fst (BindJSONBody ''User'' (Some (Plain ''*json.SyntaxError'' ''unexpected end'')) None))) = Ret (Some h) \<and>
     h_calls h = [GinStatus 422]"
proof -
  let ?r = "BindJSONBody ''User'' (Some (Plain ''*json.SyntaxError'' ''unexpected end'')) None"
  have "snd ?r \<noteq> None" by (simp add: BindJSONBody_def)
  moreover have "?r = (fst ?r, snd ?r)" by simp
  ultimately show ?thesis using failed_binding_is_answered[of "''User''" _ None "fst ?r" "snd ?r" True "\<lambda>_. 422"] by (metis (no_types, lifting))
qed

text \<open>Every error that goes through \<open>HandleError\<close> is answered, by the error handler without mappers, with the
  status of its code, or 500 when it has none, and with a body: none is left without a status.\<close>

lemma handled_errors_get_a_status:
  "\<exists>h status bdy. handleErrors [] isProd writerStatus False False (added_errors (HandleError envType err text)) = Ret (Some h) \<and>
     h_calls h = [GinJSON status bdy] \<and>
     status = (case As err of
                 Some x \<Rightarrow> if errorCodesToStatus (fe_Code (fst x)) = 0 then 500 else errorCodesToStatus (fe_Code (fst x))
               | None \<Rightarrow> 500) \<and> 400 \<le> status"
proof -
  have s: "errorCodesToStatus code = 0 \<or> 400 \<le> errorCodesToStatus code" for code
    by (auto simp: errorCodesToStatus_def)
  have u: "errorCodesToStatus ''UNKNOWN'' = 500" by code_simp
  show ?thesis
  proof (cases "As err")
    case None
    then show ?thesis
      by (simp add: HandleError_def default_answer[OF refl] defaultHandler_def default_status_def new_error_def u Let_def)
  next
    case (Some x)
    then show ?thesis using s[of "fe_Code (fst x)"]
      by (auto simp: HandleError_def default_answer[OF refl] defaultHandler_def default_status_def Let_def split: prod.splits)
  qed
qed

text \<open>The health route answers 200 exactly if the database and Redis, as far as they are configured, answer.\<close>

lemma health_reflects_servers:
  "HealthCheck (NewHealthCheck [NewDatabaseHealthCheckProvider db, NewRedisHealthCheckProvider redis]) order = [JSON 200 Map.empty] \<longleftrightarrow>
     (\<forall>e. db \<noteq> Some (Some e)) \<and> (\<forall>e. redis \<noteq> Some (Some e))"
  using probes_pass_iff_all_checks_pass[of "[NewDatabaseHealthCheckProvider db, NewRedisHealthCheckProvider redis]" order]
  by (auto simp: NewDatabaseHealthCheckProvider_def NewRedisHealthCheckProvider_def split: option.splits)

text \<open>The parameter that a key of the query stands for. When every parameter is given by one key, the order in which Go
  visits the keys does not matter; a parameter given both plainly and with brackets keeps whichever is
  visited last.\<close>

definition param :: "string \<Rightarrow> string" where
  "param key = (if IndexByte key (CHR ''['') > 0 then take (nat (IndexByte key (CHR ''[''))) key else key)"

definition param_value :: "(string \<Rightarrow> string \<rightharpoonup> string) \<Rightarrow> string \<times> string list \<Rightarrow> query_val" where
  "param_value queryMap q =
     (if IndexByte (fst q) (CHR ''['') > 0 then QueryMap (queryMap (param (fst q)))
      else if length (snd q) = 1 then QueryStr (hd (snd q)) else QueryList (snd q))"

lemma query_step:
  "vals \<noteq> [] \<Longrightarrow> ParseQueryDeepObject queryMap ((key, vals) # qs) resp =
     ParseQueryDeepObject queryMap qs (resp(param key \<mapsto> param_value queryMap (key, vals)))"
  by (cases vals; cases "tl vals") (auto simp: Let_def param_def param_value_def)

lemma query_parameters:
  "(\<And>q. q \<in> set qs \<Longrightarrow> snd q \<noteq> []) \<Longrightarrow>
   ParseQueryDeepObject queryMap qs resp = Ret (resp ++ map_of (rev (map (\<lambda>q. (param (fst q), param_value queryMap q)) qs)))"
proof (induction qs arbitrary: resp)
  case (Cons q qs)
  have "ParseQueryDeepObject queryMap (q # qs) resp = ParseQueryDeepObject queryMap qs (resp(param (fst q) \<mapsto> param_value queryMap q))"
    using query_step[of "snd q" queryMap "fst q" qs resp] Cons.prems[of q] by simp
  moreover have "resp(a \<mapsto> b) ++ map_of xs = resp ++ map_of (xs @ [(a, b)])" for xs a b
    by (auto simp: map_add_def fun_eq_iff split: option.splits)
  ultimately show ?case using Cons by (simp add: fun_upd_def)
qed simp

lemma query_order_matters:
  "ParseQueryDeepObject queryMap [(''a'', [''1'']), (''a[b]'', [''2''])] Map.empty \<noteq>
   ParseQueryDeepObject queryMap [(''a[b]'', [''2'']), (''a'', [''1''])] Map.empty"
  by (auto simp: IndexByte_def fun_eq_iff Let_def split: if_splits)

text \<open>A signing key is twice as long as the key it stands for.\<close>

lemma signing_key_length: "NewJWTProvider signingKey = Ret key \<Longrightarrow> length signingKey = 2 * length key \<and> key \<noteq> []"
proof -
  have "hex_DecodeString s = Inr r \<Longrightarrow> length s = 2 * length r" for s r
    by (induction s arbitrary: r rule: hex_DecodeString.induct) (auto split: option.splits sum.splits)
  then show "NewJWTProvider signingKey = Ret key \<Longrightarrow> length signingKey = 2 * length key \<and> key \<noteq> []"
    by (fastforce simp: NewJWTProvider_def split: if_splits sum.splits)
qed

text \<open>With a library that gives back the claims it signed, a token decodes to the claims with the new date of
  expiration.\<close>

lemma token_decodes:
  assumes "\<And>key c t. jl_sign jl key c = Inr t \<Longrightarrow> jl_parse jl key t = Inr c"
    and "EncodeWithExp jl now key (RegisteredClaims e c) ttl = Inr t"
  shows "Decode jl key t = Inr (RegisteredClaims (Some (jl_NewNumericDate jl (now + ttl))) c)"
  using assms by (auto simp: EncodeWithExp_def Encode_def Decode_def split: sum.splits)

end
