(* ===== verification/Probes.thy ===== *)
theory Probes
  imports Rest Router
begin

text \<open>
  The routes of the probes: the \<^verbatim>\<open>Setup\<close> methods of \<^verbatim>\<open>rest/middleware/health.go\<close> and \<^verbatim>\<open>ready.go\<close>, which register a
  path relative to the base path of the server so that the probe is reached at the root. \<^verbatim>\<open>filepath.Rel\<close> is modelled on the
  segments of the cleaned paths.
\<close>

section \<open>Relative paths\<close>

definition clean_of :: "string \<Rightarrow> string list" where
  "clean_of p = rev (clean_segments (path_IsAbs p) (segments p) [])"

fun drop_common :: "string list \<Rightarrow> string list \<Rightarrow> string list \<times> string list" where
  "drop_common (b # bs) (t # ts) = (if b = t then drop_common bs ts else (b # bs, t # ts))"
| "drop_common bs ts = (bs, ts)"

definition filepath_Rel :: "string \<Rightarrow> string \<Rightarrow> string option" where
  "filepath_Rel basepath targpath =
     (if path_Clean targpath = path_Clean basepath then Some ''.''
      else if path_IsAbs basepath \<noteq> path_IsAbs targpath then None
      else case drop_common (clean_of basepath) (clean_of targpath) of (bs, ts) \<Rightarrow>
             if bs \<noteq> [] \<and> hd bs = ''..'' then None
             else Some (Join (map (\<lambda>_. ''..'') bs @ ts) ''/''))"

section \<open>Setting up the probes\<close>

definition probe_Setup :: "string \<Rightarrow> 'm router_group \<Rightarrow> string \<Rightarrow> 'm mapping \<Rightarrow> 'm mapping go" where
  "probe_Setup route root basePath byPath =
     (case filepath_Rel basePath route of
        None \<Rightarrow> Panic ''failed to get relative path''
      | Some rel \<Rightarrow> Ret (verb_route ''GET'' root rel byPath))"

definition Health_Setup :: "'m router_group \<Rightarrow> string \<Rightarrow> 'm mapping \<Rightarrow> 'm mapping go" where
  "Health_Setup root basePath byPath = probe_Setup ''/health'' root basePath byPath"

definition Ready_Setup :: "'m router_group \<Rightarrow> string \<Rightarrow> 'm mapping \<Rightarrow> 'm mapping go" where
  "Ready_Setup root basePath byPath = probe_Setup ''/ready'' root basePath byPath"

section \<open>Segments\<close>

lemma segments_nonempty [simp]: "segments s \<noteq> []"
  by (induction s) auto

lemma segments_append: "segments (s @ CHR ''/'' # t) = segments s @ segments t"
  by (induction s) auto

lemma segments_plain: "CHR ''/'' \<notin> set s \<Longrightarrow> segments s = [s]"
  by (induction s) auto

text \<open>Segments of a cleaned rooted path: not empty, no dots, no slashes.\<close>

definition plain_segment :: "string \<Rightarrow> bool" where
  "plain_segment g \<longleftrightarrow> g \<noteq> [] \<and> g \<noteq> ''.'' \<and> g \<noteq> ''..'' \<and> CHR ''/'' \<notin> set g"

lemma segments_no_slash: "g \<in> set (segments s) \<Longrightarrow> CHR ''/'' \<notin> set g"
proof (induction s arbitrary: g)
  case (Cons c s)
  then show ?case by (cases "segments s") (auto split: if_splits)
qed simp

lemma clean_rooted_step:
  "clean_segments True (g # gs) out = clean_segments True gs (if g = [] \<or> g = ''.'' then out else if g = ''..'' then tl out else g # out)"
  if "\<forall>g \<in> set out. plain_segment g"
  using that by (cases out) (simp_all add: plain_segment_def)

lemma clean_rooted_plain:
  "\<forall>g \<in> set gs. CHR ''/'' \<notin> set g \<Longrightarrow> \<forall>g \<in> set out. plain_segment g \<Longrightarrow> \<forall>g \<in> set (clean_segments True gs out). plain_segment g"
proof (induction gs arbitrary: out)
  case (Cons g gs)
  let ?out = "if g = [] \<or> g = ''.'' then out else if g = ''..'' then tl out else g # out"
  have o: "\<forall>h \<in> set ?out. plain_segment h"
    using Cons.prems by (cases out) (auto simp: plain_segment_def)
  have gs: "\<forall>g \<in> set gs. CHR ''/'' \<notin> set g" using Cons.prems(1) by simp
  show ?case unfolding clean_rooted_step[OF Cons.prems(2)] by (rule Cons.IH[OF gs o])
qed simp

lemma clean_of_plain: "path_IsAbs p \<Longrightarrow> g \<in> set (clean_of p) \<Longrightarrow> plain_segment g"
  using clean_rooted_plain[of "segments p" "[]"] segments_no_slash by (auto simp: clean_of_def)

lemma clean_append: "clean_segments rooted (xs @ ys) out = clean_segments rooted ys (clean_segments rooted xs out)"
  by (induction rooted xs out rule: clean_segments.induct) (auto split: list.splits)

lemma clean_push: "\<forall>g \<in> set gs. plain_segment g \<Longrightarrow> clean_segments rooted gs out = rev gs @ out"
  by (induction gs arbitrary: out) (auto simp: plain_segment_def)

lemma clean_pop:
  "\<forall>g \<in> set bs. plain_segment g \<Longrightarrow> clean_segments rooted (map (\<lambda>_. ''..'') bs) (bs @ out) = out"
  by (induction bs) (auto simp: plain_segment_def)

lemma segments_Join: "gs \<noteq> [] \<Longrightarrow> \<forall>g \<in> set gs. CHR ''/'' \<notin> set g \<Longrightarrow> segments (Join gs ''/'') = gs"
proof (induction gs "''/''" rule: Join.induct)
  case (3 s t ss)
  then show ?case using segments_append[of s "Join (t # ss) ''/''"] by (simp add: segments_plain)
qed (auto simp: segments_plain)

lemma drop_common_split: "drop_common bs ts = (b', t') \<Longrightarrow> \<exists>c. bs = c @ b' \<and> ts = c @ t'"
proof (induction bs ts arbitrary: b' t' rule: drop_common.induct)
  case (1 b bs t ts)
  show ?case
  proof (cases "b = t")
    case True
    then obtain c where "bs = c @ b'" "ts = c @ t'" using 1 by auto
    then show ?thesis using True by (intro exI[of _ "b # c"]) simp
  next
    case False
    then show ?thesis using "1.prems" by (intro exI[of _ "[]"]) simp
  qed
qed auto

lemma abs_iff: "path_IsAbs p \<longleftrightarrow> (\<exists>t. p = CHR ''/'' # t)"
  by (cases p) (auto simp: path_IsAbs_def HasPrefix_def)

lemma abs_clean: "path_IsAbs p \<Longrightarrow> path_Clean p = CHR ''/'' # Join (clean_of p) ''/''"
  by (auto simp: path_Clean_def clean_of_def abs_iff Let_def)

lemma join_abs: "path_IsAbs base \<Longrightarrow> rel \<noteq> [] \<Longrightarrow>
  path_Join [base, rel] = CHR ''/'' # Join (rev (clean_segments True (segments rel) (rev (clean_of base)))) ''/''"
proof -
  assume a: "path_IsAbs base" "rel \<noteq> []"
  then have ne: "base \<noteq> []" and abs: "path_IsAbs (base @ CHR ''/'' # rel)" by (auto simp: abs_iff)
  have "path_Join [base, rel] = path_Clean (base @ CHR ''/'' # rel)" using ne a by (simp add: path_Join_def)
  then show ?thesis using a(1) abs by (simp add: abs_clean clean_of_def segments_append clean_append)
qed

lemma clean_segments_set: "set (clean_segments rooted gs out) \<subseteq> set out \<union> {''..''} \<union> {g \<in> set gs. g \<noteq> []}"
proof (induction gs arbitrary: out)
  case (Cons g gs)
  consider "g = [] \<or> g = ''.''" | "g = ''..''" | "g \<noteq> []" "g \<noteq> ''.''" "g \<noteq> ''..''" by blast
  then show ?case
  proof cases
    case 1
    then show ?thesis using Cons[of out] by auto
  next
    case 2
    then show ?thesis using Cons[of "tl out"] Cons[of "''..'' # out"] Cons[of "[]"] Cons[of "[''..'']"] by (cases out) auto
  next
    case 3
    then show ?thesis using Cons[of "g # out"] by auto
  qed
qed auto

lemma hd_Join: "g \<noteq> [] \<Longrightarrow> hd (Join (g # gs) sep) = hd g"
  by (cases gs) simp_all

lemma clean_relative: "\<not> path_IsAbs p \<Longrightarrow> hd (path_Clean p) \<noteq> CHR ''/''"
proof -
  assume r: "\<not> path_IsAbs p"
  have ok: "g \<noteq> [] \<and> CHR ''/'' \<notin> set g" if "g \<in> set (clean_of p)" for g
    using that clean_segments_set[of False "segments p" "[]"] segments_no_slash[of g p] r by (auto simp: clean_of_def)
  have "path_Clean p = ''.'' \<or> clean_of p \<noteq> [] \<and> path_Clean p = Join (clean_of p) ''/''"
    using r by (auto simp: path_Clean_def clean_of_def Let_def)
  then show ?thesis
  proof
    assume j: "clean_of p \<noteq> [] \<and> path_Clean p = Join (clean_of p) ''/''"
    then obtain g gs where g: "clean_of p = g # gs" by (cases "clean_of p") auto
    have n: "g \<noteq> []" and s: "CHR ''/'' \<notin> set g" using ok[of g] g by auto
    have "hd (path_Clean p) = hd g" using j g hd_Join[OF n] by simp
    moreover have "hd g \<noteq> CHR ''/''" using n s hd_in_set by metis
    ultimately show ?thesis by simp
  qed simp
qed

lemma Join_nonempty: "gs \<noteq> [] \<Longrightarrow> \<forall>g \<in> set gs. g \<noteq> [] \<Longrightarrow> Join gs sep \<noteq> []"
  by (induction gs sep rule: Join.induct) auto

lemma Rel_Join:
  assumes base: "path_IsAbs base" and targ: "path_IsAbs targ"
  shows "\<exists>rel. filepath_Rel base targ = Some rel \<and> path_Join [base, rel] = path_Clean targ"
proof (cases "path_Clean targ = path_Clean base")
  case True
  have "clean_segments True (segments ''.'') out = out" for out by simp
  then have "path_Join [base, ''.''] = path_Clean base" using base by (simp add: join_abs abs_clean del: segments.simps)
  then show ?thesis using True by (simp add: filepath_Rel_def)
next
  case False
  obtain bs ts where d: "drop_common (clean_of base) (clean_of targ) = (bs, ts)" by fastforce
  then obtain c where c: "clean_of base = c @ bs" "clean_of targ = c @ ts" using drop_common_split by blast
  let ?gs = "map (\<lambda>_. ''..'') bs @ ts"
  have pb: "\<forall>g \<in> set (rev bs). plain_segment g" and pt: "\<forall>g \<in> set ts. plain_segment g"
    using clean_of_plain[OF base] clean_of_plain[OF targ] c by auto
  have ne: "?gs \<noteq> []" using False c base targ by (auto simp: abs_clean)
  have ok: "\<forall>g \<in> set ?gs. g \<noteq> []" "\<forall>g \<in> set ?gs. CHR ''/'' \<notin> set g" using pt by (simp_all add: ball_Un plain_segment_def)
  have "map (\<lambda>_. ''..'') (rev bs) = map (\<lambda>_. ''..'') bs" by (simp add: map_replicate_const)
  then have "clean_segments True (map (\<lambda>_. ''..'') bs) (rev bs @ rev c) = rev c" using clean_pop[OF pb, of True "rev c"] by (simp only:)
  then have "clean_segments True ?gs (rev (clean_of base)) = clean_segments True ts (rev c)" by (simp only: clean_append c(1) rev_append)
  also have "\<dots> = rev (clean_of targ)" using clean_push[OF pt] c(2) by simp
  finally have "path_Join [base, Join ?gs ''/''] = path_Clean targ"
    unfolding join_abs[OF base Join_nonempty[OF ne ok(1)]] segments_Join[OF ne ok(2)] abs_clean[OF targ] by (simp only: rev_rev_ident)
  moreover have "bs \<noteq> [] \<Longrightarrow> hd bs \<noteq> ''..''" using pb by (metis hd_in_set plain_segment_def set_rev)
  ultimately show ?thesis using False base targ d by (auto simp: filepath_Rel_def)
qed



end
