(* ===== verification/Cache.thy ===== *)
theory Cache
  imports Errors
begin

text \<open>
  The cache of \<^verbatim>\<open>cache/cache.go\<close> and \<^verbatim>\<open>cache/inmemory.go\<close>. The store of bytes (\<^verbatim>\<open>bigcache\<close>) and the codec (\<^verbatim>\<open>msgpack\<close>) are other
  packages and arguments here; what the lemma needs of them is named.
\<close>

definition ErrCacheEntryNotFound :: error where
  "ErrCacheEntryNotFound = new_error ''CACHE_ENTRY_NOT_FOUND'' ''cache entry not found'' []"

record 's bigcache =
  bc_ErrEntryNotFound :: error
  bc_New :: "int \<Rightarrow> error + 's"
  bc_Get :: "string \<Rightarrow> 's \<Rightarrow> error + string"
  bc_Set :: "string \<Rightarrow> string \<Rightarrow> 's \<Rightarrow> error option \<times> 's"
  bc_Delete :: "string \<Rightarrow> 's \<Rightarrow> error option \<times> 's"

record 't msgpack =
  mp_Marshal :: "'t \<Rightarrow> error + string"
  mp_Unmarshal :: "string \<Rightarrow> 't \<Rightarrow> error option \<times> 't"

definition NewInMemoryCache :: "'s bigcache \<Rightarrow> string \<Rightarrow> int \<Rightarrow> error + 's" where
  "NewInMemoryCache bc name ttl =
     (if ttl < 1
      then Inl (new_error ''BAD_ARGUMENT'' (''invalid TTL for cache '' @ name @ '': '' @ show_int ttl @ '', TTL must be a positive duration'') [])
      else case bc_New bc ttl of
             Inl e \<Rightarrow> Inl (new_error ''UNKNOWN'' (''failed to create cache: '' @ name @ '', error: '' @ error_message e) [e])
           | Inr s \<Rightarrow> Inr s)"

text \<open>\<open>Get\<close> returns an error and what it leaves in the destination.\<close>

definition Get :: "'s bigcache \<Rightarrow> 't msgpack \<Rightarrow> string \<Rightarrow> 't \<Rightarrow> 's \<Rightarrow> error option \<times> 't" where
  "Get bc mp key dest s =
     (case bc_Get bc key s of
        Inl e \<Rightarrow> (Some (if Is e (bc_ErrEntryNotFound bc) then ErrCacheEntryNotFound else e), dest)
      | Inr bytes \<Rightarrow> mp_Unmarshal mp bytes dest)"

definition Set :: "'s bigcache \<Rightarrow> 't msgpack \<Rightarrow> string \<Rightarrow> 't \<Rightarrow> 's \<Rightarrow> error option \<times> 's" where
  "Set bc mp key value s =
     (case mp_Marshal mp value of
        Inl e \<Rightarrow> (Some (new_error ''UNKNOWN'' (''could not serialize value for key: '' @ key @ '', error: '' @ error_message e) [e]), s)
      | Inr bytes \<Rightarrow> bc_Set bc key bytes s)"

definition Remove :: "'s bigcache \<Rightarrow> string \<Rightarrow> 's \<Rightarrow> error option \<times> 's" where
  "Remove bc key s = bc_Delete bc key s"

section \<open>Properties\<close>

text \<open>What is documented of a store of bytes, before entries expire, and of a codec.\<close>

definition store_ok :: "'s bigcache \<Rightarrow> bool" where
  "store_ok bc \<longleftrightarrow>
     (\<forall>k b s s'. bc_Set bc k b s = (None, s') \<longrightarrow> bc_Get bc k s' = Inr b \<and> (\<forall>k'. k' \<noteq> k \<longrightarrow> bc_Get bc k' s' = bc_Get bc k' s)) \<and>
     (\<forall>k s s'. bc_Delete bc k s = (None, s') \<longrightarrow> bc_Get bc k s' = Inl (bc_ErrEntryNotFound bc))"

definition codec_ok :: "'t msgpack \<Rightarrow> bool" where
  "codec_ok mp \<longleftrightarrow> (\<forall>v b d. mp_Marshal mp v = Inr b \<longrightarrow> mp_Unmarshal mp b d = (None, v))"

text \<open>A value that was set is read back, whatever was in the destination; other keys keep their values; after a removal the
  error of a missing entry is given and the destination is left alone; a value that cannot be encoded
  changes nothing.\<close>

lemma cache_reads_back:
  assumes "store_ok bc" "codec_ok mp"
  shows "Set bc mp k v s = (None, s') \<Longrightarrow> Get bc mp k d s' = (None, v) \<and> (k' \<noteq> k \<longrightarrow> Get bc mp k' d s' = Get bc mp k' d s)"
    and "Remove bc k s = (None, s') \<Longrightarrow> Get bc mp k d s' = (Some ErrCacheEntryNotFound, d)"
    and "mp_Marshal mp v = Inl e \<Longrightarrow> \<exists>err. Set bc mp k v s = (Some err, s) \<and> Is err e"
proof -
  show "Get bc mp k d s' = (None, v) \<and> (k' \<noteq> k \<longrightarrow> Get bc mp k' d s' = Get bc mp k' d s)" if "Set bc mp k v s = (None, s')"
  proof -
    from that obtain b where b: "mp_Marshal mp v = Inr b" "bc_Set bc k b s = (None, s')" by (auto simp: Set_def split: sum.splits)
    then have "bc_Get bc k s' = Inr b" "k' \<noteq> k \<longrightarrow> bc_Get bc k' s' = bc_Get bc k' s" using assms(1) unfolding store_ok_def by blast+
    moreover have "mp_Unmarshal mp b d = (None, v)" using assms(2) b(1) unfolding codec_ok_def by blast
    ultimately show ?thesis by (simp add: Get_def)
  qed
  show "Get bc mp k d s' = (Some ErrCacheEntryNotFound, d)" if "Remove bc k s = (None, s')"
    using that assms(1) unfolding store_ok_def Remove_def by (auto simp: Get_def)
  show "\<exists>err. Set bc mp k v s = (Some err, s) \<and> Is err e" if "mp_Marshal mp v = Inl e"
    using that by (simp add: Set_def new_error_def Is_refl)
qed

end
