(* ===== verification/Connections.thy ===== *)
theory Connections
  imports Database
begin

text \<open>
  Opening the connections to the database (\<^verbatim>\<open>database/database.go\<close>) and to Redis (\<^verbatim>\<open>redis/redis.go\<close>). The drivers are arguments:
  what opening, parsing and pinging answer. A function that opens a connection returns it with the lines it
  logged, or panics.
\<close>

record db_conf =
  dc_Host :: string
  dc_User :: string
  dc_Pass :: string
  dc_Port :: int

definition quote_text :: "string \<Rightarrow> string" where
  "quote_text s = [CHR 0x27] @ s @ [CHR 0x27]"

definition dsn :: "db_conf \<Rightarrow> string \<Rightarrow> string" where
  "dsn conf dbName =
     ''host='' @ quote_text (dc_Host conf) @ '' user='' @ quote_text (dc_User conf) @ '' password='' @ quote_text (dc_Pass conf) @
     '' dbname='' @ quote_text dbName @ '' port='' @ show_int (dc_Port conf)"

text \<open>The text that a failure shows.\<close>

definition hidden_dsn :: "db_conf \<Rightarrow> string \<Rightarrow> string" where
  "hidden_dsn conf dbName = ReplaceAll (dsn conf dbName) (quote_text (dc_Pass conf)) ''*''"

text \<open>\<open>open_db\<close> opens with or without tracing.\<close>

definition MustOpenGORM :: "(bool \<Rightarrow> string \<Rightarrow> string + 'h) \<Rightarrow> bool \<Rightarrow> db_conf \<Rightarrow> string \<Rightarrow> ('h \<times> string list) go" where
  "MustOpenGORM open_db tracing conf dbName =
     (case open_db tracing (dsn conf dbName) of
        Inl e \<Rightarrow> Panic (''could not connect to DB: '' @ hidden_dsn conf dbName @ '', error: '' @ e)
      | Inr h \<Rightarrow> Ret (h, [''DB connection established: '' @ [CHR 0x22] @ dbName @ [CHR 0x22]]))"

definition NewDB :: "(bool \<Rightarrow> string \<Rightarrow> string + 'h) \<Rightarrow> string \<Rightarrow> string \<Rightarrow> string \<Rightarrow> bool \<Rightarrow> db_conf \<Rightarrow> ('h \<times> string \<times> string list) go" where
  "NewDB open_db envType name envName tracing conf =
     (if envType = ''test'' then Panic ''in a test''
      else let dbName = CreateDBName name envName
           in go_bind (MustOpenGORM open_db tracing conf dbName) (\<lambda>(h, logged). Ret (h, dbName, logged)))"

definition MustOpenRedis :: "(string \<Rightarrow> string + 'o) \<Rightarrow> ('o \<Rightarrow> string option) \<Rightarrow> string \<Rightarrow> ('o \<times> string list) go" where
  "MustOpenRedis parseURL ping url =
     (case parseURL url of
        Inl e \<Rightarrow> Panic (''failed to parse redis url: '' @ url @ '', error: '' @ e)
      | Inr opt \<Rightarrow>
         (case ping opt of
            Some e \<Rightarrow> Panic (''failed to connect to redis: '' @ e)
          | None \<Rightarrow> Ret (opt, [''Connected to redis: '' @ url])))"

definition NewRedis :: "(string \<Rightarrow> string + 'o) \<Rightarrow> ('o \<Rightarrow> string option) \<Rightarrow> string \<Rightarrow> string \<Rightarrow> ('o \<times> string list) go" where
  "NewRedis parseURL ping envType url = (if envType = ''test'' then Panic ''in a test'' else MustOpenRedis parseURL ping url)"

section \<open>Properties\<close>

text \<open>What is replaced by one new character is gone.\<close>

lemma prefix_ReplaceAll: "d \<notin> set p \<Longrightarrow> prefix p (ReplaceAll s old [d]) \<Longrightarrow> prefix p s"
proof (induction s old "[d]" arbitrary: p rule: ReplaceAll.induct)
  case (2 c s old)
  show ?case
  proof (cases p)
    case (Cons x p')
    then have "\<not> (old \<noteq> [] \<and> HasPrefix (c # s) old)" using 2(3,4) by (auto split: if_splits)
    then show ?thesis using 2 Cons by auto
  qed simp
qed simp

lemma ReplaceAll_removes: "old \<noteq> [] \<Longrightarrow> d \<notin> set old \<Longrightarrow> \<not> Contains (ReplaceAll s old [d]) old"
proof (induction s old "[d]" rule: ReplaceAll.induct)
  case (1 old)
  then show ?case by simp
next
  case (2 c s old)
  show ?case
  proof (cases "HasPrefix (c # s) old")
    case True
    have "\<not> HasPrefix (d # r) old" for r using 2(3,4) by (cases old) (auto simp: HasPrefix_iff)
    then show ?thesis using 2 True by simp
  next
    case False
    then have "\<not> prefix old (c # ReplaceAll s old [d])"
      using 2(3,4) prefix_ReplaceAll[of d "tl old" s old] by (cases old) (auto simp: HasPrefix_iff)
    then show ?thesis using 2 False by (simp add: HasPrefix_iff)
  qed
qed

text \<open>The text that a failed connection shows does not have the quoted password, unless the password has the
  character that replaces it.\<close>

lemma password_is_hidden: "CHR ''*'' \<notin> set (dc_Pass conf) \<Longrightarrow> \<not> Contains (hidden_dsn conf dbName) (quote_text (dc_Pass conf))"
  unfolding hidden_dsn_def by (rule ReplaceAll_removes) (auto simp: quote_text_def)

text \<open>The URL of Redis, with the password it may have, is logged as it is, and shown when it cannot be read.\<close>

lemma redis_url_is_shown:
  "MustOpenRedis parseURL ping url = Ret (c, logged) \<Longrightarrow> \<exists>l \<in> set logged. Contains l url"
  "parseURL url = Inl e \<Longrightarrow> \<exists>m. MustOpenRedis parseURL ping url = Panic m \<and> Contains m url"
proof -
  have c: "Contains (a @ u @ b) u" for a u b :: string by (simp add: Contains_iff)
  show "\<exists>l \<in> set logged. Contains l url" if "MustOpenRedis parseURL ping url = Ret (c, logged)"
    using that c[of "''Connected to redis: ''" url "[]"] by (auto simp: MustOpenRedis_def simp del: Contains.simps split: sum.splits option.splits)
  show "\<exists>m. MustOpenRedis parseURL ping url = Panic m \<and> Contains m url" if "parseURL url = Inl e"
    using that c[of "''failed to parse redis url: ''" url "'', error: '' @ e"] by (simp add: MustOpenRedis_def del: Contains.simps)
qed

section \<open>Health and the end of connections\<close>

text \<open>What the drivers answer is the argument: a failure of the statement, of getting the pool, of closing it.\<close>

definition db_HealthCheck :: "(string \<Rightarrow> string option) \<Rightarrow> string option" where
  "db_HealthCheck exec_sql = exec_sql ''SELECT 1''"

definition OnDBStop :: "string + 'h \<Rightarrow> ('h \<Rightarrow> string option) \<Rightarrow> string option" where
  "OnDBStop sqlDB close = (case sqlDB of Inl err \<Rightarrow> Some err | Inr h \<Rightarrow> close h)"

definition redis_HealthCheck :: "string option \<Rightarrow> string option" where
  "redis_HealthCheck ping = ping"

definition redis_OnStop :: "string option \<Rightarrow> string option" where
  "redis_OnStop close = close"

end
