(* ===== verification/Fleet.thy ===== *)
theory Fleet
  imports Worker RedisLock PostgresLock
begin

text \<open>
  A single worker in several instances of an application (\<^verbatim>\<open>worker/worker.go\<close>) over one distributed lock (\<^verbatim>\<open>distributedlock\<close>):
  each instance goes through the rounds of \<^verbatim>\<open>singleWorkerRunner\<close>, the goroutine of \<^verbatim>\<open>autoExtend\<close> extends its lock, and the server
  of the lock answers the calls of all of them. The lock is any lease lock; the laws are proved once in its locale,
  and the properties are those of the locks of Redis and of Postgres.
\<close>

section \<open>Instances\<close>

text \<open>Where an instance is: it tries to lock, has locked, runs the worker, is about to unlock after a round with the given
  results, or its runner has returned.\<close>

datatype phase = Waiting | Held | Running | Unlocking round | Ended

text \<open>The context of the worker, which is that of the goroutine that extends the lock: there is none, it is alive, or
  it is cancelled.\<close>

datatype worker_ctx = NoCtx | Alive | Cancelled

text \<open>An instance knows when it was last told that it has the lock. \<open>in_old\<close> counts goroutines of earlier rounds that are still
  extending; \<open>in_done\<close> and \<open>in_acts\<close> are the rounds that have ended and what was done.\<close>

record inst =
  in_phase :: phase
  in_ctx :: worker_ctx
  in_grant :: "int option"
  in_old :: nat
  in_done :: "round list"
  in_acts :: "action list"

definition new_inst :: inst where
  "new_inst = \<lparr>in_phase = Waiting, in_ctx = NoCtx, in_grant = None, in_old = 0, in_done = [], in_acts = []\<rparr>"

record ('id, 's) fleet =
  fl_now :: int
  fl_srv :: 's
  fl_inst :: "'id \<Rightarrow> inst"

definition new_fleet :: "int \<Rightarrow> 's \<Rightarrow> ('id, 's) fleet" where
  "new_fleet now srv = \<lparr>fl_now = now, fl_srv = srv, fl_inst = \<lambda>_. new_inst\<rparr>"

section \<open>Steps\<close>

text \<open>The end of a round: the loop goes on or the runner returns.\<close>

definition end_round :: "string \<Rightarrow> round \<Rightarrow> inst \<Rightarrow> inst" where
  "end_round name ro x = x\<lparr>in_done := in_done x @ [ro], in_phase := if retried name ro then Waiting else Ended\<rparr>"

text \<open>A round in which locking, or the start of the extension, did not succeed.\<close>

definition lock_failed :: "error option go \<Rightarrow> round" where
  "lock_failed out = \<lparr>ro_Lock = out, ro_AutoExtend = Ret None, ro_Run = Ret None\<rparr>"

definition auto_failed :: "error option go \<Rightarrow> round" where
  "auto_failed out = \<lparr>ro_Lock = Ret None, ro_AutoExtend = out, ro_Run = Ret None\<rparr>"

definition ran :: "error option go \<Rightarrow> round" where
  "ran out = \<lparr>ro_Lock = Ret None, ro_AutoExtend = Ret None, ro_Run = out\<rparr>"

text \<open>What an extension does to the instance: it is granted, or the goroutine cancels its context and stops.\<close>

definition extended :: "int \<Rightarrow> lock_err + bool \<Rightarrow> inst \<Rightarrow> inst" where
  "extended now r x = (if r = Inr True then x\<lparr>in_grant := Some now\<rparr> else x\<lparr>in_ctx := Cancelled\<rparr>)"

definition extended_old :: "int \<Rightarrow> lock_err + bool \<Rightarrow> inst \<Rightarrow> inst" where
  "extended_old now r x = (if r = Inr True then x\<lparr>in_grant := Some now\<rparr> else x\<lparr>in_old := in_old x - 1\<rparr>)"

text \<open>The handler is stopped: the contexts of all goroutines of the instance end.\<close>

definition stopped :: "inst \<Rightarrow> inst" where
  "stopped x = x\<lparr>in_ctx := if in_ctx x = Alive then Cancelled else in_ctx x, in_old := 0\<rparr>"

text \<open>Unlocking cancels the goroutine of the round only when the server answered.\<close>

definition unlocked :: "string \<Rightarrow> round \<Rightarrow> lock_err + bool \<Rightarrow> inst \<Rightarrow> inst" where
  "unlocked name ro r x =
     end_round name ro (x\<lparr>in_grant := None, in_ctx := NoCtx, in_acts := in_acts x @ [Unlocked],
       in_old := (case r of Inl e \<Rightarrow> if in_ctx x = Alive then Suc (in_old x) else in_old x | Inr b \<Rightarrow> in_old x)\<rparr>)"

text \<open>An instance that has the lock and was not told otherwise.\<close>

definition active :: "inst \<Rightarrow> bool" where
  "active x \<longleftrightarrow> in_phase x = Held \<or> in_phase x = Running \<and> in_ctx x = Alive"

abbreviation set_inst :: "'id \<Rightarrow> inst \<Rightarrow> ('id, 's) fleet \<Rightarrow> ('id, 's) fleet" where
  "set_inst i x s \<equiv> s\<lparr>fl_inst := (fl_inst s)(i := x)\<rparr>"

text \<open>A step of time, or of one instance. In a prompt run extensions are answered in time: no lease of an active instance
  passes before it is extended or refused. \<open>f\<close> is what the network does to a call.\<close>

inductive fleet_step ::
    "(int \<Rightarrow> 'id \<Rightarrow> lease_op \<Rightarrow> 'f \<Rightarrow> 's \<Rightarrow> (lock_err + bool) \<times> 's) \<Rightarrow> ('id \<Rightarrow> int) \<Rightarrow> string \<Rightarrow> bool \<Rightarrow>
     ('id, 's) fleet \<Rightarrow> ('id, 's) fleet \<Rightarrow> bool"
  for call ttl name prompt where
  tick: "fl_now s \<le> t \<Longrightarrow> (prompt \<Longrightarrow> \<forall>i g. active (fl_inst s i) \<and> in_grant (fl_inst s i) = Some g \<longrightarrow> t < g + ttl i) \<Longrightarrow>
     fleet_step call ttl name prompt s (s\<lparr>fl_now := t\<rparr>)"
| try_yes: "in_phase (fl_inst s i) = Waiting \<Longrightarrow> call (fl_now s) i OpTry f (fl_srv s) = (Inr True, srv) \<Longrightarrow>
     fleet_step call ttl name prompt s (set_inst i ((fl_inst s i)\<lparr>in_phase := Held, in_grant := Some (fl_now s),
       in_acts := in_acts (fl_inst s i) @ [Locked]\<rparr>) (s\<lparr>fl_srv := srv\<rparr>))"
| try_no: "in_phase (fl_inst s i) = Waiting \<Longrightarrow> call (fl_now s) i OpTry f (fl_srv s) = (Inr False, srv) \<Longrightarrow>
     fleet_step call ttl name prompt s (s\<lparr>fl_srv := srv\<rparr>)"
| try_error: "in_phase (fl_inst s i) = Waiting \<Longrightarrow> call (fl_now s) i OpTry f (fl_srv s) = (Inl e, srv) \<Longrightarrow>
     fleet_step call ttl name prompt s (set_inst i (end_round name (lock_failed (Ret (Some err))) (fl_inst s i)) (s\<lparr>fl_srv := srv\<rparr>))"
| wait_ends: "in_phase (fl_inst s i) = Waiting \<Longrightarrow> out \<noteq> Ret None \<Longrightarrow>
     fleet_step call ttl name prompt s (set_inst i (end_round name (lock_failed out) (fl_inst s i)) s)"
| auto_starts: "in_phase (fl_inst s i) = Held \<Longrightarrow>
     fleet_step call ttl name prompt s (set_inst i ((fl_inst s i)\<lparr>in_phase := Running, in_ctx := Alive,
       in_acts := in_acts (fl_inst s i) @ [Ran]\<rparr>) s)"
| auto_fails: "in_phase (fl_inst s i) = Held \<Longrightarrow> out \<noteq> Ret None \<Longrightarrow>
     fleet_step call ttl name prompt s (set_inst i ((fl_inst s i)\<lparr>in_phase := Unlocking (auto_failed out)\<rparr>) s)"
| extend: "in_ctx (fl_inst s i) = Alive \<Longrightarrow> call (fl_now s) i OpExtend f (fl_srv s) = (r, srv) \<Longrightarrow>
     fleet_step call ttl name prompt s (set_inst i (extended (fl_now s) r (fl_inst s i)) (s\<lparr>fl_srv := srv\<rparr>))"
| extend_old: "in_old (fl_inst s i) > 0 \<Longrightarrow> call (fl_now s) i OpExtend f (fl_srv s) = (r, srv) \<Longrightarrow>
     fleet_step call ttl name prompt s (set_inst i (extended_old (fl_now s) r (fl_inst s i)) (s\<lparr>fl_srv := srv\<rparr>))"
| handler_stops:
    "fleet_step call ttl name prompt s (set_inst i (stopped (fl_inst s i)) s)"
| worker_returns: "in_phase (fl_inst s i) = Running \<Longrightarrow>
     fleet_step call ttl name prompt s (set_inst i ((fl_inst s i)\<lparr>in_phase := Unlocking (ran out)\<rparr>) s)"
| unlock: "in_phase (fl_inst s i) = Unlocking ro \<Longrightarrow> call (fl_now s) i OpUnlock f (fl_srv s) = (r, srv) \<Longrightarrow>
     fleet_step call ttl name prompt s (set_inst i (unlocked name ro r (fl_inst s i)) (s\<lparr>fl_srv := srv\<rparr>))"

abbreviation fleet_runs where
  "fleet_runs call ttl name prompt \<equiv> (fleet_step call ttl name prompt)\<^sup>*\<^sup>*"

section \<open>Leases\<close>

text \<open>What an instance was told is true on the server until the time to live has passed.\<close>

definition leases_kept :: "('s \<Rightarrow> bool) \<Rightarrow> (int \<Rightarrow> 's \<Rightarrow> 'id option) \<Rightarrow> ('id \<Rightarrow> int) \<Rightarrow> ('id, 's) fleet \<Rightarrow> bool" where
  "leases_kept invar holder ttl s \<longleftrightarrow> invar (fl_srv s) \<and>
     (\<forall>i g. in_grant (fl_inst s i) = Some g \<longrightarrow> g \<le> fl_now s \<and>
        (\<forall>u. fl_now s \<le> u \<and> u < g + ttl i \<longrightarrow> holder u (fl_srv s) = Some i))"

text \<open>In a prompt run the lease of an active instance has not passed.\<close>

definition leases_live :: "('id \<Rightarrow> int) \<Rightarrow> ('id, 's) fleet \<Rightarrow> bool" where
  "leases_live ttl s \<longleftrightarrow> (\<forall>i. active (fl_inst s i) \<longrightarrow> (\<exists>g. in_grant (fl_inst s i) = Some g \<and> fl_now s < g + ttl i))"

lemmas inst_defs = end_round_def extended_def extended_old_def stopped_def unlocked_def new_inst_def

lemma grants:
  "in_grant (end_round name ro x) = in_grant x"
  "in_grant (extended now r x) = (if r = Inr True then Some now else in_grant x)"
  "in_grant (extended_old now r x) = (if r = Inr True then Some now else in_grant x)"
  "in_grant (stopped x) = in_grant x" "in_grant (unlocked name ro r x) = None"
  by (simp_all add: inst_defs)

context lease_lock
begin

text \<open>A call of \<open>i\<close> that leaves what \<open>i\<close> was told, or by which it was told that it has the lock.\<close>

lemma leases_kept_call:
  assumes k: "leases_kept inv holder ttl s" and c: "call (fl_now s) i op f (fl_srv s) = (r, srv)"
    and x: "in_grant x = in_grant (fl_inst s i) \<and> op \<noteq> OpUnlock \<or> in_grant x = None \<or>
            in_grant x = Some (fl_now s) \<and> r = Inr True \<and> op \<noteq> OpUnlock"
  shows "leases_kept inv holder ttl (set_inst i x (s\<lparr>fl_srv := srv\<rparr>))"
proof -
  have iv: "inv (fl_srv s)" using k by (simp add: leases_kept_def)
  have other: "holder u srv = Some j" if g: "in_grant (fl_inst s j) = Some g" and u: "fl_now s \<le> u" "u < g + ttl j"
      and no: "\<not> (i = j \<and> op = OpUnlock)" for j g u
  proof -
    have g': "g \<le> fl_now s" "\<And>u. fl_now s \<le> u \<Longrightarrow> u < g + ttl j \<Longrightarrow> holder u (fl_srv s) = Some j"
      using k g unfolding leases_kept_def by blast+
    show ?thesis by (rule lease_step[OF iv g'(2) _ _ c no u]) (use g'(1) u in auto)
  qed
  have "fl_now s \<le> u \<Longrightarrow> u < fl_now s + ttl i \<Longrightarrow> r = Inr True \<Longrightarrow> op \<noteq> OpUnlock \<Longrightarrow> holder u srv = Some i" for u
    using acquired[OF iv] c by blast
  then show ?thesis using k x other call_inv[OF iv c] by (auto simp: leases_kept_def)
qed

lemma leases_kept_local:
  assumes "leases_kept inv holder ttl s" "in_grant x = in_grant (fl_inst s i)"
  shows "leases_kept inv holder ttl (set_inst i x s)"
  using assms by (auto simp: leases_kept_def)

lemma fleet_step_leases:
  "fleet_step call ttl name prompt s s' \<Longrightarrow> leases_kept inv holder ttl s \<Longrightarrow> leases_kept inv holder ttl s'"
proof (induction rule: fleet_step.induct)
  case (tick s t)
  then show ?case by (fastforce simp: leases_kept_def)
next
  case (try_no s i f srv)
  show ?case using leases_kept_call[OF try_no(3,2), of "fl_inst s i"] by simp
next
  case (try_yes s i f srv)
  show ?case by (rule leases_kept_call[OF try_yes(3,2)]) simp
next
  case (try_error s i f e srv err)
  show ?case by (rule leases_kept_call[OF try_error(3,2)]) (simp add: grants)
next
  case (extend s i f r srv)
  show ?case by (rule leases_kept_call[OF extend(3,2)]) (simp add: grants)
next
  case (extend_old s i f r srv)
  show ?case by (rule leases_kept_call[OF extend_old(3,2)]) (simp add: grants)
next
  case (unlock s i ro f r srv)
  show ?case by (rule leases_kept_call[OF unlock(3,2)]) (simp add: grants)
qed (auto simp: grants intro!: leases_kept_local)

lemma fleet_leases:
  assumes "fleet_runs call ttl name prompt (new_fleet now srv) s" "inv srv"
  shows "leases_kept inv holder ttl s"
  using assms
proof (induction rule: rtranclp_induct)
  case base
  then show ?case by (simp add: leases_kept_def new_fleet_def new_inst_def)
qed (blast intro: fleet_step_leases)

text \<open>Two instances that were told that they have the lock, and whose time to live has not passed, are one.\<close>

lemma one_lease:
  assumes "leases_kept inv holder ttl s" "in_grant (fl_inst s i) = Some g" "fl_now s < g + ttl i"
    "in_grant (fl_inst s j) = Some h" "fl_now s < h + ttl j"
  shows "i = j"
  using assms unfolding leases_kept_def by (metis option.inject order_refl)

end

section \<open>Prompt runs\<close>

lemma leases_live_step:
  assumes "fleet_step call ttl name True s s'" "leases_live ttl s" "\<And>i. 0 < ttl i"
  shows "leases_live ttl s'"
  using assms
proof (induction rule: fleet_step.induct)
  case (tick s t)
  then show ?case unfolding leases_live_def by (metis fleet.select_convs(3) fleet.surjective fleet.update_convs(1) fleet.select_convs(1))
next
  case (extend s i f r srv)
  then show ?case
    unfolding leases_live_def
    by (cases "r = Inr True") (auto simp: extended_def active_def split: if_splits)
next
  case (extend_old s i f r srv)
  then show ?case
    unfolding leases_live_def by (auto simp: extended_old_def active_def split: if_splits)
qed (auto simp: leases_live_def active_def inst_defs split: if_splits)

lemma leases_live_run:
  assumes "fleet_runs call ttl name True (new_fleet now srv) s" "\<And>i. 0 < ttl i"
  shows "leases_live ttl s"
  using assms(1)
proof (induction rule: rtranclp_induct)
  case base
  show ?case by (simp add: leases_live_def new_fleet_def new_inst_def active_def)
qed (use leases_live_step assms(2) in blast)

context lease_lock
begin

lemma one_active:
  assumes "fleet_runs call ttl name True (new_fleet now srv) s" "inv srv" "\<And>i. 0 < ttl i"
    "active (fl_inst s i)" "active (fl_inst s j)"
  shows "i = j"
  using one_lease[OF fleet_leases[OF assms(1,2)]] leases_live_run[OF assms(1,3)] assms(4,5) unfolding leases_live_def by blast

end

text \<open>C5. In every prompt run of the instances of a single worker over Redis, whatever calls fail or lose their answer, at
  most one instance runs the worker with a context that is not cancelled; and in any run, prompt or not,
  two instances whose last grant is younger than their time to live are one.\<close>

theorem one_worker_with_redis:
  assumes "redis_ok R" "\<forall>i. 0 < Milliseconds (ttl i)"
    and "L = (\<lambda>i. NewDistributedRedisLock res i (ttl i))" "\<forall>t i. rs_GET R t (extendedCountKey (L i)) r = None"
    and "fleet_runs (redis_call R) (\<lambda>i. Milliseconds (ttl i)) name prompt (new_fleet now (L, r)) s"
  shows "(prompt \<longrightarrow> (\<forall>i j. active (fl_inst s i) \<and> active (fl_inst s j) \<longrightarrow> i = j)) \<and>
     (\<forall>i j g h. in_grant (fl_inst s i) = Some g \<and> fl_now s < g + Milliseconds (ttl i) \<and>
        in_grant (fl_inst s j) = Some h \<and> fl_now s < h + Milliseconds (ttl j) \<longrightarrow> i = j)"
proof -
  have i: "redis_inv R res ttl (L, r)"
    using assms(1-4) by (simp add: redis_inv_def counter_ok_def NewDistributedRedisLock_def new_base_lock_def)
  have "i = j" if "prompt" "active (fl_inst s i)" "active (fl_inst s j)" for i j
    using redis_lease.one_active[OF _ i _ that(2,3)] assms(2,5) that(1) by simp
  then show ?thesis using redis_lease.one_lease[OF redis_lease.fleet_leases[OF assms(5) i]] by blast
qed

text \<open>A run over a concrete server: \<open>a\<close> takes the lock and runs its worker, and \<open>b\<close> takes it when the time to live has
  passed without an extension.\<close>

definition demo_locks :: "string \<Rightarrow> base_lock" where
  "demo_locks = (\<lambda>i. NewDistributedRedisLock ''job'' i 5000000)"

lemmas redis_eval = redis_mem_def live_def redis_TryLock_def setNXAndExtendedCountScript_def NewDistributedRedisLock_def
  new_base_lock_def Milliseconds_def extendedCountKey_def demo_locks_def redis_Extend_def
  extendSetsAndIncrExtendedCountScript_def Let_def

abbreviation demo_step :: "bool \<Rightarrow> (string, redis_db redis_world) fleet \<Rightarrow> (string, redis_db redis_world) fleet \<Rightarrow> bool" where
  "demo_step \<equiv> fleet_step (redis_call redis_mem) (\<lambda>_. 5) ''sync''"

abbreviation demo_start :: "(string, redis_db redis_world) fleet" where
  "demo_start \<equiv> new_fleet 0 (demo_locks, \<lambda>_. None)"

lemma demo_first:
  "\<exists>s. (demo_step prompt)\<^sup>*\<^sup>* demo_start s \<and> in_phase (fl_inst s ''a'') = Running \<and> in_ctx (fl_inst s ''a'') = Alive \<and>
     in_phase (fl_inst s ''b'') = Waiting \<and> fl_now s = 0 \<and> in_old (fl_inst s ''a'') = 0 \<and>
     (\<forall>i. i \<noteq> ''a'' \<longrightarrow> fl_inst s i = new_inst) \<and>
     (\<exists>srv. redis_call redis_mem 10 ''b'' OpTry (Delivered, 10) (fl_srv s) = (Inr True, srv)) \<and>
     (\<exists>srv. redis_call redis_mem 4 ''a'' OpExtend (Delivered, 4) (fl_srv s) = (Inr True, srv) \<and>
        (\<exists>srv'. redis_call redis_mem 8 ''b'' OpTry (Delivered, 8) srv = (Inr False, srv')))"
proof -
  let ?s0 = demo_start
  obtain L r where c: "redis_call redis_mem 0 ''a'' OpTry (Delivered, 0) (demo_locks, \<lambda>_. None) = (Inr True, L, r)"
      "L = demo_locks(''a'' := L ''a'')" "\<And>k. live 10 (r k) = None"
      "\<exists>srv. redis_call redis_mem 4 ''a'' OpExtend (Delivered, 4) (L, r) = (Inr True, srv) \<and>
        (\<exists>srv'. redis_call redis_mem 8 ''b'' OpTry (Delivered, 8) srv = (Inr False, srv'))"
    by (auto simp: redis_eval)
  define s1 where "s1 = set_inst ''a'' (new_inst\<lparr>in_phase := Held, in_grant := Some 0, in_acts := [Locked]\<rparr>) (?s0\<lparr>fl_srv := (L, r)\<rparr>)"
  define s2 where "s2 = set_inst ''a'' ((fl_inst s1 ''a'')\<lparr>in_phase := Running, in_ctx := Alive, in_acts := in_acts (fl_inst s1 ''a'') @ [Ran]\<rparr>) s1"
  have "demo_step prompt ?s0 s1"
    using fleet_step.try_yes[of ?s0 "''a''" "redis_call redis_mem" "(Delivered, 0)" "(L, r)" "\<lambda>_. 5" "''sync''" prompt] c
    by (simp add: s1_def new_fleet_def new_inst_def)
  moreover have "demo_step prompt s1 s2" unfolding s2_def by (rule fleet_step.auto_starts) (simp add: s1_def)
  moreover have "\<exists>srv. redis_call redis_mem 10 ''b'' OpTry (Delivered, 10) (L, r) = (Inr True, srv)"
    using c(3)[of "''job''"] by (subst c(2)) (auto simp: redis_eval)
  ultimately show ?thesis
    using c(4) by (intro exI[of _ s2]) (auto simp: s1_def s2_def new_fleet_def new_inst_def simp del: redis_call.simps)
qed

theorem one_worker_with_redis_witness:
  "\<exists>s. (demo_step True)\<^sup>*\<^sup>* demo_start s \<and> active (fl_inst s ''a'') \<and> \<not> active (fl_inst s ''b'')"
proof -
  obtain s where s: "(demo_step True)\<^sup>*\<^sup>* demo_start s" "active (fl_inst s ''a'')"
    using demo_first[of True] unfolding active_def by blast
  have n: "\<forall>t i. rs_GET redis_mem t (extendedCountKey (demo_locks i)) (\<lambda>_. None) = None" by (simp add: redis_mem_def live_def)
  have "(\<lambda>i :: string. Milliseconds 5000000) = (\<lambda>_. 5)" by (simp add: Milliseconds_def)
  then have "\<forall>i j. active (fl_inst s i) \<and> active (fl_inst s j) \<longrightarrow> i = j"
    using one_worker_with_redis[OF redis_mem_ok _ demo_locks_def n, of "''sync''" True 0 s] s(1) by (simp add: Milliseconds_def)
  then show ?thesis using s by fastforce
qed

text \<open>When an extension is not answered in time, the context of the worker stays alive while another instance takes
  the lock: two workers run, and neither knows.\<close>

lemma late_extension_runs_twice:
  "\<exists>s. (demo_step False)\<^sup>*\<^sup>* demo_start s \<and> (\<forall>i \<in> {''a'', ''b''}. in_phase (fl_inst s i) = Running \<and> in_ctx (fl_inst s i) = Alive)"
proof -
  obtain s srv where s: "(demo_step False)\<^sup>*\<^sup>* demo_start s" "in_phase (fl_inst s ''a'') = Running" "in_ctx (fl_inst s ''a'') = Alive"
      "in_phase (fl_inst s ''b'') = Waiting" "fl_now s = 0"
      "redis_call redis_mem 10 ''b'' OpTry (Delivered, 10) (fl_srv s) = (Inr True, srv)"
    using demo_first[of False] by blast
  let ?s1 = "s\<lparr>fl_now := 10\<rparr>"
  let ?s2 = "set_inst ''b'' ((fl_inst ?s1 ''b'')\<lparr>in_phase := Held, in_grant := Some (fl_now ?s1), in_acts := in_acts (fl_inst ?s1 ''b'') @ [Locked]\<rparr>)
     (?s1\<lparr>fl_srv := srv\<rparr>)"
  let ?s3 = "set_inst ''b'' ((fl_inst ?s2 ''b'')\<lparr>in_phase := Running, in_ctx := Alive, in_acts := in_acts (fl_inst ?s2 ''b'') @ [Ran]\<rparr>) ?s2"
  have "demo_step False s ?s1" by (rule fleet_step.tick) (use s(5) in auto)
  moreover have "demo_step False ?s1 ?s2"
    using fleet_step.try_yes[of ?s1 "''b''" "redis_call redis_mem" "(Delivered, 10)" srv "\<lambda>_. 5" "''sync''" False] s(4,6) by simp
  moreover have "demo_step False ?s2 ?s3" by (rule fleet_step.auto_starts) simp
  ultimately have "(demo_step False)\<^sup>*\<^sup>* demo_start ?s3" using s(1) by (meson rtranclp.rtrancl_into_rtrancl)
  then show ?thesis using s(2,3) by (intro exI[of _ ?s3]) auto
qed

section \<open>The instances follow the runner\<close>

text \<open>What an instance has done since its last round began, by its phase.\<close>

fun since_round :: "string \<Rightarrow> phase \<Rightarrow> action list" where
  "since_round name Held = [Locked]"
| "since_round name Running = [Locked, Ran]"
| "since_round name (Unlocking ro) = butlast (snd (round_calls name ro))"
| "since_round name _ = []"

definition follows :: "string \<Rightarrow> inst \<Rightarrow> bool" where
  "follows name x \<longleftrightarrow>
     in_acts x = concat (map (\<lambda>ro. snd (round_calls name ro)) (in_done x)) @ since_round name (in_phase x) \<and>
     (case in_phase x of
        Ended \<Rightarrow> in_done x \<noteq> [] \<and> \<not> retried name (last (in_done x)) \<and> list_all (retried name) (butlast (in_done x))
      | Unlocking ro \<Rightarrow> list_all (retried name) (in_done x) \<and> snd (round_calls name ro) = since_round name (Unlocking ro) @ [Unlocked]
      | _ \<Rightarrow> list_all (retried name) (in_done x))"

lemma follows_round:
  assumes "follows name x" "in_phase x = Waiting \<and> snd (round_calls name ro) = []"
  shows "follows name (end_round name ro x)"
  using assms by (auto simp: follows_def end_round_def simp del: round_calls.simps)

lemma follows_unlocked: "follows name x \<Longrightarrow> in_phase x = Unlocking ro \<Longrightarrow> follows name (unlocked name ro r x)"
  by (auto simp: follows_def unlocked_def end_round_def simp del: round_calls.simps)

lemma round_of:
  "out \<noteq> Ret None \<Longrightarrow> snd (round_calls name (lock_failed out)) = []"
  "out \<noteq> Ret None \<Longrightarrow> snd (round_calls name (auto_failed out)) = [Locked, Unlocked]"
  "snd (round_calls name (ran out)) = [Locked, Ran, Unlocked]"
  by (auto simp: lock_failed_def auto_failed_def ran_def split: go.splits option.splits)

lemma follows_same: "follows name x \<Longrightarrow> in_phase y = in_phase x \<Longrightarrow> in_done y = in_done x \<Longrightarrow> in_acts y = in_acts x \<Longrightarrow> follows name y"
  by (simp add: follows_def del: round_calls.simps cong: phase.case_cong)

lemma fleet_step_follows:
  assumes "fleet_step call ttl name prompt s s'" "\<And>i. follows name (fl_inst s i)"
  shows "follows name (fl_inst s' i)"
  using assms
proof (induction rule: fleet_step.induct)
  case (extend s j f r srv)
  have "follows name (extended (fl_now s) r (fl_inst s j))"
    using extend.prems[of j] by (rule follows_same) (simp_all add: extended_def)
  then show ?case using extend.prems by simp
next
  case (extend_old s j f r srv)
  have "follows name (extended_old (fl_now s) r (fl_inst s j))"
    using extend_old.prems[of j] by (rule follows_same) (simp_all add: extended_old_def)
  then show ?case using extend_old.prems by simp
next
  case (handler_stops s j)
  have "follows name (stopped (fl_inst s j))" using handler_stops[of j] by (rule follows_same) (simp_all add: stopped_def)
  then show ?case using handler_stops by simp
next
  case (try_yes s j f srv)
  then show ?case using try_yes.prems[of j] by (auto simp: follows_def)
next
  case (auto_starts s j)
  then show ?case using auto_starts.prems[of j] by (auto simp: follows_def)
next
  case (auto_fails s j out)
  then show ?case using auto_fails.prems[of j] by (auto simp: follows_def round_of simp del: round_calls.simps)
next
  case (worker_returns s j out)
  then show ?case using worker_returns.prems[of j] by (auto simp: follows_def round_of simp del: round_calls.simps)
qed (auto simp: round_of intro!: follows_round follows_unlocked simp del: round_calls.simps)

lemma fleet_follows: "fleet_runs call ttl name prompt (new_fleet now srv) s \<Longrightarrow> follows name (fl_inst s i)"
proof (induction arbitrary: i rule: rtranclp_induct)
  case base
  show ?case by (simp add: follows_def new_fleet_def new_inst_def)
qed (rule fleet_step_follows)

lemma trace_to_Suc: "trace_to name rounds (Suc n) = trace_to name rounds n @ snd (round_calls name (rounds n))"
  by (simp add: trace_to_def del: round_calls.simps)

text \<open>C11. What an instance does in any run is what its runner does: the runner returns for the rounds that the instance went
  through exactly if the instance has ended, with the answer of the last round and with just the locking, running and
  unlocking that the instance did; and at any moment these come in rounds in which the worker runs only
  between a lock and its unlock.\<close>

theorem fleet_refines_runner:
  assumes "fleet_runs call ttl name prompt (new_fleet now srv) s" and "x = fl_inst s i"
  shows "if in_phase x = Ended
     then singleWorkerRunner name (\<lambda>n. in_done x ! n) 0 [] = Some (round_answer name (last (in_done x)), in_acts x)
     else \<exists>acts. bracketed acts \<and> in_acts x = acts @ since_round name (in_phase x) \<and>
            (\<forall>rounds. (\<forall>n < length (in_done x). rounds n = in_done x ! n) \<longrightarrow>
               singleWorkerRunner name rounds 0 [] = singleWorkerRunner name rounds (length (in_done x)) acts)"
proof -
  let ?ds = "in_done x"
  have f: "follows name x" using fleet_follows[OF assms(1), of i] assms(2) by simp
  have tr: "trace_to name rounds n = concat (map (\<lambda>ro. snd (round_calls name ro)) (take n ?ds))"
    if "\<forall>k < n. rounds k = ?ds ! k" "n \<le> length ?ds" for rounds n
  proof -
    have "map rounds [0..<n] = take n ?ds" using that by (intro nth_equalityI) auto
    then show ?thesis unfolding trace_to_def by (metis (no_types, lifting) map_map comp_apply map_eq_conv)
  qed
  show ?thesis
  proof (cases "in_phase x = Ended")
    case True
    let ?rs = "\<lambda>n. ?ds ! n" and ?n = "length ?ds - 1"
    have d: "?ds \<noteq> []" "\<not> retried name (last ?ds)" "list_all (retried name) (butlast ?ds)"
        "in_acts x = concat (map (\<lambda>ro. snd (round_calls name ro)) ?ds)"
      using f True by (simp_all add: follows_def del: round_calls.simps)
    have "retried name (?rs j)" if "j < ?n" for j
      using d(3) that by (metis list_all_length length_butlast nth_butlast)
    then have "singleWorkerRunner name ?rs 0 [] = singleWorkerRunner name ?rs ?n (trace_to name ?rs ?n)"
      by (rule runner_reaches)
    also have "\<dots> = Some (round_answer name (last ?ds), trace_to name ?rs (Suc ?n))"
      using d(1,2) runner_step[of name ?rs ?n "trace_to name ?rs ?n"] unfolding trace_to_Suc
      by (simp add: last_conv_nth Let_def del: round_calls.simps)
    also have "trace_to name ?rs (Suc ?n) = in_acts x" using tr[of "Suc ?n" ?rs] d(1,4) by simp
    finally show ?thesis using True by simp
  next
    case False
    let ?acts = "concat (map (\<lambda>ro. snd (round_calls name ro)) ?ds)"
    have a: "in_acts x = ?acts @ since_round name (in_phase x)" "list_all (retried name) ?ds"
      using f False by (cases "in_phase x"; simp add: follows_def del: round_calls.simps)+
    have "bracketed ?acts" using bracketed_trace[of name "\<lambda>n. ?ds ! n" "length ?ds"] tr[of "length ?ds" "\<lambda>n. ?ds ! n"] by simp
    moreover have "singleWorkerRunner name rounds 0 [] = singleWorkerRunner name rounds (length ?ds) ?acts"
      if "\<forall>n < length ?ds. rounds n = ?ds ! n" for rounds
      using runner_reaches[of "length ?ds" name rounds] tr[of "length ?ds" rounds] a(2) that by (simp add: list_all_length)
    ultimately show ?thesis using a(1) False by auto
  qed
qed

theorem fleet_refines_runner_witness:
  "\<exists>s. (demo_step True)\<^sup>*\<^sup>* demo_start s \<and> in_phase (fl_inst s ''a'') = Ended \<and>
     singleWorkerRunner ''sync'' (\<lambda>n. in_done (fl_inst s ''a'') ! n) 0 [] =
       Some (round_answer ''sync'' (lock_failed (Panic ''invalid argument to Int63n'')), [])"
proof -
  let ?ro = "lock_failed (Panic ''invalid argument to Int63n'')"
  define s where "s = set_inst ''a'' (end_round ''sync'' ?ro (fl_inst demo_start ''a'')) demo_start"
  have "demo_step True demo_start s" unfolding s_def by (rule fleet_step.wait_ends) (simp_all add: new_fleet_def new_inst_def)
  then have r: "(demo_step True)\<^sup>*\<^sup>* demo_start s" by blast
  have "\<not> retried ''sync'' ?ro"
    by (simp add: retried_def round_error_def lock_failed_def DeferredPanicToError_def goes_on_def new_error_def as_has_code_def)
  then have x: "in_phase (fl_inst s ''a'') = Ended" "in_done (fl_inst s ''a'') = [?ro]" "in_acts (fl_inst s ''a'') = []"
    by (simp_all add: s_def end_round_def new_fleet_def new_inst_def)
  show ?thesis using fleet_refines_runner[OF r refl, of "''a''"] r x by auto
qed

text \<open>When the call of \<open>Unlock\<close> fails, the goroutine that extends the lock is not cancelled: the runner has returned, and
  the lock is extended until the handler is stopped.\<close>

lemma failed_unlock_keeps_extending:
  "\<exists>s srv. (demo_step True)\<^sup>*\<^sup>* demo_start s \<and> in_phase (fl_inst s ''a'') = Ended \<and> in_old (fl_inst s ''a'') = 1 \<and>
     in_grant (fl_inst s ''a'') = Some 4 \<and> fl_now s = 4 \<and>
     redis_call redis_mem 8 ''b'' OpTry (Delivered, 8) (fl_srv s) = (Inr False, srv)"
proof -
  obtain s srv srv' where s: "(demo_step True)\<^sup>*\<^sup>* demo_start s" "in_phase (fl_inst s ''a'') = Running" "in_ctx (fl_inst s ''a'') = Alive"
      "in_phase (fl_inst s ''b'') = Waiting" "fl_now s = 0" "in_old (fl_inst s ''a'') = 0"
      "redis_call redis_mem 4 ''a'' OpExtend (Delivered, 4) (fl_srv s) = (Inr True, srv)"
      "redis_call redis_mem 8 ''b'' OpTry (Delivered, 8) srv = (Inr False, srv')" "\<And>i. i \<noteq> ''a'' \<Longrightarrow> fl_inst s i = new_inst"
    using demo_first[of True] by blast
  define s1 where "s1 = set_inst ''a'' ((fl_inst s ''a'')\<lparr>in_phase := Unlocking (ran (Ret None))\<rparr>) s"
  define s2 where "s2 = set_inst ''a'' (unlocked ''sync'' (ran (Ret None)) (Inl (ErrServer ''down'')) (fl_inst s1 ''a'')) (s1\<lparr>fl_srv := fl_srv s\<rparr>)"
  define s3 where "s3 = s2\<lparr>fl_now := 4\<rparr>"
  define s4 where "s4 = set_inst ''a'' (extended_old (fl_now s3) (Inr True) (fl_inst s3 ''a'')) (s3\<lparr>fl_srv := srv\<rparr>)"
  have e: "\<not> retried ''sync'' (ran (Ret None))" by (simp add: retried_def round_error_def ran_def DeferredPanicToError_def)
  have "demo_step True s s1" unfolding s1_def by (rule fleet_step.worker_returns) (rule s(2))
  moreover have "demo_step True s1 s2"
    unfolding s2_def
    by (rule fleet_step.unlock[where f = "(NotSent ''down'', 0)"], simp add: s1_def, cases "fl_srv s")
      (auto simp: s1_def redis_Unlock_def fun_upd_idem)
  moreover have "demo_step True s2 s3" unfolding s3_def
    by (rule fleet_step.tick) (use s e in \<open>auto simp: s2_def s1_def active_def unlocked_def end_round_def new_inst_def split: if_splits\<close>)
  moreover have "demo_step True s3 s4" unfolding s4_def
    by (rule fleet_step.extend_old) (use s in \<open>auto simp: s3_def s2_def s1_def unlocked_def end_round_def simp del: redis_call.simps\<close>)
  ultimately have "(demo_step True)\<^sup>*\<^sup>* demo_start s4" using s(1) by (meson rtranclp.rtrancl_into_rtrancl)
  then show ?thesis using s e
    by (intro exI[of _ s4] exI[of _ srv'])
      (auto simp: s4_def s3_def s2_def s1_def unlocked_def end_round_def extended_old_def simp del: redis_call.simps)
qed

text \<open>The same for Postgres, whatever statements and commits fail.\<close>

lemma one_worker_with_postgres:
  assumes "pg_ok P" "\<forall>i. 0 < ttl i" "L = (\<lambda>i. NewDistributedPostgresLock res i (ttl i))"
    and "fleet_runs (pg_call P) ttl name True (new_fleet now (L, tab)) s" "active (fl_inst s i)" "active (fl_inst s j)"
  shows "i = j"
proof -
  have "pg_inv P res ttl (L, tab)" using assms(1,3) by (simp add: pg_inv_def NewDistributedPostgresLock_def new_base_lock_def)
  then show ?thesis using pg_lease.one_active[OF assms(4) _ _ assms(5,6)] assms(2) by blast
qed

end
