(* ===== verification/HttpServer.thy ===== *)
theory HttpServer
  imports Probes ErrorHandler
begin

text \<open>
  The server (\<^verbatim>\<open>rest/http_handler.go\<close>, \<^verbatim>\<open>rest/rest.go\<close>) and the set-up of the middlewares (\<^verbatim>\<open>rest/middleware/middleware.go\<close> and the
  methods \<^verbatim>\<open>Setup\<close> and \<^verbatim>\<open>Priority\<close> of each of them). Gin gives a route the handlers that its group has at the moment when the route is
  added, so the order of set-up decides what a request goes through. A handler is named by the type that it belongs to.
\<close>

section \<open>The server\<close>

record server_conf =
  sv_EnvType :: string
  sv_Tracing :: bool
  sv_BindAddress :: string
  sv_Port :: int
  sv_BasePath :: string
  sv_CORS :: "string option"

text \<open>\<open>sv_CORS\<close> is what the package of CORS objects to in its part of the configuration, for which it panics.\<close>

datatype gin_mode = ReleaseMode | DebugMode

text \<open>The engine has a mode and handlers of its own; the root group starts with those.\<close>

record http_handler =
  hh_mode :: gin_mode
  hh_handlers :: "string list"
  hh_BasePath :: string

definition server_modules :: "server_conf \<Rightarrow> string list" where
  "server_modules conf = [''cors''] @ (if sv_Tracing conf then [''gintrace''] else [])"

definition NewHTTPHandler :: "server_conf \<Rightarrow> http_handler go" where
  "NewHTTPHandler conf =
     (let mode = (if sv_EnvType conf = ''prod'' then ReleaseMode else DebugMode)
      in case sv_CORS conf of
           Some e \<Rightarrow> Panic e
         | None \<Rightarrow> Ret \<lparr>hh_mode = mode, hh_handlers = server_modules conf, hh_BasePath = sv_BasePath conf\<rparr>)"

text \<open>The hooks of the life cycle: starting listens, and serving goes on until the server is closed; the result is what is
  logged, or a panic.\<close>

definition server_start :: "(string \<Rightarrow> string option) \<Rightarrow> server_conf \<Rightarrow> string go" where
  "server_start listen conf =
     (let bindAddress = sv_BindAddress conf @ '':'' @ show_int (sv_Port conf)
      in case listen bindAddress of
           Some e \<Rightarrow> Panic (''failed to run gin server on: '' @ bindAddress @ '', error: '' @ e)
         | None \<Rightarrow> Ret (''Running gin server on: '' @ bindAddress))"

definition serve_ended :: "error \<Rightarrow> error \<Rightarrow> unit go" where
  "serve_ended ErrServerClosed err =
     (if Is err ErrServerClosed then Ret () else Panic (''failed to run gin server, error: '' @ error_message err))"

definition server_stop :: "string option \<Rightarrow> string list" where
  "server_stop shutdownErr = (case shutdownErr of None \<Rightarrow> [] | Some e \<Rightarrow> [''Error while shutting down gin: '' @ e])"

section \<open>Setting up\<close>

text \<open>What a set-up does to the root group: it adds a handler to the group, or a route.\<close>

datatype setup_call = UseHandler string | AddRoute string

fun run_setup :: "setup_call list \<Rightarrow> string list \<times> (string \<times> string list) list \<Rightarrow> string list \<times> (string \<times> string list) list" where
  "run_setup [] st = st"
| "run_setup (UseHandler h # cs) (hs, rs) = run_setup cs (hs @ [h], rs)"
| "run_setup (AddRoute p # cs) (hs, rs) = run_setup cs (hs, rs @ [(p, hs)])"

text \<open>\<^verbatim>\<open>slices.SortFunc\<close>, as insertion.\<close>

fun insert_by :: "('a \<Rightarrow> 'a \<Rightarrow> int) \<Rightarrow> 'a \<Rightarrow> 'a list \<Rightarrow> 'a list" where
  "insert_by cmp x [] = [x]"
| "insert_by cmp x (y # ys) = (if cmp x y \<le> 0 then x # y # ys else y # insert_by cmp x ys)"

definition SortFunc :: "('a \<Rightarrow> 'a \<Rightarrow> int) \<Rightarrow> 'a list \<Rightarrow> 'a list" where
  "SortFunc cmp xs = foldr (insert_by cmp) xs []"

text \<open>\<open>setup\<close> is the method \<^verbatim>\<open>Setup\<close> of a middleware, which may panic.\<close>

fun Middlewares_Setup ::
  "(middleware \<Rightarrow> string \<Rightarrow> setup_call list go) \<Rightarrow> middleware list \<Rightarrow> string \<Rightarrow> string list \<times> (string \<times> string list) list \<Rightarrow>
     (string list \<times> (string \<times> string list) list) go" where
  "Middlewares_Setup setup [] basePath st = Ret st"
| "Middlewares_Setup setup (m # ms) basePath st =
     go_bind (setup m basePath) (\<lambda>cs. Middlewares_Setup setup ms basePath (run_setup cs st))"

definition NewMiddlewares ::
  "(middleware \<Rightarrow> string \<Rightarrow> setup_call list go) \<Rightarrow> middleware list \<Rightarrow> string \<Rightarrow> string list \<times> (string \<times> string list) list \<Rightarrow>
     (string list \<times> (string \<times> string list) list) go" where
  "NewMiddlewares setup ms basePath st = Middlewares_Setup setup (SortFunc mw_compare ms) basePath st"

fun Resources_Setup ::
  "setup_call list list \<Rightarrow> string list \<times> (string \<times> string list) list \<Rightarrow> string list \<times> (string \<times> string list) list" where
  "Resources_Setup [] st = st"
| "Resources_Setup (r # rs) st = Resources_Setup rs (run_setup r st)"

text \<open>The serve command sets the middlewares up before the resources.\<close>

definition serve_setup ::
  "(middleware \<Rightarrow> string \<Rightarrow> setup_call list go) \<Rightarrow> server_conf \<Rightarrow> middleware list \<Rightarrow> setup_call list list \<Rightarrow>
     (string list \<times> (string \<times> string list) list) go" where
  "serve_setup setup conf ms resources =
     go_bind (NewHTTPHandler conf) (\<lambda>h.
     go_bind (NewMiddlewares setup ms (hh_BasePath h) (hh_handlers h, [])) (\<lambda>st.
     Ret (Resources_Setup resources st)))"

section \<open>The middlewares of the framework\<close>

text \<open>The type of a middleware, all in one package, with its priority.\<close>

definition fw_mw :: "int \<Rightarrow> string \<Rightarrow> middleware" where
  "fw_mw priority name = \<lparr>mw_priority = priority, mw_name = name, mw_pkg = ''github.com/southernlabs-io/go-fw/rest/middleware''\<rparr>"

definition request_logger_mw :: middleware where
  "request_logger_mw = fw_mw MiddlewarePriorityHighest ''RequestLoggerMiddleware''"

definition panic_recovery_mw :: middleware where
  "panic_recovery_mw = fw_mw (MiddlewarePriorityHighest + 1) ''PanicRecoveryMiddleware''"

definition health_mw :: middleware where
  "health_mw = fw_mw MiddlewarePriorityProbes ''HealthCheckMiddleware''"

definition ready_mw :: middleware where
  "ready_mw = fw_mw MiddlewarePriorityProbes ''ReadyCheckMiddleware''"

definition database_trx_mw :: middleware where
  "database_trx_mw = fw_mw (MiddlewarePriorityAuthN - 1) ''DatabaseTrxMiddleware''"

definition authn_mw :: middleware where
  "authn_mw = fw_mw MiddlewarePriorityAuthN ''AuthNMiddleware''"

definition authz_mw :: middleware where
  "authz_mw = fw_mw MiddlewarePriorityAuthZ ''AuthZMiddleware''"

definition error_handler_mw :: middleware where
  "error_handler_mw = fw_mw MiddlewarePriorityBody ''ErrorHandlerMiddleware''"

lemmas mw_defs = fw_mw_def request_logger_mw_def panic_recovery_mw_def health_mw_def ready_mw_def database_trx_mw_def authn_mw_def
  authz_mw_def error_handler_mw_def MiddlewarePriorityHighest_def MiddlewarePriorityProbes_def MiddlewarePriorityAuthN_def
  MiddlewarePriorityAuthZ_def MiddlewarePriorityBody_def

text \<open>Their set-up: the probes add a route, authorization nothing, and the others a handler to the root group.\<close>

definition RequestLogger_Setup :: "setup_call list go" where "RequestLogger_Setup = Ret [UseHandler ''RequestLoggerMiddleware'']"
definition PanicRecovery_Setup :: "setup_call list go" where "PanicRecovery_Setup = Ret [UseHandler ''PanicRecoveryMiddleware'']"
definition DatabaseTrx_Setup :: "setup_call list go" where "DatabaseTrx_Setup = Ret [UseHandler ''DatabaseTrxMiddleware'']"
definition AuthN_Setup :: "setup_call list go" where "AuthN_Setup = Ret [UseHandler ''AuthNMiddleware'']"
definition AuthZ_Setup :: "setup_call list go" where "AuthZ_Setup = Ret []"
definition ErrorHandler_Setup :: "setup_call list go" where "ErrorHandler_Setup = Ret [UseHandler ''ErrorHandlerMiddleware'']"

definition probe_calls :: "string \<Rightarrow> string \<Rightarrow> setup_call list go" where
  "probe_calls route basePath =
     (case filepath_Rel basePath route of None \<Rightarrow> Panic ''failed to get relative path'' | Some rel \<Rightarrow> Ret [AddRoute rel])"

definition HealthCheck_Setup :: "string \<Rightarrow> setup_call list go" where "HealthCheck_Setup basePath = probe_calls ''/health'' basePath"
definition ReadyCheck_Setup :: "string \<Rightarrow> setup_call list go" where "ReadyCheck_Setup basePath = probe_calls ''/ready'' basePath"

lemmas setup_defs = RequestLogger_Setup_def PanicRecovery_Setup_def DatabaseTrx_Setup_def AuthN_Setup_def AuthZ_Setup_def ErrorHandler_Setup_def
  probe_calls_def HealthCheck_Setup_def ReadyCheck_Setup_def

text \<open>The method \<^verbatim>\<open>Setup\<close> of the interface; a middleware of the application is taken to add a handler.\<close>

definition fw_setup :: "middleware \<Rightarrow> string \<Rightarrow> setup_call list go" where
  "fw_setup m basePath =
     (if m = request_logger_mw then RequestLogger_Setup else if m = panic_recovery_mw then PanicRecovery_Setup
      else if m = health_mw then HealthCheck_Setup basePath else if m = ready_mw then ReadyCheck_Setup basePath
      else if m = database_trx_mw then DatabaseTrx_Setup else if m = authn_mw then AuthN_Setup
      else if m = authz_mw then AuthZ_Setup else if m = error_handler_mw then ErrorHandler_Setup else Ret [UseHandler (mw_name m)])"

section \<open>Properties\<close>

lemma mw_compare_total: "mw_compare a b \<le> 0 \<or> mw_compare b a \<le> 0"
  by (auto simp: mw_compare_le)

lemma mw_compare_trans: "mw_compare a b \<le> 0 \<Longrightarrow> mw_compare b c \<le> 0 \<Longrightarrow> mw_compare a c \<le> 0"
  by (auto simp: mw_compare_le)

lemma mset_SortFunc [simp]: "mset (SortFunc cmp xs) = mset xs"
proof -
  have "mset (insert_by cmp x ys) = add_mset x (mset ys)" for x ys by (induction ys) auto
  then show ?thesis by (induction xs) (auto simp: SortFunc_def)
qed

lemma sorted_insert_by:
  "sorted_wrt (\<lambda>a b. mw_compare a b \<le> 0) ys \<Longrightarrow> sorted_wrt (\<lambda>a b. mw_compare a b \<le> 0) (insert_by mw_compare x ys)"
proof (induction ys)
  case Nil
  then show ?case by simp
next
  case (Cons y ys)
  have s: "set (insert_by mw_compare x zs) = insert x (set zs)" for zs by (induction zs) auto
  show ?case
  proof (cases "mw_compare x y \<le> 0")
    case True
    then show ?thesis using Cons.prems mw_compare_trans by auto
  next
    case False
    then show ?thesis using Cons s mw_compare_total[of x y] by simp
  qed
qed

lemma sorted_SortFunc: "sorted_wrt (\<lambda>a b. mw_compare a b \<le> 0) (SortFunc mw_compare ms)"
  by (induction ms) (auto simp: SortFunc_def sorted_insert_by)

lemma SortFunc_unique:
  "sorted_wrt (\<lambda>a b. mw_compare a b \<le> 0) ys \<Longrightarrow> mset ms = mset ys \<Longrightarrow> SortFunc mw_compare ms = ys"
  using sorted_wrt_unique[OF sorted_SortFunc, of ys ms] mw_compare_antisym by simp

text \<open>The middlewares of the framework in the order of their priority.\<close>

definition fw_middlewares :: "middleware list" where
  "fw_middlewares = [request_logger_mw, panic_recovery_mw, health_mw, ready_mw, database_trx_mw, authn_mw, authz_mw, error_handler_mw]"

lemma fw_sorted: "sorted_wrt (\<lambda>a b. mw_compare a b \<le> 0) fw_middlewares"
  by (simp add: fw_middlewares_def mw_defs mw_compare_le)

lemma fw_distinct: "distinct fw_middlewares"
  by (simp add: fw_middlewares_def mw_defs)

lemma fw_order:
  assumes "distinct ms" and "set ms \<subseteq> set fw_middlewares"
  shows "SortFunc mw_compare ms = filter (\<lambda>m. m \<in> set ms) fw_middlewares"
proof (rule SortFunc_unique)
  show "sorted_wrt (\<lambda>a b. mw_compare a b \<le> 0) (filter (\<lambda>m. m \<in> set ms) fw_middlewares)"
    using fw_sorted by (rule sorted_wrt_filter)
  have "set ms = set (filter (\<lambda>m. m \<in> set ms) fw_middlewares)" using assms(2) by auto
  then show "mset ms = mset (filter (\<lambda>m. m \<in> set ms) fw_middlewares)"
    using assms(1) fw_distinct by (metis distinct_filter set_eq_iff_mset_eq_distinct)
qed

lemma Resources_routes: "Resources_Setup (map (\<lambda>p. [AddRoute p]) ps) (hs, rs) = (hs, rs @ map (\<lambda>p. (p, hs)) ps)"
  by (induction ps arbitrary: rs) simp_all

text \<open>The set-up of each framework middleware, by what it adds.\<close>

lemma fw_setup_simps:
  "fw_setup request_logger_mw b = Ret [UseHandler ''RequestLoggerMiddleware'']"
  "fw_setup panic_recovery_mw b = Ret [UseHandler ''PanicRecoveryMiddleware'']"
  "fw_setup database_trx_mw b = Ret [UseHandler ''DatabaseTrxMiddleware'']"
  "fw_setup authn_mw b = Ret [UseHandler ''AuthNMiddleware'']"
  "fw_setup authz_mw b = Ret []"
  "fw_setup error_handler_mw b = Ret [UseHandler ''ErrorHandlerMiddleware'']"
  "path_IsAbs b \<Longrightarrow> fw_setup health_mw b = Ret [AddRoute (the (filepath_Rel b ''/health''))]"
  "path_IsAbs b \<Longrightarrow> fw_setup ready_mw b = Ret [AddRoute (the (filepath_Rel b ''/ready''))]"
  using Rel_Join[of b "''/health''"] Rel_Join[of b "''/ready''"] by (auto simp: fw_setup_def setup_defs mw_defs abs_iff)



end
