(* ===== verification/Commands.thy ===== *)
theory Commands
  imports HttpServer
begin

text \<open>
  How an application is put together: the options of the injector (\<^verbatim>\<open>di/di.go\<close> and the variables \<^verbatim>\<open>Module\<close>), the commands
  (\<^verbatim>\<open>cmd/cmd.go\<close>, \<^verbatim>\<open>cmd/serve.go\<close>, \<^verbatim>\<open>cmd/work.go\<close>, \<^verbatim>\<open>cmd/serve_work.go\<close>) and the root command (\<^verbatim>\<open>bootstrap/app.go\<close>). A function that is given
  to the injector is its name with the types of its results. The injector calls the invoked functions in the order of
  the options, which is what decides that the middlewares are set up before the resources.
\<close>

section \<open>Options of the injector\<close>

datatype fx_tag = NoTag | Optional | Group string | Name string

datatype annotation = ParamTags "fx_tag list" | ResultTags "fx_tag list" | From string | As string | OnStop string

datatype fx_option =
    Provide string "annotation list"
  | Supply string "annotation list"
  | Invoke string
  | WithLogger string
  | Populate "string list"
  | Decorate string
  | Options "fx_option list"

text \<open>An argument of type \<^verbatim>\<open>any\<close> that should be a function.\<close>

datatype provider = NilProvider | NotFunc string | Func string "string list"

definition FxProvideAs :: "string \<Rightarrow> provider \<Rightarrow> annotation list \<Rightarrow> annotation list \<Rightarrow> fx_option go" where
  "FxProvideAs iface provider tAnns iAnns =
     (case provider of
        NilProvider \<Rightarrow> Panic ''invalid memory address or nil pointer dereference''
      | NotFunc t \<Rightarrow> Panic (''provider must be a function, got: '' @ t)
      | Func f [] \<Rightarrow> Panic ''reflect: Func index out of bounds''
      | Func f (t # ts) \<Rightarrow> Ret (Options [Provide f tAnns, Provide (''as '' @ iface) (iAnns @ [From t])]))"

text \<open>\<^verbatim>\<open>fx.Options\<close> of arguments that are computed from left to right.\<close>

fun go_list :: "'a go list \<Rightarrow> 'a list go" where
  "go_list [] = Ret []"
| "go_list (r # rs) = go_bind r (\<lambda>x. go_bind (go_list rs) (\<lambda>xs. Ret (x # xs)))"

definition go_options :: "fx_option go list \<Rightarrow> fx_option go" where
  "go_options os = go_bind (go_list os) (\<lambda>xs. Ret (Options xs))"

definition ProvideAsMiddleware :: "provider \<Rightarrow> annotation list \<Rightarrow> fx_option go" where
  "ProvideAsMiddleware provider anns = FxProvideAs ''Middleware'' provider anns [ResultTags [Group ''middlewares'']]"

definition ProvideAsResource :: "provider \<Rightarrow> annotation list \<Rightarrow> fx_option go" where
  "ProvideAsResource provider anns = FxProvideAs ''Resource'' provider [] (anns @ [ResultTags [Group ''resources'']])"

definition ProvideAsHealthCheck :: "provider \<Rightarrow> annotation list \<Rightarrow> fx_option go" where
  "ProvideAsHealthCheck provider anns = FxProvideAs ''HealthCheckProvider'' provider anns [ResultTags [Group ''health_checks'']]"

definition ProvideAsAuthN :: "provider \<Rightarrow> annotation list \<Rightarrow> fx_option go" where
  "ProvideAsAuthN provider anns = FxProvideAs ''AuthNProvider'' provider anns []"

definition ProvideAsAuthZ :: "provider \<Rightarrow> annotation list \<Rightarrow> fx_option go" where
  "ProvideAsAuthZ provider anns = FxProvideAs ''AuthZProvider'' provider anns []"

definition ProvideAsLongRunningWorker :: "provider \<Rightarrow> annotation list \<Rightarrow> fx_option go" where
  "ProvideAsLongRunningWorker provider anns = FxProvideAs ''LongRunningWorker'' provider anns [ResultTags [Group ''long_running_workers'']]"

definition config_Module :: "fx_option go" where
  "config_Module = go_options [Ret (Provide ''NewConfig'' [ParamTags [NoTag, Optional]]), Ret (Provide ''GetRootConfig'' [])]"

definition log_Module :: "fx_option go" where "log_Module = Ret (Provide ''NewLoggerFactory'' [])"

definition di_Module :: "fx_option go" where "di_Module = Ret (Provide ''NewFxLoggerFactory'' [])"

definition providers_Module :: "fx_option go" where
  "providers_Module =
     go_options [ProvideAsHealthCheck (Func ''NewDatabaseHealthCheckProvider'' [''*DatabaseHealthCheckProvider'']) [ParamTags [Optional]],
                 ProvideAsHealthCheck (Func ''NewRedisHealthCheckProvider'' [''*RedisHealthCheckProvider'']) [ParamTags [Optional]]]"

definition middleware_Module :: "fx_option go" where
  "middleware_Module =
     go_options [Ret (Invoke ''NewMiddlewares''),
                 ProvideAsMiddleware (Func ''NewHealthCheckFx'' [''*HealthCheckMiddleware'']) [],
                 ProvideAsMiddleware (Func ''NewReadyCheckFx'' [''*ReadyCheckMiddleware'']) [],
                 ProvideAsMiddleware (Func ''NewPanicRecovery'' [''*PanicRecoveryMiddleware'']) [],
                 ProvideAsMiddleware (Func ''NewErrorHandlerFx'' [''*ErrorHandlerMiddleware'']) []]"

definition rest_Module :: "fx_option go" where
  "rest_Module = go_options [Ret (Invoke ''NewResources''), Ret (Provide ''NewHTTPHandler'' [])]"

definition ModuleWorkerHandler :: "fx_option go" where
  "ModuleWorkerHandler =
     FxProvideAs ''Handler'' (Func ''NewLongRunningWorkerHandlerFx'' [''*LongRunningWorkerHandler'']) [] [ResultTags [Group ''worker_handlers'']]"

section \<open>Commands\<close>

text \<open>A command of cobra runs the injector with its options.\<close>

record cobra_cmd =
  cc_Use :: string
  cc_Short :: string
  cc_opts :: "fx_option go"

text \<open>The methods of the interface \<^verbatim>\<open>Command\<close>; \<open>Run\<close> is the name of the function that is invoked.\<close>

record cmd =
  cm_Cmd :: string
  cm_Short :: string
  cm_Setup :: "cobra_cmd \<Rightarrow> cobra_cmd"
  cm_Run :: string
  cm_FXOpts :: "fx_option go"

definition NewServeCommand :: "fx_option go \<Rightarrow> cmd" where
  "NewServeCommand fxOpts =
     \<lparr>cm_Cmd = ''app:serve'', cm_Short = ''serve application'', cm_Setup = (\<lambda>c. c), cm_Run = ''ServeCommand.Run'',
      cm_FXOpts = go_options [fxOpts, providers_Module, middleware_Module, rest_Module]\<rparr>"

definition NewWorkCommand :: "fx_option go \<Rightarrow> cmd" where
  "NewWorkCommand fxOpts =
     \<lparr>cm_Cmd = ''app:work'', cm_Short = ''worker application'', cm_Setup = (\<lambda>c. c), cm_Run = ''WorkCommand.Run'',
      cm_FXOpts = go_options [fxOpts, ModuleWorkerHandler]\<rparr>"

definition NewServeWorkCommand :: "fx_option go \<Rightarrow> fx_option go \<Rightarrow> fx_option go \<Rightarrow> cmd" where
  "NewServeWorkCommand fxCommonOpts fxServerOpts fxWorkerOpts =
     \<lparr>cm_Cmd = ''app:serve-work'', cm_Short = ''server and worker application'', cm_Setup = (\<lambda>c. c), cm_Run = ''ServeWorkCommand.Run'',
      cm_FXOpts = go_options [fxCommonOpts, cm_FXOpts (NewServeCommand fxServerOpts), cm_FXOpts (NewWorkCommand fxWorkerOpts)]\<rparr>"

definition WrapSubCommand :: "cmd \<Rightarrow> cobra_cmd" where
  "WrapSubCommand c =
     cm_Setup c \<lparr>cc_Use = cm_Cmd c, cc_Short = cm_Short c,
       cc_opts = go_options [config_Module, log_Module, di_Module, Ret (WithLogger ''CreateLogger''), cm_FXOpts c, Ret (Invoke (cm_Run c))]\<rparr>"

fun WrapSubCommands :: "cmd list \<Rightarrow> cobra_cmd list" where
  "WrapSubCommands [] = []"
| "WrapSubCommands (c # cs) = WrapSubCommand c # WrapSubCommands cs"

text \<open>What the function of a command starts; the profiler may fail.\<close>

datatype telemetry = Tracer string string string | Profiler string string

definition startTracer :: "string \<Rightarrow> string \<Rightarrow> string \<Rightarrow> telemetry" where
  "startTracer agent name semVer = Tracer agent name semVer"

definition startProfiler :: "string \<Rightarrow> string \<Rightarrow> string option \<Rightarrow> telemetry go" where
  "startProfiler semVer name err =
     (case err of Some e \<Rightarrow> Panic (''could not start DataDog Profiler, error: '' @ e) | None \<Rightarrow> Ret (Profiler semVer name))"

definition command_Run :: "bool \<Rightarrow> bool \<Rightarrow> string \<Rightarrow> string \<Rightarrow> string \<Rightarrow> string option \<Rightarrow> telemetry list go" where
  "command_Run tracing profiling agent name semVer err =
     (let t = (if tracing then [startTracer agent name semVer] else [])
      in if profiling then go_bind (startProfiler semVer name err) (\<lambda>p. Ret (t @ [p])) else Ret t)"

text \<open>The other two commands start the same.\<close>

definition work_Run :: "bool \<Rightarrow> bool \<Rightarrow> string \<Rightarrow> string \<Rightarrow> string \<Rightarrow> string option \<Rightarrow> telemetry list go" where
  "work_Run tracing profiling agent name semVer err =
     (let t = (if tracing then [startTracer agent name semVer] else [])
      in if profiling then go_bind (startProfiler semVer name err) (\<lambda>p. Ret (t @ [p])) else Ret t)"

definition serve_work_Run :: "bool \<Rightarrow> bool \<Rightarrow> string \<Rightarrow> string \<Rightarrow> string \<Rightarrow> string option \<Rightarrow> telemetry list go" where
  "serve_work_Run tracing profiling agent name semVer err =
     (let t = (if tracing then [startTracer agent name semVer] else [])
      in if profiling then go_bind (startProfiler semVer name err) (\<lambda>p. Ret (t @ [p])) else Ret t)"

lemma commands_start_alike:
  "work_Run tr pr agent name v err = command_Run tr pr agent name v err"
  "serve_work_Run tr pr agent name v err = command_Run tr pr agent name v err"
  by (simp_all add: work_Run_def serve_work_Run_def command_Run_def)

section \<open>The root command\<close>

text \<open>There is one root command in the process: its list of commands is the state.\<close>

definition NewApp :: "cmd list \<Rightarrow> cobra_cmd list \<Rightarrow> cobra_cmd list" where
  "NewApp commands rootCmd = rootCmd @ WrapSubCommands commands"

definition NewAppWithServe :: "fx_option go \<Rightarrow> cobra_cmd list \<Rightarrow> cobra_cmd list" where
  "NewAppWithServe fxOpts = NewApp [NewServeCommand fxOpts]"

definition NewAppWithWork :: "fx_option go \<Rightarrow> cobra_cmd list \<Rightarrow> cobra_cmd list" where
  "NewAppWithWork fxOpts = NewApp [NewWorkCommand fxOpts]"

definition NewAppWithServeAndWork :: "fx_option go \<Rightarrow> fx_option go \<Rightarrow> fx_option go \<Rightarrow> cobra_cmd list \<Rightarrow> cobra_cmd list" where
  "NewAppWithServeAndWork fxCommonOpts fxServerOpts fxWorkerOpts =
     NewApp [NewServeCommand (go_options [fxCommonOpts, fxServerOpts]), NewWorkCommand (go_options [fxCommonOpts, fxWorkerOpts]),
             NewServeWorkCommand fxCommonOpts fxServerOpts fxWorkerOpts]"

section \<open>What a command sets up\<close>

text \<open>The functions that the injector calls, in their order, and the run of them on the state of the engine, which is made by the
  first function that takes the handler. Of those of the framework only the middlewares and the resources change it; \<open>user\<close> is
  what the functions of the application do.\<close>

fun invokes :: "fx_option \<Rightarrow> string list" where
  "invokes (Invoke f) = [f]"
| "invokes (Options opts) = concat (map invokes opts)"
| "invokes _ = []"

type_synonym engine = "(string list \<times> (string \<times> string list) list) option"

definition engine_of :: "server_conf \<Rightarrow> engine \<Rightarrow> (string list \<times> (string \<times> string list) list) go" where
  "engine_of conf st =
     (case st of Some e \<Rightarrow> Ret e | None \<Rightarrow> go_bind (NewHTTPHandler conf) (\<lambda>h. Ret (hh_handlers h, [])))"

definition invoked ::
  "(middleware \<Rightarrow> string \<Rightarrow> setup_call list go) \<Rightarrow> server_conf \<Rightarrow> middleware list \<Rightarrow> setup_call list list \<Rightarrow> (string \<Rightarrow> engine \<Rightarrow> engine go) \<Rightarrow>
     string \<Rightarrow> engine \<Rightarrow> engine go" where
  "invoked setup conf ms resources user f st =
     (if f = ''NewMiddlewares'' then go_bind (engine_of conf st) (\<lambda>e. go_bind (NewMiddlewares setup ms (sv_BasePath conf) e) (\<lambda>e. Ret (Some e)))
      else if f = ''NewResources'' then go_bind (engine_of conf st) (\<lambda>e. Ret (Some (Resources_Setup resources e)))
      else user f st)"

fun run_invokes :: "(string \<Rightarrow> engine \<Rightarrow> engine go) \<Rightarrow> string list \<Rightarrow> engine \<Rightarrow> engine go" where
  "run_invokes call [] st = Ret st"
| "run_invokes call (f # fs) st = go_bind (call f st) (run_invokes call fs)"

definition start_app :: "(string \<Rightarrow> engine \<Rightarrow> engine go) \<Rightarrow> fx_option go \<Rightarrow> engine \<Rightarrow> engine go" where
  "start_app call opts st = go_bind opts (\<lambda>opt. run_invokes call (invokes opt) st)"

lemma go_options_Ret [simp]: "go_options (map Ret xs) = Ret (Options xs)"
proof -
  have "go_list (map Ret xs) = Ret xs" by (induction xs) simp_all
  then show ?thesis by (simp add: go_options_def)
qed

lemmas provide_defs = FxProvideAs_def ProvideAsMiddleware_def ProvideAsHealthCheck_def config_Module_def log_Module_def di_Module_def
  providers_Module_def middleware_Module_def rest_Module_def ModuleWorkerHandler_def

text \<open>The invoked functions of a command, given the options of the application.\<close>

definition app_invokes :: "cobra_cmd \<Rightarrow> string list go" where
  "app_invokes c = go_bind (cc_opts c) (\<lambda>opt. Ret (invokes opt))"

lemma serve_invokes:
  "app_invokes (WrapSubCommand (NewServeCommand (Ret u))) = Ret (invokes u @ [''NewMiddlewares'', ''NewResources'', ''ServeCommand.Run''])"
  by (simp add: app_invokes_def WrapSubCommand_def NewServeCommand_def provide_defs go_options_def)

lemma work_invokes: "app_invokes (WrapSubCommand (NewWorkCommand (Ret u))) = Ret (invokes u @ [''WorkCommand.Run''])"
  by (simp add: app_invokes_def WrapSubCommand_def NewWorkCommand_def provide_defs go_options_def)

lemma serve_work_invokes:
  "app_invokes (WrapSubCommand (NewServeWorkCommand (Ret c) (Ret s) (Ret w))) =
   Ret (invokes c @ invokes s @ [''NewMiddlewares'', ''NewResources''] @ invokes w @ [''ServeWorkCommand.Run''])"
  by (simp add: app_invokes_def WrapSubCommand_def NewServeWorkCommand_def NewServeCommand_def NewWorkCommand_def provide_defs go_options_def)

lemma start_app_invokes: "app_invokes c = Ret fs \<Longrightarrow> start_app call (cc_opts c) st = run_invokes call fs st"
  by (cases "cc_opts c") (simp_all add: app_invokes_def start_app_def)

lemma run_invokes_append: "run_invokes call (fs @ gs) st = go_bind (run_invokes call fs st) (run_invokes call gs)"
proof (induction fs arbitrary: st)
  case (Cons f fs)
  then show ?case by (cases "call f st") simp_all
qed simp

lemma run_invokes_idle: "(\<And>f st. f \<in> set fs \<Longrightarrow> call f st = Ret st) \<Longrightarrow> run_invokes call fs st = Ret st"
  by (induction fs arbitrary: st) simp_all

lemma run_invokes_between:
  "(\<And>f st. f \<in> set us \<union> set vs \<Longrightarrow> call f st = Ret st) \<Longrightarrow> run_invokes call (us @ fs @ vs) st = run_invokes call fs st"
  by (cases "run_invokes call fs st") (simp_all add: run_invokes_append run_invokes_idle)



text \<open>The annotations that come with the constructor of a middleware, a health check or a worker are for the constructor; those of a
  resource are for the conversion to the interface, and the constructor gets none.\<close>

lemma annotations_of_providers:
  "ProvideAsMiddleware (Func f (t # ts)) anns = Ret (Options [Provide f anns, Provide ''as Middleware'' [ResultTags [Group ''middlewares''], From t]])"
  "ProvideAsHealthCheck (Func f (t # ts)) anns = Ret (Options [Provide f anns, Provide ''as HealthCheckProvider'' [ResultTags [Group ''health_checks''], From t]])"
  "ProvideAsLongRunningWorker (Func f (t # ts)) anns =
     Ret (Options [Provide f anns, Provide ''as LongRunningWorker'' [ResultTags [Group ''long_running_workers''], From t]])"
  "ProvideAsResource (Func f (t # ts)) anns = Ret (Options [Provide f [], Provide ''as Resource'' (anns @ [ResultTags [Group ''resources''], From t])])"
  by (simp_all add: ProvideAsMiddleware_def ProvideAsHealthCheck_def ProvideAsLongRunningWorker_def ProvideAsResource_def FxProvideAs_def)

text \<open>A second application has the commands of the first one, and the first of two commands with one name is the one that
  is found.\<close>

lemma applications_share_commands:
  "find (\<lambda>c. cc_Use c = ''app:serve'') (NewAppWithServe opts2 (NewAppWithServe opts1 [])) = Some (WrapSubCommand (NewServeCommand opts1))"
  by (simp add: NewAppWithServe_def NewApp_def WrapSubCommand_def NewServeCommand_def)

section \<open>Dependencies\<close>

text \<open>The types of the parameters and results of the constructors around Redis, and the required parameters that no
  constructor provides, for which the injector reports an error when the constructor is needed.\<close>

definition redis_Module :: fx_option where
  "redis_Module = Provide ''NewRedis'' [OnStop ''redis.OnStop'']"

definition ModuleRedis :: "fx_option go" where
  "ModuleRedis = FxProvideAs ''Factory'' (Func ''NewRedisFactory'' [''*RedisFactory'']) [] []"

definition signature :: "string \<Rightarrow> string list \<times> string list" where
  "signature f =
     (case map_of [(''GetRootConfig'', ([], [''RootConfig''])), (''NewConfig'', ([''RootConfig'', ''SecretsManager''], [''Config''])),
                   (''NewLoggerFactory'', ([''RootConfig''], [''*LoggerFactory''])),
                   (''NewRedis'', ([''Config'', ''*LoggerFactory''], [''*Redis''])), (''redis.OnStop'', ([''Redis''], [])),
                   (''NewTestRedis'', ([''Config'', ''*LoggerFactory''], [''Redis''])), (''OnTestRedisStop'', ([''Redis''], [])),
                   (''NewRedisFactory'', ([''Redis''], [''*RedisFactory''])), (''as Factory'', ([''*RedisFactory''], [''Factory''])),
                   (''NewRedisHealthCheckProvider'', ([''Redis''], [''*RedisHealthCheckProvider'']))] f of
        None \<Rightarrow> ([], []) | Some sig \<Rightarrow> sig)"

fun provides :: "fx_option \<Rightarrow> (string \<times> annotation list) list" where
  "provides (Provide f anns) = [(f, anns)]"
| "provides (Options opts) = concat (map provides opts)"
| "provides _ = []"

text \<open>The tags of the parameters are by position; a hook takes its own parameters.\<close>

fun required :: "annotation list \<Rightarrow> string list \<Rightarrow> string list" where
  "required [] params = params"
| "required (ParamTags tags # anns) params =
     required anns (map snd (filter (\<lambda>(i, t). \<not> (i < length tags \<and> tags ! i = Optional)) (enumerate 0 params)))"
| "required (OnStop hook # anns) params = required anns params @ fst (signature hook)"
| "required (_ # anns) params = required anns params"

definition missing :: "fx_option \<Rightarrow> (string \<times> string) list" where
  "missing opts =
     (let ps = provides opts; results = concat (map (\<lambda>(f, _). snd (signature f)) ps)
      in concat (map (\<lambda>(f, anns). map (Pair f) (filter (\<lambda>t. t \<notin> set results) (required anns (fst (signature f))))) ps))"

text \<open>The module of Redis provides a pointer, while its own hook, the locks and the health check take a value: a required value is
  missing, and the optional one of the health check stays empty. The module for tests provides the value.\<close>

lemma redis_value_is_missing:
  "go_bind (go_options [config_Module, log_Module, Ret redis_Module, ModuleRedis, providers_Module]) (\<lambda>opts. Ret (missing opts)) =
     Ret [(''NewRedis'', ''Redis''), (''NewRedisFactory'', ''Redis'')]"
  "go_bind (go_options [config_Module, log_Module, Ret (Provide ''NewTestRedis'' [OnStop ''OnTestRedisStop'']), ModuleRedis, providers_Module])
     (\<lambda>opts. Ret (missing opts)) = Ret []"
  by code_simp+

section \<open>The configuration of AWS\<close>

text \<open>There are two functions of this name: the one of \<^verbatim>\<open>aws/config.go\<close> returns the failure, that of \<^verbatim>\<open>di/aws_config.go\<close> panics.
  \<open>load\<close> and \<open>append_tracing\<close> are those of the SDK and of Datadog.\<close>

definition NewAWSConfig :: "string + 'a \<Rightarrow> ('a \<Rightarrow> 'a) \<Rightarrow> bool \<Rightarrow> string + 'a" where
  "NewAWSConfig load append_tracing tracing =
     (case load of
        Inl e \<Rightarrow> Inl (''failed to build default AWS config, error: '' @ e)
      | Inr c \<Rightarrow> Inr (if tracing then append_tracing c else c))"

definition di_NewAWSConfig :: "string + 'a \<Rightarrow> ('a \<Rightarrow> 'a) \<Rightarrow> bool \<Rightarrow> 'a go" where
  "di_NewAWSConfig load append_tracing tracing =
     (case load of
        Inl e \<Rightarrow> Panic (''failed to build default AWS config, error: '' @ e)
      | Inr c \<Rightarrow> Ret (if tracing then append_tracing c else c))"

lemma aws_configs_agree:
  "di_NewAWSConfig load append_tracing tracing = (case NewAWSConfig load append_tracing tracing of Inl e \<Rightarrow> Panic e | Inr c \<Rightarrow> Ret c)"
  by (cases load) (simp_all add: NewAWSConfig_def di_NewAWSConfig_def)

end
