(* ===== verification/Wiring.thy ===== *)
theory Wiring
  imports Commands ErrorHandler
begin

text \<open>
  The modules that an application adds to a command (\<^verbatim>\<open>database\<close>, \<^verbatim>\<open>distributedlock\<close>, \<^verbatim>\<open>secrets\<close>, \<^verbatim>\<open>aws\<close>, \<^verbatim>\<open>slack\<close>, \<^verbatim>\<open>rest/middleware\<close>), the parameters
  of their constructors as the source declares them, and which parameters nothing provides. The injector fails to build a
  value whose required parameter is missing; parameters of a group or marked as optional are never missing. The
  registration of error mappers is part of this, as the handler gets them from a group.
\<close>

section \<open>Error mappers in the injector\<close>

definition AsErrorMapper :: "string \<Rightarrow> string \<times> annotation list" where
  "AsErrorMapper errMapper = (errMapper, [ResultTags [Group ''error_mappers'']])"

definition RegisterErrorAsMapper :: "string \<Rightarrow> fx_option" where
  "RegisterErrorAsMapper errAs = (case AsErrorMapper (''as:'' @ errAs) of (m, anns) \<Rightarrow> Supply m anns)"

definition RegisterErrorIsMapper :: "string \<Rightarrow> fx_option" where
  "RegisterErrorIsMapper errIs = (case AsErrorMapper (''is:'' @ errIs) of (m, anns) \<Rightarrow> Supply m anns)"

definition RegisterErrorCodeMapper :: "string \<Rightarrow> fx_option" where
  "RegisterErrorCodeMapper errCode = (case AsErrorMapper (''code:'' @ errCode) of (m, anns) \<Rightarrow> Supply m anns)"

definition RegisterDefaultErrorMapper :: "string \<Rightarrow> fx_option" where
  "RegisterDefaultErrorMapper builder = Supply builder [ResultTags [Name ''default_error_mapper'']]"

text \<open>The handler of the injector has the mappers of the group, in the order in which the injector gives them.\<close>

definition NewErrorHandlerFx :: "error_mapper list \<Rightarrow> response_builder option \<Rightarrow> error_mapper list" where
  "NewErrorHandlerFx group_mappers default_mapper = NewErrorHandler group_mappers default_mapper"

text \<open>The injector does not say in which order it gives the values of a group. A mapper answers an error when its check holds and its
  builder does not decline.\<close>

definition answers :: "gin_error \<Rightarrow> error_mapper \<Rightarrow> bool" where
  "answers g m \<longleftrightarrow> em_check m (ge_Err g) \<and> em_responseBuilder m g \<noteq> Inr (None, 0)"

definition answer_of :: "gin_error \<Rightarrow> error_mapper \<Rightarrow> mapped" where
  "answer_of g m = (case em_responseBuilder m g of Inl e \<Rightarrow> BuildFailed | Inr (b, status) \<Rightarrow> Respond b status)"

lemma try_mappers_first:
  "try_mappers ms g = (case filter (answers g) ms of [] \<Rightarrow> NotMapped | m # _ \<Rightarrow> answer_of g m)"
  by (induction ms) (auto simp: answers_def answer_of_def split: sum.splits)

text \<open>So the order does not matter as long as the mappers that answer an error answer it alike; it matters for two that do not.\<close>

lemma mapper_order_irrelevant:
  assumes "mset ms = mset ms'" "\<And>a b. a \<in> set ms \<Longrightarrow> b \<in> set ms \<Longrightarrow> answers g a \<Longrightarrow> answers g b \<Longrightarrow> answer_of g a = answer_of g b"
  shows "try_mappers (NewErrorHandlerFx ms d) g = try_mappers (NewErrorHandlerFx ms' d) g"
proof -
  let ?d = "case d of None \<Rightarrow> [] | Some b \<Rightarrow> [\<lparr>em_check = \<lambda>_. True, em_responseBuilder = b\<rparr>]"
  have s: "set ms = set ms'" using assms(1) by (metis set_mset_mset)
  show ?thesis
  proof (cases "filter (answers g) ms")
    case Nil
    then have "filter (answers g) ms' = []" using s by (auto simp: filter_empty_conv)
    then show ?thesis using Nil by (simp add: try_mappers_first NewErrorHandlerFx_def NewErrorHandler_def)
  next
    case (Cons a as)
    have "a \<in> set (filter (answers g) ms)" using Cons by simp
    then have a: "a \<in> set ms" "answers g a" by simp_all
    then obtain b bs where b: "filter (answers g) ms' = b # bs" using s by (cases "filter (answers g) ms'") (auto simp: filter_empty_conv)
    then have "b \<in> set (filter (answers g) ms')" by simp
    then have "b \<in> set ms" "answers g b" using s by simp_all
    then have "answer_of g a = answer_of g b" using assms(2) a by blast
    then show ?thesis using Cons b by (simp add: try_mappers_first NewErrorHandlerFx_def NewErrorHandler_def)
  qed
qed

lemma mapper_order_matters:
  "\<exists>a b g. try_mappers (NewErrorHandlerFx [a, b] None) g \<noteq> try_mappers (NewErrorHandlerFx [b, a] None) g"
proof -
  let ?a = "\<lparr>em_check = \<lambda>_. True, em_responseBuilder = \<lambda>_. Inr (None, 404)\<rparr>"
  let ?b = "\<lparr>em_check = \<lambda>_. True, em_responseBuilder = \<lambda>_. Inr (None, 409)\<rparr>"
  have "try_mappers (NewErrorHandlerFx [?a, ?b] None) g \<noteq> try_mappers (NewErrorHandlerFx [?b, ?a] None) g" for g
    by (simp add: NewErrorHandlerFx_def NewErrorHandler_def)
  then show ?thesis by blast
qed

section \<open>Modules\<close>

definition database_Module :: "fx_option go" where "database_Module = Ret (Provide ''NewDB'' [OnStop ''OnDBStop''])"

definition aws_Module :: "fx_option go" where "aws_Module = Ret (Provide ''aws.NewAWSConfig'' [])"

definition slack_Module :: "fx_option go" where
  "slack_Module = go_options [Ret (Provide ''NewSlackClient'' []), Ret (Decorate ''slack.NewFxLoggerFactory'')]"

definition secrets_Module :: "fx_option go" where "secrets_Module = go_options [Ret (Provide ''config.SecretsManager of secrets'' [])]"

definition ModuleAWS :: "fx_option go" where
  "ModuleAWS = go_options [secrets_Module, FxProvideAs ''secrets.SecretsManager'' (Func ''NewAWSSecretsManager'' [''*AWSSecretsManager'']) [] []]"

definition JWTProviderModule :: "fx_option go" where "JWTProviderModule = Ret (Provide ''NewJWTProvider'' [])"

definition AuthNModule :: "fx_option go" where
  "AuthNModule = ProvideAsMiddleware (Func ''NewAuthN'' [''*AuthNMiddleware'']) []"

definition AuthZModule :: "fx_option go" where
  "AuthZModule = ProvideAsMiddleware (Func ''NewAuthZ'' [''*AuthZMiddleware'']) []"

definition DatabaseTrxModule :: "fx_option go" where
  "DatabaseTrxModule = ProvideAsMiddleware (Func ''NewDatabaseTrx'' [''*DatabaseTrxMiddleware'']) []"

definition ModulePostgres :: "fx_option go" where
  "ModulePostgres = FxProvideAs ''Factory'' (Func ''NewPostgresFactory'' [''*PostgresFactory'']) [] []"

section \<open>Parameters and results of the constructors\<close>

definition BaseParams :: "(string \<times> fx_tag) list" where
  "BaseParams = [(''*LoggerFactory'', NoTag), (''fx.Lifecycle'', NoTag), (''fx.Shutdowner'', NoTag), (''Config'', NoTag), (''DB'', Optional)]"

definition ErrorHandlerMiddlewareParams :: "(string \<times> fx_tag) list" where
  "ErrorHandlerMiddlewareParams = BaseParams @ [(''[]ErrorMapper'', Group ''error_mappers''), (''ErrorResponseBuilder'', Optional)]"

definition HealthCheckMiddlewareParams :: "(string \<times> fx_tag) list" where
  "HealthCheckMiddlewareParams = BaseParams @ [(''[]HealthCheckProvider'', Group ''health_checks'')]"

definition ReadyCheckMiddlewareParams :: "(string \<times> fx_tag) list" where
  "ReadyCheckMiddlewareParams = BaseParams @ [(''*LoggerFactory'', NoTag), (''[]ReadyCheckProvider'', Group ''ready_checks'')]"

definition LongRunningWorkerHandlerParams :: "(string \<times> fx_tag) list" where
  "LongRunningWorkerHandlerParams = BaseParams @ [(''Factory'', NoTag), (''[]LongRunningWorker'', Group ''long_running_workers'')]"

text \<open>The invoked functions and the commands are in the table with no result.\<close>

definition constructors :: "(string \<times> (string \<times> fx_tag) list \<times> string list) list" where
  "constructors =
     [(''GetRootConfig'', [], [''RootConfig'']),
      (''NewConfig'', [(''RootConfig'', NoTag), (''config.SecretsManager'', NoTag)], [''Config'']),
      (''NewLoggerFactory'', [(''RootConfig'', NoTag)], [''*LoggerFactory'']),
      (''NewFxLoggerFactory'', [(''*LoggerFactory'', NoTag)], [''FxLoggerFactory'']),
      (''NewHTTPHandler'', [(''Config'', NoTag), (''*LoggerFactory'', NoTag), (''fx.Lifecycle'', NoTag)], [''HTTPHandler'']),
      (''NewDB'', [(''Config'', NoTag), (''*LoggerFactory'', NoTag)], [''DB'']),
      (''NewRedis'', [(''Config'', NoTag), (''*LoggerFactory'', NoTag)], [''*Redis'']),
      (''NewDatabaseHealthCheckProvider'', [(''DB'', NoTag)], [''*DatabaseHealthCheckProvider'']),
      (''NewRedisHealthCheckProvider'', [(''Redis'', NoTag)], [''*RedisHealthCheckProvider'']),
      (''NewHealthCheckFx'', HealthCheckMiddlewareParams, [''*HealthCheckMiddleware'']),
      (''NewReadyCheckFx'', ReadyCheckMiddlewareParams, [''*ReadyCheckMiddleware'']),
      (''NewPanicRecovery'', [(''Config'', NoTag), (''*LoggerFactory'', NoTag)], [''*PanicRecoveryMiddleware'']),
      (''NewErrorHandlerFx'', ErrorHandlerMiddlewareParams, [''*ErrorHandlerMiddleware'']),
      (''NewRequestLogger'', [(''Config'', NoTag), (''*LoggerFactory'', NoTag)], [''*RequestLoggerMiddleware'']),
      (''NewAuthN'', [(''Config'', NoTag), (''*LoggerFactory'', NoTag), (''AuthNProvider'', NoTag)], [''*AuthNMiddleware'']),
      (''NewAuthZ'', [(''Config'', NoTag), (''*LoggerFactory'', NoTag), (''AuthZProvider'', NoTag)], [''*AuthZMiddleware'']),
      (''NewDatabaseTrx'', [(''Config'', NoTag), (''*LoggerFactory'', NoTag), (''DB'', NoTag)], [''*DatabaseTrxMiddleware'']),
      (''NewJWTProvider'', [(''Config'', NoTag)], [''JWTProvider'']),
      (''NewLongRunningWorkerHandlerFx'', LongRunningWorkerHandlerParams, [''*LongRunningWorkerHandler'']),
      (''NewPostgresFactory'', [], [''*PostgresFactory'']),
      (''NewLocalFactory'', [], [''*LocalFactory'']),
      (''NewRedisFactory'', [(''Redis'', NoTag)], [''*RedisFactory'']),
      (''aws.NewAWSConfig'', [(''RootConfig'', NoTag)], [''aws.Config'']),
      (''di.NewAWSConfig'', [(''RootConfig'', NoTag)], [''*aws.Config'']),
      (''NewAWSDynamoDBClient'', [(''aws.Config'', NoTag)], [''*dynamodb.Client'']),
      (''NewAWSSecretsManager'', [(''RootConfig'', NoTag), (''*aws.Config'', NoTag), (''KeyTransformer'', Optional)], [''*AWSSecretsManager'']),
      (''config.SecretsManager of secrets'', [(''secrets.SecretsManager'', NoTag)], [''config.SecretsManager'']),
      (''NewSlackClient'', [(''Config'', NoTag), (''*LoggerFactory'', NoTag)], [''*slack.Client'']),
      (''NewMiddlewares'', [(''*LoggerFactory'', NoTag), (''[]Middleware'', Group ''middlewares''), (''HTTPHandler'', NoTag)], []),
      (''NewResources'', [(''[]Resource'', Group ''resources''), (''HTTPHandler'', Optional)], []),
      (''ServeCommand.Run'', [(''Config'', NoTag), (''HTTPHandler'', NoTag)], []),
      (''WorkCommand.Run'', [(''Config'', NoTag), (''[]Handler'', Group ''worker_handlers'')], []),
      (''ServeWorkCommand.Run'', [(''Config'', NoTag), (''HTTPHandler'', NoTag), (''[]Handler'', Group ''worker_handlers'')], []),
      (''OnDBStop'', [(''DB'', NoTag)], []), (''redis.OnStop'', [(''Redis'', NoTag)], [])]"

definition params_of :: "string \<Rightarrow> (string \<times> fx_tag) list" where
  "params_of f = (case map_of constructors f of None \<Rightarrow> [] | Some x \<Rightarrow> fst x)"

definition results_of :: "string \<Rightarrow> string list" where
  "results_of f = (case map_of constructors f of None \<Rightarrow> [] | Some x \<Rightarrow> snd x)"

text \<open>The tags of an annotation go to the parameters by position, the conversion to an interface takes the type that it converts, and
  a hook needs its own parameters.\<close>

fun tagged :: "fx_tag list \<Rightarrow> (string \<times> fx_tag) list \<Rightarrow> (string \<times> fx_tag) list" where
  "tagged (t # ts) (p # ps) = (if t = NoTag then p else (fst p, t)) # tagged ts ps"
| "tagged _ ps = ps"

fun needs :: "annotation list \<Rightarrow> (string \<times> fx_tag) list \<Rightarrow> (string \<times> fx_tag) list" where
  "needs [] ps = ps"
| "needs (ParamTags ts # anns) ps = needs anns (tagged ts ps)"
| "needs (From t # anns) ps = (t, NoTag) # needs anns ps"
| "needs (OnStop hook # anns) ps = needs anns ps @ params_of hook"
| "needs (_ # anns) ps = needs anns ps"

fun in_group :: "annotation list \<Rightarrow> bool" where
  "in_group [] = False"
| "in_group (ResultTags (Group g # _) # anns) = True"
| "in_group (_ # anns) = in_group anns"

text \<open>What a set of options provides, and what its constructors and invoked functions need.\<close>

definition given :: "string \<times> annotation list \<Rightarrow> string list" where
  "given c = (if in_group (snd c) then [] else if HasPrefix (fst c) ''as '' then [drop 3 (fst c)] else results_of (fst c))"

definition available :: "fx_option \<Rightarrow> string list" where
  "available opts = [''fx.Lifecycle'', ''fx.Shutdowner''] @ concat (map given (provides opts))"

fun may_be_absent :: "fx_tag \<Rightarrow> bool" where
  "may_be_absent Optional = True" | "may_be_absent (Group g) = True" | "may_be_absent _ = False"

definition wants :: "string \<times> annotation list \<Rightarrow> (string \<times> string) list" where
  "wants c = map (\<lambda>p. (fst c, fst p)) (filter (\<lambda>p. \<not> may_be_absent (snd p)) (needs (snd c) (params_of (fst c))))"

definition wanted :: "fx_option \<Rightarrow> (string \<times> string) list" where
  "wanted opts = concat (map wants (provides opts)) @ concat (map (\<lambda>f. wants (f, [])) (invokes opts))"

definition lacking :: "string list \<Rightarrow> (string \<times> string) list \<Rightarrow> (string \<times> string) list" where
  "lacking types xs = filter (\<lambda>x. snd x \<notin> set types) xs"

definition unmet :: "fx_option \<Rightarrow> (string \<times> string) list" where
  "unmet opts = lacking (available opts) (wanted opts)"

text \<open>Options that lack nothing still lack nothing together, and adding options never takes a provided value away.\<close>

lemma unmet_compose: "set (unmet (Options (os @ os'))) \<subseteq> set (unmet (Options os)) \<union> set (unmet (Options os'))"
  by (auto simp: unmet_def lacking_def wanted_def available_def)

lemma complete_options_compose:
  assumes "\<And>opt. opt \<in> set os \<Longrightarrow> unmet opt = []"
  shows "unmet (Options os) = []"
proof -
  have "unmet (Options [opt]) = []" if "unmet opt = []" for opt
    using that by (simp add: unmet_def lacking_def wanted_def available_def)
  then have "set (unmet (Options os)) = {}" using assms
  proof (induction os)
    case Nil
    then show ?case by (simp add: unmet_def lacking_def wanted_def)
  next
    case (Cons o' os)
    have "set (unmet (Options (o' # os))) \<subseteq> set (unmet (Options [o'])) \<union> set (unmet (Options os))"
      using unmet_compose[of "[o']" os] by simp
    then show ?case using Cons by auto
  qed
  then show ?thesis by simp
qed


text \<open>The commands of an application and the modules that it may add to them. A command for the server lacks nothing by itself, and so with the
  database and its middleware; authentication needs a provider of the application, which the provider of tokens is not, and a worker needs the module of a lock.\<close>

fun unmet_of :: "fx_option go \<Rightarrow> (string \<times> string) list go" where
  "unmet_of (Ret opts) = Ret (unmet opts)"
| "unmet_of (Panic m) = Panic m"

abbreviation lacks :: "cmd \<Rightarrow> (string \<times> string) list go" where
  "lacks c \<equiv> unmet_of (cc_opts (WrapSubCommand c))"

lemma server_lacks:
  "lacks (NewServeCommand (Ret (Options []))) = Ret []"
  "lacks (NewServeCommand (go_options [database_Module, DatabaseTrxModule, slack_Module])) = Ret []"
  "lacks (NewServeCommand DatabaseTrxModule) = Ret [(''NewDatabaseTrx'', ''DB'')]"
  "lacks (NewServeCommand (go_options [AuthNModule, JWTProviderModule])) = Ret [(''NewAuthN'', ''AuthNProvider'')]"
  by code_simp+

lemma worker_lacks:
  "lacks (NewWorkCommand (Ret (Options []))) = Ret [(''NewLongRunningWorkerHandlerFx'', ''Factory'')]"
  "lacks (NewWorkCommand ModulePostgres) = Ret []"
  "lacks (NewWorkCommand ModuleRedis) = Ret [(''NewRedisFactory'', ''Redis'')]"
  "lacks (NewServeWorkCommand (Ret (Options [])) (Ret (Options [])) ModulePostgres) = Ret []"
  by code_simp+

text \<open>The manager of secrets of AWS takes a pointer to the configuration of AWS, while the module of the package \<^verbatim>\<open>aws\<close> provides a value; the constructor of
  the package \<^verbatim>\<open>di\<close>, which is in no module, provides the pointer.\<close>

lemma aws_config_is_missing:
  "lacks (NewServeCommand (go_options [aws_Module, ModuleAWS])) = Ret [(''NewAWSSecretsManager'', ''*aws.Config'')]"
  "lacks (NewServeCommand (go_options [Ret (Provide ''di.NewAWSConfig'' []), ModuleAWS])) = Ret []"
  by code_simp+

end
