(* ===== verification/TestSupport.thy ===== *)
theory TestSupport
  imports Commands Connections ConfigLoad DynamoDB Worker "HOL-Library.Signed_Division" "HOL-Library.Word"
begin

text \<open>
  The support for tests of applications (\<^verbatim>\<open>test/\<close>): the name of the database of a test and its life (\<^verbatim>\<open>db.go\<close>), Redis and DynamoDB
  for tests, the configuration (\<^verbatim>\<open>config.go\<close>), the writer of the loggers (\<^verbatim>\<open>logger.go\<close>), the application under test (\<^verbatim>\<open>fx.go\<close>) and
  the client of its server (\<^verbatim>\<open>http_handler_client.go\<close>). The servers, JSON and the hash are arguments.
\<close>

section \<open>The name of the database of a test\<close>

text \<open>\<^verbatim>\<open>strings.NewReplacer\<close> for texts that are not empty: from left to right, the first pair that matches.\<close>

function Replace :: "(string \<times> string) list \<Rightarrow> string \<Rightarrow> string" where
  "Replace pairs [] = []"
| "Replace pairs (c # s) =
     (case find (\<lambda>(old, new). old \<noteq> [] \<and> HasPrefix (c # s) old) pairs of
        Some (old, new) \<Rightarrow> new @ Replace pairs (drop (length old) (c # s))
      | None \<Rightarrow> c # Replace pairs s)"
  by pat_completeness auto
termination
  by (relation "measure (\<lambda>(pairs, s). length s)") (auto simp: find_Some_iff)

definition dbNameReplacer :: "string \<Rightarrow> string" where
  "dbNameReplacer s = Replace [('' '', ''_''), (''-'', ''_''), (''test'', [])] s"

text \<open>\<^verbatim>\<open>strings.Split\<close> at a separator of one byte.\<close>

fun Split :: "string \<Rightarrow> char \<Rightarrow> string list" where
  "Split [] d = [[]]"
| "Split (c # s) d = (if c = d then [] # Split s d else (case Split s d of [] \<Rightarrow> [[c]] | p # ps \<Rightarrow> (c # p) # ps))"

text \<open>\<^verbatim>\<open>s[0:n]\<close>.\<close>

definition slice_to :: "string \<Rightarrow> int \<Rightarrow> string go" where
  "slice_to s n = (if n < 0 \<or> int (length s) < n then Panic ''slice bounds out of range'' else Ret (take (nat n) s))"

fun cut_parts :: "int \<Rightarrow> string list \<Rightarrow> string \<Rightarrow> string go" where
  "cut_parts maxCutLen [] s = Ret s"
| "cut_parts maxCutLen (part # parts) s =
     go_bind (if int (length part) > maxCutLen then slice_to part maxCutLen else Ret part)
       (\<lambda>cut. cut_parts maxCutLen parts (s @ cut @ ''_''))"

definition maxLen :: int where "maxLen = 63"

definition db_parts :: "string \<Rightarrow> string list" where
  "db_parts name = Split (dbNameReplacer (ToLower name)) CHR ''_''"

definition db_name_prefix :: "string \<Rightarrow> string go" where
  "db_name_prefix name =
     (let parts = db_parts name; maxCutLen = (maxLen - int (length parts)) sdiv int (length parts)
      in cut_parts maxCutLen parts [])"

text \<open>\<^verbatim>\<open>%.*x\<close> of bytes: the precision is the number of the bytes that are written, and a negative one is reported.\<close>

definition hex_digit :: "nat \<Rightarrow> char" where
  "hex_digit n = ''0123456789abcdef'' ! n"

definition hex_byte :: "8 word \<Rightarrow> string" where
  "hex_byte b = [hex_digit (unat b div 16), hex_digit (unat b mod 16)]"

definition Sprintf_hex :: "int \<Rightarrow> 8 word list \<Rightarrow> string" where
  "Sprintf_hex prec bs =
     (if prec < 0 then ''%!(BADPREC)'' @ concat (map hex_byte bs) else concat (map hex_byte (take (nat prec) bs)))"

definition CreateTestDBName :: "(string \<Rightarrow> 8 word list) \<Rightarrow> string \<Rightarrow> string \<Rightarrow> string go" where
  "CreateTestDBName sha256 name envName =
     go_bind (db_name_prefix name) (\<lambda>s.
       Ret (s @ Sprintf_hex ((maxLen - (int (length s) + int (length envName) + 1)) sdiv 2) (sha256 name) @ ''_'' @ envName))"

section \<open>Properties of the name\<close>

lemma length_hex: "length (concat (map hex_byte bs)) = 2 * length bs"
  by (induction bs) (simp_all add: hex_byte_def)

lemma Split_nonempty: "Split s d \<noteq> []"
  by (induction s) (auto split: list.splits)

lemma cut_parts_Ret:
  "0 \<le> m \<Longrightarrow> \<exists>t. cut_parts m parts s = Ret t \<and> int (length t) \<le> int (length s) + int (length parts) * (m + 1)"
proof (induction parts arbitrary: s)
  case Nil
  then show ?case by simp
next
  case (Cons part parts)
  have "\<exists>cut. (if int (length part) > m then slice_to part m else Ret part) = Ret cut \<and> int (length cut) \<le> m"
    using Cons.prems by (auto simp: slice_to_def)
  then obtain cut where c: "(if int (length part) > m then slice_to part m else Ret part) = Ret cut" "int (length cut) \<le> m" by blast
  obtain t where t: "cut_parts m parts (s @ cut @ ''_'') = Ret t"
      "int (length t) \<le> int (length (s @ cut @ ''_'')) + int (length parts) * (m + 1)"
    using Cons by blast
  have "int (length t) \<le> int (length s) + int (length (part # parts)) * (m + 1)" using t(2) c(2) by (simp add: algebra_simps)
  then show ?case using c(1) t(1) by simp
qed

text \<open>The longest part is never negative, as division rounds to zero; up to 63 parts leave room for themselves.\<close>

lemma max_cut_len:
  assumes "0 < n"
  shows "0 \<le> (maxLen - n) sdiv n" "n \<le> maxLen \<Longrightarrow> n * ((maxLen - n) sdiv n + 1) \<le> maxLen" "maxLen < n \<Longrightarrow> (maxLen - n) sdiv n = 0"
proof -
  have small: "(maxLen - n) sdiv n = 0" if "maxLen < n"
  proof -
    have "\<bar>maxLen - n\<bar> div \<bar>n\<bar> = 0" using that assms by (intro div_pos_pos_trivial) (auto simp: maxLen_def)
    then show ?thesis by (simp add: signed_divide_int_def)
  qed
  have large: "(maxLen - n) sdiv n = (maxLen - n) div n" if "n \<le> maxLen"
    using that assms by (simp add: signed_divide_int_def sgn_if)
  show "0 \<le> (maxLen - n) sdiv n" using small large assms by (cases "n \<le> maxLen") (auto simp: pos_imp_zdiv_nonneg_iff)
  show "maxLen < n \<Longrightarrow> (maxLen - n) sdiv n = 0" by (rule small)
  show "n * ((maxLen - n) sdiv n + 1) \<le> maxLen" if "n \<le> maxLen"
  proof -
    have "(maxLen - n) div n * n \<le> maxLen - n" using assms by (simp add: minus_mod_eq_div_mult[symmetric])
    then show ?thesis using large[OF that] by (simp add: algebra_simps)
  qed
qed

lemma db_name_prefix_Ret:
  "\<exists>s. db_name_prefix name = Ret s \<and> int (length s) \<le> max maxLen (int (length (db_parts name)))"
proof -
  let ?n = "int (length (db_parts name))"
  have n: "0 < ?n" using Split_nonempty by (simp add: db_parts_def)
  obtain s where s: "db_name_prefix name = Ret s" "int (length s) \<le> ?n * ((maxLen - ?n) sdiv ?n + 1)"
    using cut_parts_Ret[OF max_cut_len(1)[OF n], of "db_parts name" "[]"] by (auto simp: db_name_prefix_def Let_def)
  then show ?thesis using max_cut_len(2,3)[OF n] by (cases "?n \<le> maxLen") force+
qed

lemma sdiv_2: "d sdiv 2 = (if 0 \<le> d then d div 2 else - (- d div 2))" for d :: int
  by (auto simp: signed_divide_int_def sgn_if)

lemma length_Sprintf_hex:
  "length bs = 32 \<Longrightarrow> length (Sprintf_hex prec bs) = (if prec < 0 then 75 else 2 * min 32 (nat prec))"
  by (simp add: Sprintf_hex_def length_hex)

text \<open>C28. The name of the database of a test is made without a panic for any name of the application. It fits into the 63
  characters that Postgres takes, with the hash filling it up to the last or the last but one of them, exactly when the
  shortened parts of the name and the environment leave room for it; otherwise it is longer than 63 characters.\<close>

theorem test_db_name_bounds:
  assumes "length (sha256 name) = 32"
  shows "\<exists>s db. db_name_prefix name = Ret s \<and> CreateTestDBName sha256 name envName = Ret db \<and>
     (if length s + length envName \<le> 62 then length db \<in> {62, 63} else 63 < length db) \<and>
     length s \<le> max 63 (length (db_parts name))"
proof -
  obtain s where s: "db_name_prefix name = Ret s" "int (length s) \<le> max maxLen (int (length (db_parts name)))"
    using db_name_prefix_Ret by blast
  define d where "d = maxLen - (int (length s) + int (length envName) + 1)"
  define db where "db = s @ Sprintf_hex (d sdiv 2) (sha256 name) @ ''_'' @ envName"
  have l: "length db = length s + length envName + 1 + (if d sdiv 2 < 0 then 75 else 2 * min 32 (nat (d sdiv 2)))"
    using length_Sprintf_hex[OF assms, of "d sdiv 2"] by (simp add: db_def)
  have "if length s + length envName \<le> 62 then length db \<in> {62, 63} else 63 < length db"
  proof (cases "0 \<le> d")
    case True
    then have "d sdiv 2 = d div 2" "0 \<le> d div 2" "d div 2 \<le> 31" by (simp_all add: sdiv_2 d_def maxLen_def)
    then have "int (length db) = int (length s) + int (length envName) + 1 + 2 * (d div 2)" using l by simp
    moreover have "2 * (d div 2) = d - d mod 2" by (simp add: minus_mod_eq_mult_div)
    ultimately have "int (length db) = 63 - d mod 2" by (simp add: d_def maxLen_def)
    moreover have "d mod 2 = 0 \<or> d mod 2 = 1" by presburger
    ultimately show ?thesis using True by (auto simp: d_def maxLen_def)
  next
    case False
    then show ?thesis using l by (simp add: d_def maxLen_def)
  qed
  moreover have "CreateTestDBName sha256 name envName = Ret db" by (simp add: CreateTestDBName_def s(1) db_def d_def)
  moreover have "length s \<le> max 63 (length (db_parts name))" using s(2) by (simp add: maxLen_def)
  ultimately show ?thesis using s(1) by blast
qed

theorem test_db_name_bounds_witness:
  "db_name_prefix ''My-Service-TestCreate'' = Ret ''my_service_create_'' \<and>
   (\<exists>db. CreateTestDBName (\<lambda>s. replicate 32 0xAB) ''My-Service-TestCreate'' ''test'' = Ret db \<and> length db \<in> {62, 63})"
proof -
  have s: "db_name_prefix ''My-Service-TestCreate'' = Ret ''my_service_create_''" by code_simp
  have "length (replicate 32 (0xAB :: 8 word)) = 32" by simp
  from test_db_name_bounds[of "\<lambda>s. replicate 32 0xAB" "''My-Service-TestCreate''" "''test''", OF this] s
  show ?thesis by auto
qed

text \<open>With no room for a byte of the hash, the name does not depend on it: two tests whose names differ in what is cut off use one
  database.\<close>

lemma tests_share_database:
  "let name = (\<lambda>t. replicate 12 CHR ''a'' @ ''_'' @ replicate 14 CHR ''b'' @ ''_'' @ replicate 14 CHR ''c'' @ ''-Test'' @ replicate 14 CHR ''d'' @ t)
   in CreateTestDBName sha256 (name ''One'') ''test'' = CreateTestDBName sha256 (name ''Two'') ''test''"
proof -
  let ?name = "\<lambda>t. replicate 12 CHR ''a'' @ ''_'' @ replicate 14 CHR ''b'' @ ''_'' @ replicate 14 CHR ''c'' @ ''-Test'' @ replicate 14 CHR ''d'' @ t"
  let ?s = "replicate 12 CHR ''a'' @ ''_'' @ replicate 14 CHR ''b'' @ ''_'' @ replicate 14 CHR ''c'' @ ''_'' @ replicate 14 CHR ''d'' @ ''_''"
  have "db_name_prefix (?name ''One'') = Ret ?s" "db_name_prefix (?name ''Two'') = Ret ?s" by code_simp+
  then show ?thesis unfolding Let_def CreateTestDBName_def by (simp only: go_bind.simps) (simp add: maxLen_def sdiv_2 Sprintf_hex_def)
qed

lemma long_names_overflow:
  assumes "\<And>s. length (sha256 s) = 32"
  shows "\<exists>db. CreateTestDBName sha256 (replicate 14 CHR ''a'' @ ''_'' @ replicate 14 CHR ''b'' @ ''_'' @ replicate 14 CHR ''c'' @ ''-Test'' @ replicate 14 CHR ''d'') ''test'' =
     Ret db \<and> Contains db ''%!(BADPREC)'' \<and> length db = 140"
proof -
  let ?name = "replicate 14 CHR ''a'' @ ''_'' @ replicate 14 CHR ''b'' @ ''_'' @ replicate 14 CHR ''c'' @ ''-Test'' @ replicate 14 CHR ''d''"
  let ?s = "replicate 14 CHR ''a'' @ ''_'' @ replicate 14 CHR ''b'' @ ''_'' @ replicate 14 CHR ''c'' @ ''_'' @ replicate 14 CHR ''d'' @ ''_''"
  have s: "db_name_prefix ?name = Ret ?s" by code_simp
  have c: "Contains (u @ v @ w) v" for u v w
  proof (induction u)
    case Nil
    have "HasPrefix x v \<Longrightarrow> Contains x v" for x by (cases x) (auto simp: HasPrefix_def)
    from this[of "v @ w"] show ?case by (simp add: HasPrefix_def)
  qed simp
  let ?db = "?s @ ''%!(BADPREC)'' @ concat (map hex_byte (sha256 ?name)) @ ''_'' @ ''test''"
  have "CreateTestDBName sha256 ?name ''test'' = Ret ?db"
    unfolding CreateTestDBName_def s by (simp add: maxLen_def sdiv_2 Sprintf_hex_def)
  moreover have "Contains ?db ''%!(BADPREC)''" by (rule c)
  moreover have "length ?db = 140" using assms[of ?name] by (simp only: length_append length_replicate length_hex) simp
  ultimately show ?thesis by blast
qed

section \<open>Databases of tests\<close>

text \<open>The server runs a statement on a connection, and the world \<open>'w\<close> is what it keeps; a statement that fails answers an error.\<close>

definition double_quoted :: "string \<Rightarrow> string" where
  "double_quoted s = [CHR 0x22] @ s @ [CHR 0x22]"

definition drop_sql :: "string \<Rightarrow> string" where
  "drop_sql dbName = ''DROP DATABASE IF EXISTS '' @ double_quoted dbName @ '' WITH (FORCE)''"

definition create_sql :: "string \<Rightarrow> string" where
  "create_sql dbName = ''CREATE DATABASE '' @ double_quoted dbName"

record test_conf =
  tc_Name :: string
  tc_EnvName :: string
  tc_EnvType :: string

definition NewTestDatabase ::
  "(bool \<Rightarrow> string \<Rightarrow> string + 'h) \<Rightarrow> ('h \<Rightarrow> string \<Rightarrow> 'w \<Rightarrow> string option \<times> 'w) \<Rightarrow> (string \<Rightarrow> 8 word list) \<Rightarrow> bool \<Rightarrow> db_conf \<Rightarrow> test_conf \<Rightarrow> 'w \<Rightarrow>
     ('h \<times> string) go \<times> 'w" where
  "NewTestDatabase open_db exec sha256 tracing dc conf w =
     (if tc_EnvType conf \<noteq> ''test'' then (Panic ''not in a test'', w)
      else case CreateTestDBName sha256 (tc_Name conf) (tc_EnvName conf) of
        Panic p \<Rightarrow> (Panic p, w)
      | Ret dbName \<Rightarrow>
         (case MustOpenGORM open_db tracing dc ''postgres'' of
            Panic p \<Rightarrow> (Panic p, w)
          | Ret (pg, _) \<Rightarrow>
             (case exec pg (drop_sql dbName) w of
                (Some e, w1) \<Rightarrow> (Panic (''failed to drop db: '' @ dbName @ '', error: '' @ e), w1)
              | (None, w1) \<Rightarrow>
                 (case exec pg (create_sql dbName) w1 of
                    (Some e, w2) \<Rightarrow> (Panic (''failed to create db: '' @ dbName @ '', error: '' @ e), w2)
                  | (None, w2) \<Rightarrow>
                     (case MustOpenGORM open_db tracing dc dbName of
                        Panic p \<Rightarrow> (Panic p, w2)
                      | Ret (h, _) \<Rightarrow> (Ret (h, dbName), w2))))))"

text \<open>\<open>closeErr\<close> is the answer of closing the connections of the database.\<close>

definition OnTestDBStop ::
  "(bool \<Rightarrow> string \<Rightarrow> string + 'h) \<Rightarrow> ('h \<Rightarrow> string \<Rightarrow> 'w \<Rightarrow> string option \<times> 'w) \<Rightarrow> bool \<Rightarrow> db_conf \<Rightarrow> string option \<Rightarrow> 'h \<times> string \<Rightarrow> 'w \<Rightarrow>
     string option go \<times> 'w" where
  "OnTestDBStop open_db exec tracing dc closeErr db w =
     (case closeErr of
        Some e \<Rightarrow> (Ret (Some e), w)
      | None \<Rightarrow>
         (case MustOpenGORM open_db tracing dc ''postgres'' of
            Panic p \<Rightarrow> (Panic p, w)
          | Ret (pg, _) \<Rightarrow>
             (case exec pg (drop_sql (snd db)) w of
                (Some e, w1) \<Rightarrow> (Panic (''failed to drop db: '' @ snd db @ '', error: '' @ e), w1)
              | (None, w1) \<Rightarrow> (Ret None, w1))))"

text \<open>A server that keeps its databases by name: dropping one removes it, and creating one fails if it is there. A test then starts with an
  empty database of its name, and after it the server has the databases that it had, less that one.\<close>

lemma test_database_is_fresh:
  assumes drop: "\<And>pg n dbs. exec pg (drop_sql n) dbs = (None, dbs(n := None))"
    and create: "\<And>pg n dbs. exec pg (create_sql n) dbs = (if dbs n = None then (None, dbs(n \<mapsto> empty)) else (Some ''exists'', dbs))"
    and started: "NewTestDatabase open_db exec sha256 tracing dc conf dbs = (Ret (h, dbName), dbs')"
  shows "dbs' = dbs(dbName \<mapsto> empty) \<and>
    (case OnTestDBStop open_db exec tracing dc None (h, dbName) dbs' of
       (Ret e, dbs'') \<Rightarrow> e = None \<and> dbs'' = dbs(dbName := None) | (Panic p, _) \<Rightarrow> True)"
proof -
  have "dbs' = dbs(dbName \<mapsto> empty)"
    using started by (auto simp: NewTestDatabase_def drop create split: if_splits go.splits)
  then show ?thesis by (auto simp: OnTestDBStop_def drop split: go.splits)
qed

section \<open>Redis and DynamoDB\<close>

definition NewTestRedis :: "(string \<Rightarrow> string + 'o) \<Rightarrow> ('o \<Rightarrow> string option) \<Rightarrow> string \<Rightarrow> string \<Rightarrow> ('o \<times> string list) go" where
  "NewTestRedis parseURL ping envType url = (if envType \<noteq> ''test'' then Panic ''not in a test'' else MustOpenRedis parseURL ping url)"

definition OnTestRedisStop :: "string option \<Rightarrow> string option go" where
  "OnTestRedisStop flushed = (case flushed of Some e \<Rightarrow> Panic (''failed to flush redis: '' @ e) | None \<Rightarrow> Ret None)"

text \<open>An application opens its connections in a test with these functions, and outside of tests with the others.\<close>

lemma connections_by_environment:
  "(\<exists>p. NewTestRedis parseURL ping envType url = Panic p \<and> envType \<noteq> ''test'') \<or> (\<exists>p. NewRedis parseURL ping envType url = Panic p \<and> envType = ''test'')"
  by (auto simp: NewTestRedis_def NewRedis_def)

definition NewTestDynamoDB ::
  "string \<Rightarrow> string + string list \<Rightarrow> (string \<Rightarrow> 'w \<Rightarrow> string option \<times> 'w) \<Rightarrow> ('av, 'it, 'x, 'm) dynamo \<Rightarrow> 'w \<Rightarrow> ('av, 'it, 'x, 'm) dynamo go \<times> 'w" where
  "NewTestDynamoDB envType listed del ddb w =
     (if envType \<noteq> ''test'' then (Panic ''not in a test'', w)
      else case DeleteAllTables listed del ddb w of
             (Inl e, w') \<Rightarrow> (Panic (err_text e), w')
           | (Inr errs, w') \<Rightarrow> (if errs \<noteq> [] then Panic (Join errs [CHR 0x0A]) else Ret ddb, w'))"

text \<open>The tables of a test that failed are left for inspection.\<close>

definition OnTestDynamoDBStop ::
  "bool \<Rightarrow> string + string list \<Rightarrow> (string \<Rightarrow> 'w \<Rightarrow> string option \<times> 'w) \<Rightarrow> ('av, 'it, 'x, 'm) dynamo \<Rightarrow> 'w \<Rightarrow> (ddb_error + string list) \<times> 'w" where
  "OnTestDynamoDBStop failed listed del ddb w = (if failed then (Inr [], w) else DeleteAllTables listed del ddb w)"

section \<open>Configuration\<close>

text \<open>The part of the root configuration that tests change; the levels by path may be a nil map.\<close>

record root_conf =
  rt_Name :: string
  rt_EnvName :: string
  rt_EnvType :: string
  rt_Level :: int
  rt_Levels :: "(string \<rightharpoonup> int) option"

definition NewTestRootConfig :: "string \<Rightarrow> root_conf \<Rightarrow> root_conf" where
  "NewTestRootConfig tbName rootConf =
     (let name = (if rt_Name rootConf = [] then ''test-service'' else rt_Name rootConf) @ ''-'' @ tbName;
          levels = (case rt_Levels rootConf of None \<Rightarrow> Map.empty | Some m \<Rightarrow> m);
          levels' = (if levels ''go.uber.org/fx'' = None then levels(''go.uber.org/fx'' \<mapsto> LogLevelInfo) else levels)
      in rootConf\<lparr>rt_Name := name, rt_EnvName := ''test'', rt_EnvType := ''test'', rt_Level := LogLevelDebug, rt_Levels := Some levels'\<rparr>)"

text \<open>The configuration of the application is then loaded into a struct that has this root, so the file and the environment win over what was set
  for the test.\<close>

definition NewTestConfig :: "files \<Rightarrow> 'c codec \<Rightarrow> string list \<Rightarrow> ('r \<Rightarrow> 'c) \<Rightarrow> ('r \<Rightarrow> string) \<Rightarrow> 'r \<Rightarrow> 'c go option" where
  "NewTestConfig fs cd env withRoot envType rootConf = LoadConfig fs cd env (envType rootConf) (withRoot rootConf) None"

definition test_codec :: "(string \<times> conf_val) list codec" where
  "test_codec = \<lparr>cd_type = ''Config'', cd_yaml = (\<lambda>y. Inr [(''Name'', CString y)]), cd_Decode = (\<lambda>m c. Inr (m @ filter (\<lambda>(k, v). k \<notin> set (map fst m)) c)), cd_json = Inr\<rparr>"

lemma test_name_is_overwritten:
  "NewTestConfig sample_files test_codec [] (\<lambda>r. [(''Name'', CString (rt_Name r))]) rt_EnvType (NewTestRootConfig ''TestA'' rootConf) =
   Some (Ret [(''Name'', CString ''app'')])"
proof -
  have t: "rt_EnvType (NewTestRootConfig ''TestA'' rootConf) = ''test''" by (simp add: NewTestRootConfig_def Let_def)
  have "LoadConfig sample_files test_codec [] ''test'' [(''Name'', CString n)] None = Some (Ret [(''Name'', CString ''app'')])" for n
    by code_simp
  then show ?thesis by (simp add: NewTestConfig_def t)
qed

section \<open>The writer of the loggers\<close>

text \<open>The text that is logged by the test, and the number of bytes that is returned.\<close>

definition testing_Write :: "string \<Rightarrow> string \<times> nat" where
  "testing_Write p = (let q = TrimSuffix p [CHR 0x0A] in (q, length q))"

text \<open>A writer has to return an error when it returns less than the length of its argument; this one has no error, and it is one byte short
  for every line.\<close>

lemma testing_writer_is_short: "testing_Write (line @ [CHR 0x0A]) = (line, length line)"
  by (simp add: testing_Write_def TrimSuffix_def HasSuffix_def)

section \<open>The application under test\<close>

definition NewTestHTTPHandler :: "server_conf \<Rightarrow> http_handler" where
  "NewTestHTTPHandler conf = \<lparr>hh_mode = DebugMode, hh_handlers = [], hh_BasePath = []\<rparr>"

definition ModuleMiddlewares :: "fx_option go" where
  "ModuleMiddlewares =
     go_options [Ret (Invoke ''NewMiddlewares''), ProvideAsMiddleware (Func ''NewRequestLogger'' [''*RequestLoggerMiddleware'']) [],
                 ProvideAsMiddleware (Func ''NewPanicRecovery'' [''*PanicRecoveryMiddleware'']) [],
                 ProvideAsMiddleware (Func ''NewErrorHandlerFx'' [''*ErrorHandlerMiddleware'']) []]"

definition ModuleRest :: "fx_option go" where
  "ModuleRest = go_options [Ret (Provide ''NewTestHTTPHandler'' []), Ret (Invoke ''NewResources'')]"

definition TestModuleDB :: "fx_option go" where
  "TestModuleDB = Ret (Provide ''NewTestDatabase'' [OnStop ''OnTestDBStop''])"

definition TestModuleRedis :: "fx_option go" where
  "TestModuleRedis = Ret (Provide ''NewTestRedis'' [OnStop ''OnTestRedisStop''])"

definition ModuleTestConfig :: "fx_option go" where
  "ModuleTestConfig = go_options [Ret (Provide ''NewTestConfig'' []), Ret (Provide ''NewTestRootConfig'' [])]"

definition FxUnit :: "fx_option go list \<Rightarrow> fx_option go" where
  "FxUnit opts =
     go_options [Ret (Supply ''t'' []), Ret (Supply ''t'' [As ''testing.TB'']), ModuleTestConfig, Ret (Provide ''NewLoggerFactory'' []), Ret (WithLogger ''NewFxLogger''),
                 Ret (Provide ''NewContext'' [ParamTags [Optional]]), go_options opts]"

text \<open>A test of the integration is skipped in a short run.\<close>

definition FxIntegration :: "bool \<Rightarrow> fx_option go list \<Rightarrow> fx_option go option" where
  "FxIntegration short opts = (if short then None else Some (FxUnit [go_options opts]))"

definition FxIntegrationWithDB :: "bool \<Rightarrow> fx_option go list \<Rightarrow> fx_option go option" where
  "FxIntegrationWithDB short opts = FxIntegration short [go_options opts, TestModuleDB]"

definition WithDB :: "fx_option go \<Rightarrow> fx_option go" where "WithDB a = go_options [a, TestModuleDB]"

definition WithRedis :: "fx_option go \<Rightarrow> fx_option go" where "WithRedis a = go_options [a, TestModuleRedis]"

definition WithHTTPHandler :: "fx_option go \<Rightarrow> fx_option go" where
  "WithHTTPHandler a = go_options [a, ModuleMiddlewares, ModuleRest]"

definition WithWorkerHandler :: "fx_option go \<Rightarrow> fx_option go" where
  "WithWorkerHandler a = go_options [a, ModuleWorkerHandler]"

definition Populate_app :: "string list \<Rightarrow> fx_option go \<Rightarrow> fx_option go" where
  "Populate_app targets a = go_options [a, Ret (Populate targets)]"

text \<open>The server under test is set up in the order of the real one.\<close>

lemma tested_server_invokes:
  "go_bind (Populate_app ts (WithHTTPHandler (FxUnit [Ret u]))) (\<lambda>opt. Ret (invokes opt)) = Ret (invokes u @ [''NewMiddlewares'', ''NewResources''])"
  by (simp add: Populate_app_def WithHTTPHandler_def FxUnit_def ModuleTestConfig_def ModuleMiddlewares_def ModuleRest_def ProvideAsMiddleware_def
      FxProvideAs_def go_options_def)

text \<open>Its handler has no base path, whatever the group of its routes has, so the probes cannot be set up in a test.\<close>

lemma probes_panic_in_tests:
  "\<exists>p. probe_Setup ''/health'' g (hh_BasePath (NewTestHTTPHandler conf)) byPath = Panic p"
proof -
  have "filepath_Rel [] ''/health'' = None" by code_simp
  then show ?thesis by (simp add: probe_Setup_def NewTestHTTPHandler_def)
qed

section \<open>The client of the server under test\<close>

text \<open>A requirement that fails ends the test, which is a panic here. \<open>Recorder\<close> is what the recorder of \<^verbatim>\<open>net/http/httptest\<close> has after the request.\<close>

datatype 'v test_body = NoBody | Reader string | Value 'v

record recorder =
  rr_Code :: int
  rr_Header :: "(string \<times> string) list"
  rr_Body :: string

fun request_body :: "('v \<Rightarrow> string + string) \<Rightarrow> 'v test_body \<Rightarrow> string option go" where
  "request_body toJSON NoBody = Ret None"
| "request_body toJSON (Reader s) = Ret (Some s)"
| "request_body toJSON (Value v) = (case toJSON v of Inl e \<Rightarrow> Panic e | Inr s \<Rightarrow> Ret (Some s))"

text \<open>\<open>newRequest\<close> parses the method and the URL; the headers of the client replace those of the request.\<close>

definition Do ::
  "('v \<Rightarrow> string + string) \<Rightarrow> (string \<Rightarrow> string \<Rightarrow> string option \<Rightarrow> string + 'r) \<Rightarrow> ('r \<Rightarrow> (string \<times> string) list \<Rightarrow> recorder) \<Rightarrow> (string \<times> string) list \<Rightarrow>
     string \<Rightarrow> string \<Rightarrow> 'v test_body \<Rightarrow> recorder go" where
  "Do toJSON newRequest serve headers meth url body =
     go_bind (request_body toJSON body) (\<lambda>reader.
       case newRequest meth url reader of Inl e \<Rightarrow> Panic e | Inr req \<Rightarrow> Ret (serve req headers))"

definition client_GET where "client_GET toJSON newRequest serve headers url = Do toJSON newRequest serve headers ''GET'' url NoBody"
definition client_POST where "client_POST toJSON newRequest serve headers body url = Do toJSON newRequest serve headers ''POST'' url body"
definition client_PATCH where "client_PATCH toJSON newRequest serve headers body url = Do toJSON newRequest serve headers ''PATCH'' url body"
definition client_DELETE where "client_DELETE toJSON newRequest serve headers url = Do toJSON newRequest serve headers ''DELETE'' url NoBody"

definition RequireStatus :: "int \<Rightarrow> recorder \<Rightarrow> recorder go" where
  "RequireStatus status r =
     (if rr_Code r = status then Ret r
      else Panic (''expected status '' @ show_int status @ '', got '' @ show_int (rr_Code r) @ '', body: '' @ rr_Body r))"

definition RequireHeader :: "string \<Rightarrow> string \<Rightarrow> recorder \<Rightarrow> recorder go" where
  "RequireHeader header value r = (if (header, value) \<in> set (rr_Header r) then Ret r else Panic ''does not contain'')"

definition RequireEmptyBody :: "recorder \<Rightarrow> unit go" where
  "RequireEmptyBody r = (if rr_Body r = [] then Ret () else Panic ''should be empty'')"

text \<open>\<open>decode\<close> reads one JSON value from the start of the body; the first value of a header is compared.\<close>

definition RequireJSONBodyAs :: "(string \<Rightarrow> string + 'a) \<Rightarrow> recorder \<Rightarrow> 'a go" where
  "RequireJSONBodyAs decode r =
     (if (case map_of (rr_Header r) ''Content-Type'' of None \<Rightarrow> [] | Some t \<Rightarrow> t) \<noteq> ''application/json; charset=utf-8'' then Panic ''not equal''
      else if rr_Body r = [] then Panic ''is not greater''
      else case decode (rr_Body r) of Inl e \<Rightarrow> Panic e | Inr x \<Rightarrow> Ret x)"

text \<open>The answers of a mocked provider of authentication.\<close>

definition NewMockAuthN :: "'p option \<Rightarrow> string + 'p" where
  "NewMockAuthN who = (case who of Some p \<Rightarrow> Inr p | None \<Rightarrow> Inl ''ErrInvalidToken'')"

section \<open>The context of a test\<close>

definition NewContext :: "string option \<Rightarrow> string \<Rightarrow> fw_value cstate \<Rightarrow> fw_value ctx \<times> fw_value cstate" where
  "NewContext db lf st = (case lf_SetCtx lf Background st of (c, st1) \<Rightarrow> db_SetCtx db c st1)"

text \<open>It has the factory of loggers, and the database exactly when there is one.\<close>

lemma context_of_test:
  "case NewContext db lf st of (c, st') \<Rightarrow>
     Context.Value st' c ''_fw_logger_factory'' = Some (LoggerFactory lf) \<and> Context.Value st' c ''_fw_db'' = map_option DBHandle db \<and> \<not> Err st' c"
  by (auto simp: NewContext_def lf_SetCtx_def db_SetCtx_def CtxSetValue_def Err_def split: option.splits)

section \<open>AWS in tests\<close>

text \<open>The variables of the environment that a test sets before the default configuration is loaded.\<close>

definition localstack_env :: "(string \<times> string) list" where
  "localstack_env = [(''AWS_REGION'', ''us-east-1''), (''AWS_ENDPOINT_URL'', ''http://localhost:4566''), (''AWS_MAX_ATTEMPTS'', ''10''),
     (''AWS_ACCESS_KEY_ID'', ''localstack''), (''AWS_SECRET_ACCESS_KEY'', ''localstack'')]"

definition NewLocalStackAWSConfig :: "((string \<rightharpoonup> string) \<Rightarrow> string + 'a) \<Rightarrow> (string \<rightharpoonup> string) \<Rightarrow> string + 'a" where
  "NewLocalStackAWSConfig load env = load (fold (\<lambda>(k, v) e. e(k \<mapsto> v)) localstack_env env)"

definition ModuleTestAWSLocalStackConfig :: "fx_option go" where
  "ModuleTestAWSLocalStackConfig = go_options [Ret (Provide ''NewLocalStackAWSConfig'' [])]"

definition ModuleTestDynamoDB :: "fx_option go" where
  "ModuleTestDynamoDB = go_options [Ret (Provide ''NewAWSDynamoDBClient'' []), Ret (Provide ''NewTestDynamoDB'' [OnStop ''OnTestDynamoDBStop''])]"

text \<open>Whatever was set before, the endpoint is the local one, and the credentials are never those of the developer.\<close>

lemma localstack_env_overrides:
  "\<exists>env'. NewLocalStackAWSConfig load env = load env' \<and> env' ''AWS_ENDPOINT_URL'' = Some ''http://localhost:4566'' \<and>
     env' ''AWS_ACCESS_KEY_ID'' = Some ''localstack'' \<and> env' ''AWS_SECRET_ACCESS_KEY'' = Some ''localstack'' \<and>
     (\<forall>k. k \<notin> fst ` set localstack_env \<longrightarrow> env' k = env k)"
  by (rule exI[of _ "fold (\<lambda>(k, v) e. e(k \<mapsto> v)) localstack_env env"])
    (auto simp: NewLocalStackAWSConfig_def localstack_env_def)

section \<open>The client of the server under test\<close>

record http_client =
  hc_headers :: "(string \<times> string) list"

definition NewHTTPClient :: http_client where
  "NewHTTPClient = \<lparr>hc_headers = []\<rparr>"

definition SetHeaders :: "(string \<times> string) list \<Rightarrow> http_client \<Rightarrow> http_client" where
  "SetHeaders headers c = c\<lparr>hc_headers := headers\<rparr>"

text \<open>Setting headers replaces all that were set before.\<close>

lemma headers_replace: "hc_headers (SetHeaders hs (SetHeaders hs' c)) = hs"
  by (simp add: SetHeaders_def)

end
