(* ===== verification/Examples.thy ===== *)
theory Examples
  imports Router Commands ConfigLoad Worker
begin

text \<open>
  The example applications (\<^verbatim>\<open>examples/gin\<close>, \<^verbatim>\<open>examples/gin-plus-worker\<close>): their resources, worker, configuration and options,
  written with the operations of the framework. The names of handlers stand for the handlers, and how Gin joins paths is an
  argument.
\<close>

section \<open>The resource with metadata\<close>

text \<open>The statements of \<open>Setup\<close>, each a chain of calls on the root router.\<close>

definition MyResource_chains :: "string group_call list list" where
  "MyResource_chains =
     [[CallGroup ''orgs'', CallVerb ''GET'' ''-/projects''],
      [CallGroup ''orgs'', CallVerbWithMeta ''GET'' [] (Some ''root_domain'')],
      [CallGroupWithMeta ''orgs'' (Some ''org_domain''), CallVerb ''GET'' '':id'', CallVerb ''POST'' '':id'',
       CallVerb ''PATCH'' '':id'', CallVerb ''GET'' '':id/users'', CallVerb ''GET'' '':id/projects''],
      [CallGroupWithMeta ''users'' (Some ''user_domain''), CallVerb ''GET'' '':id'', CallVerb ''PATCH'' '':id'',
       CallVerb ''GET'' '':id/roles''],
      [CallGroupWithMeta ''resources'' (Some ''first_level''), CallVerb ''GET'' '':id'',
       CallGroupWithMeta ''sub-resources'' (Some ''second_level''), CallVerbWithMeta ''GET'' [] (Some ''list''),
       CallVerb ''GET'' '':id'', CallGroupWithMeta '':id/lowest-resources'' (Some ''third_level''),
       CallVerbWithMeta ''POST'' '':id'' (Some ''create'')],
      [CallGroup ''resources'', CallVerb ''POST'' '':id'', CallGroupWithMeta [] (Some ''first_level''),
       CallVerbWithMeta ''PATCH'' '':id'' (Some ''update'')]]"

definition MyResource_Setup :: "(string \<Rightarrow> string \<Rightarrow> string) \<Rightarrow> string router_group \<Rightarrow> string mapping \<Rightarrow> string mapping" where
  "MyResource_Setup join router m = fold (chain join router) MyResource_chains m"

text \<open>Its handlers answer with the metadata of the route.\<close>

definition MyResource_Get :: "(string \<rightharpoonup> string list) \<Rightarrow> int \<times> string list" where
  "MyResource_Get keys = (200, GetPathMetaFromCtx keys)"

definition MyResource_Post :: "(string \<rightharpoonup> string list) \<Rightarrow> int \<times> string list" where
  "MyResource_Post keys = (200, GetPathMetaFromCtx keys)"

definition MyResource_Patch :: "(string \<rightharpoonup> string list) \<Rightarrow> int \<times> string list" where
  "MyResource_Patch keys = (200, GetPathMetaFromCtx keys)"

text \<open>For evaluation: the segments of the rest of a path are computed once.\<close>

lemma segments_code [code]:
  "segments [] = [[]]"
  "segments (c # s) = (case segments s of [] \<Rightarrow> [[c]] | g # gs \<Rightarrow> if c = CHR ''/'' then [] # g # gs else (c # g) # gs)"
proof -
  have "segments s \<noteq> []" for s by (induction s) simp_all
  then show "segments (c # s) = (case segments s of [] \<Rightarrow> [[c]] | g # gs \<Rightarrow> if c = CHR ''/'' then [] # g # gs else (c # g) # gs)"
    by (simp split: list.split)
qed simp

text \<open>What Gin documents of joining the path of a group with a path that has no slash at its end.\<close>

definition gin_joins :: "(string \<Rightarrow> string \<Rightarrow> string) \<Rightarrow> bool" where
  "gin_joins join \<longleftrightarrow>
     (\<forall>base rel. (rel = [] \<or> last rel \<noteq> CHR ''/'') \<longrightarrow> join base rel = (if rel = [] then base else path_Join [base, rel]))"


definition gin_join :: "string \<Rightarrow> string \<Rightarrow> string" where
  "gin_join base rel = (if rel = [] then base else path_Join [base, rel])"

text \<open>Only the paths of groups are joined by Gin.\<close>

fun group_path :: "'m group_call \<Rightarrow> string option" where
  "group_path (CallGroup rel) = Some rel"
| "group_path (CallGroupWithMeta rel md) = Some rel"
| "group_path _ = None"

lemma chain_join_cong:
  "(\<And>c rel b. c \<in> set cs \<Longrightarrow> group_path c = Some rel \<Longrightarrow> join b rel = join' b rel) \<Longrightarrow> chain join g cs m = chain join' g cs m"
proof (induction cs arbitrary: g m)
  case (Cons c cs)
  have s: "group_exec join c (g, m) = group_exec join' c (g, m)"
    using Cons.prems[of c] by (cases c) (simp_all add: Group_def GroupWithMeta_def)
  obtain g' m' where "group_exec join' c (g, m) = (g', m')" by fastforce
  moreover have "chain join g' cs m' = chain join' g' cs m'" by (rule Cons.IH, rule Cons.prems) simp_all
  ultimately show ?case using s by (simp add: chain_def)
qed (simp add: chain_def)

lemma MyResource_Setup_join:
  assumes "gin_joins join"
  shows "MyResource_Setup join router m = MyResource_Setup gin_join router m"
proof -
  have j: "join b rel = gin_join b rel" if "rel = [] \<or> last rel \<noteq> CHR ''/''" for b rel
    using assms that by (auto simp: gin_joins_def gin_join_def)
  have "chain join router cs = chain gin_join router cs" if "cs \<in> set MyResource_chains" for cs
    by (rule ext, rule chain_join_cong; rule j; use that in \<open>auto simp: MyResource_chains_def\<close>)
  then have "fold (chain join router) MyResource_chains m = fold (chain gin_join router) MyResource_chains m"
    by (intro fold_cong) auto
  then show ?thesis by (simp add: MyResource_Setup_def)
qed

text \<open>The metadata of the routes, as the comments in the example and in the documentation of the router group give it.\<close>

definition MyResource_table :: "((string \<times> string) \<times> string list) list" where
  "MyResource_table =
     [((''/orgs/-/projects'', ''GET''), []), ((''/orgs'', ''GET''), [''root_domain'']),
      ((''/orgs/:id'', ''GET''), [''org_domain'']), ((''/orgs/:id'', ''POST''), [''org_domain'']),
      ((''/orgs/:id'', ''PATCH''), [''org_domain'']), ((''/orgs/:id/users'', ''GET''), [''org_domain'']),
      ((''/orgs/:id/projects'', ''GET''), [''org_domain'']), ((''/users/:id'', ''GET''), [''user_domain'']),
      ((''/users/:id'', ''PATCH''), [''user_domain'']), ((''/users/:id/roles'', ''GET''), [''user_domain'']),
      ((''/resources/:id'', ''GET''), [''first_level'']),
      ((''/resources/sub-resources'', ''GET''), [''first_level'', ''second_level'', ''list'']),
      ((''/resources/sub-resources/:id'', ''GET''), [''first_level'', ''second_level'']),
      ((''/resources/sub-resources/:id/lowest-resources/:id'', ''POST''), [''first_level'', ''second_level'', ''third_level'', ''create'']),
      ((''/resources/:id'', ''POST''), []), ((''/resources/:id'', ''PATCH''), [''first_level'', ''update''])]"

lemma MyResource_registrations:
  "map (\<lambda>(k, gm, own). (k, gm @ own))
     (concat (map (\<lambda>cs. chain_routes gin_join cs (fst (NewGinRouterGroup ''/''))) MyResource_chains)) = MyResource_table"
  by code_simp

lemma chains_lookup:
  "lookup_meta (fold (chain join g) css m) = fold register (concat (map (\<lambda>cs. chain_routes join cs g) css)) (lookup_meta m)"
  by (induction css arbitrary: m) (simp_all add: chain_lookup)


lemma gin_join_joins: "gin_joins gin_join"
  by (simp add: gin_joins_def gin_join_def)


section \<open>The applications\<close>

definition RequestLoggerModule :: "fx_option go" where
  "RequestLoggerModule = ProvideAsMiddleware (Func ''NewRequestLogger'' [''*RequestLoggerMiddleware'']) []"

definition ModuleLocal :: "fx_option go" where
  "ModuleLocal = FxProvideAs ''Factory'' (Func ''NewLocalFactory'' [''*LocalFactory'']) [] []"

text \<open>The configuration of the first example: \<open>zero\<close> is the empty one, and there is no secrets manager.\<close>

definition example_NewConfig :: "files \<Rightarrow> 'c codec \<Rightarrow> string list \<Rightarrow> string \<Rightarrow> 'c \<Rightarrow> 'c go option" where
  "example_NewConfig fs cd env envType zero = LoadConfig fs cd env envType zero None"

definition gin_deps :: "fx_option go" where
  "gin_deps = go_options [Ret (Provide ''NewConfig'' []), RequestLoggerModule, ProvideAsResource (Func ''NewMyResource'' [''MyResource'']) []]"

text \<open>\<open>main\<close> executes the root command (\<open>exec\<close>); a failure becomes a panic, which is logged and ends the process.\<close>

definition run_main :: "(cobra_cmd list \<Rightarrow> error option) \<Rightarrow> cobra_cmd list \<Rightarrow> string list \<times> int option" where
  "run_main exec app =
     DeferredPanicToLogAndExit
       (case exec app of
          None \<Rightarrow> None
        | Some e \<Rightarrow> Some (Inl (new_error ''UNKNOWN'' (''failed to execute with error: '' @ error_message e) [e])))"

definition gin_main :: "(cobra_cmd list \<Rightarrow> error option) \<Rightarrow> string list \<times> int option" where
  "gin_main exec = run_main exec (NewAppWithServe gin_deps [])"

definition worker_commonDeps :: "fx_option go" where
  "worker_commonDeps = go_options [RequestLoggerModule]"

definition worker_serverDeps :: "fx_option go" where
  "worker_serverDeps = go_options [ProvideAsResource (Func ''NewSimpleResource'' [''*SimpleResource'']) []]"

definition worker_workerDeps :: "fx_option go" where
  "worker_workerDeps = go_options [ModuleLocal, ProvideAsLongRunningWorker (Func ''NewSimpleWorker'' [''*SimpleWorker'']) []]"

definition gin_plus_worker_main :: "(cobra_cmd list \<Rightarrow> error option) \<Rightarrow> string list \<times> int option" where
  "gin_plus_worker_main exec = run_main exec (NewAppWithServeAndWork worker_commonDeps worker_serverDeps worker_workerDeps [])"

text \<open>The resource of the second example has one route.\<close>

definition SimpleResource_Setup :: "(string \<Rightarrow> string \<Rightarrow> string) \<Rightarrow> 'm router_group \<Rightarrow> 'm mapping \<Rightarrow> 'm mapping" where
  "SimpleResource_Setup join router m = chain join router [CallGroup ''simples'', CallVerb ''GET'' ''hello''] m"

definition SimpleResource_Get :: "int \<times> string" where
  "SimpleResource_Get = (200, ''Hello World!'')"

lemmas example_deps = gin_deps_def worker_commonDeps_def worker_serverDeps_def worker_workerDeps_def RequestLoggerModule_def
  ModuleLocal_def ProvideAsMiddleware_def ProvideAsResource_def ProvideAsLongRunningWorker_def FxProvideAs_def go_options_def

text \<open>The commands of the two applications and what each of them invokes: the server is set up before the command runs, and the
  worker command sets up no server.\<close>

lemma example_commands:
  "map (\<lambda>c. (cc_Use c, app_invokes c)) (NewAppWithServe gin_deps []) =
     [(''app:serve'', Ret [''NewMiddlewares'', ''NewResources'', ''ServeCommand.Run''])]"
  "map (\<lambda>c. (cc_Use c, app_invokes c)) (NewAppWithServeAndWork worker_commonDeps worker_serverDeps worker_workerDeps []) =
     [(''app:serve'', Ret [''NewMiddlewares'', ''NewResources'', ''ServeCommand.Run'']), (''app:work'', Ret [''WorkCommand.Run'']),
      (''app:serve-work'', Ret [''NewMiddlewares'', ''NewResources'', ''ServeWorkCommand.Run''])]"
  by (simp_all add: NewAppWithServe_def NewAppWithServeAndWork_def NewApp_def example_deps app_invokes_def WrapSubCommand_def
      NewServeCommand_def NewWorkCommand_def NewServeWorkCommand_def provide_defs)

text \<open>A failed command ends the process with the code 2, and a command that succeeds lets \<open>main\<close> return.\<close>

lemma main_exits: "snd (gin_main exec) = (case exec (NewAppWithServe gin_deps []) of None \<Rightarrow> None | Some _ \<Rightarrow> Some 2)"
  by (simp add: gin_main_def run_main_def DeferredPanicToLogAndExit_def split: option.split)

section \<open>The worker\<close>

record simple_worker =
  sw_id :: string

definition SimpleWorker_GetConcurrency :: "simple_worker \<Rightarrow> mode" where
  "SimpleWorker_GetConcurrency w = Multi"

definition SimpleWorker_GetName :: "simple_worker \<Rightarrow> string" where
  "SimpleWorker_GetName w = ''SimpleWorker''"

definition SimpleWorker_GetID :: "simple_worker \<Rightarrow> string" where
  "SimpleWorker_GetID w = sw_id w"

definition NewSimpleWorker :: "string \<Rightarrow> simple_worker" where
  "NewSimpleWorker uuid = \<lparr>sw_id = uuid\<rparr>"

definition work_sleep :: int where "work_sleep = 5 * 1000000000"

text \<open>\<open>Run\<close> on a context whose cause at an instant is \<open>ctx\<close>: the error it returns, what it logged, and when it returned. It may
  go on for ever.\<close>

partial_function (option) SimpleWorker_Run :: "(int \<Rightarrow> error option) \<Rightarrow> int \<Rightarrow> string list \<Rightarrow> (error \<times> string list \<times> int) option" where
  "SimpleWorker_Run ctx now logs =
     (case ctx now of
        Some cause \<Rightarrow> Some (cause, logs @ [''context done''], now)
      | None \<Rightarrow> SimpleWorker_Run ctx (now + work_sleep) (logs @ [''doing work'']))"

text \<open>It returns the cause of its context, at most one sleep after the context was done.\<close>

lemma simple_worker_stops:
  assumes "\<And>t. ctx t = (if stop \<le> t then Some cause else None)"
  shows "\<exists>logs' t. SimpleWorker_Run ctx now logs = Some (cause, logs', t) \<and> max now stop \<le> t \<and> t < max (now + 1) (stop + work_sleep)"
proof (induction "nat (stop - now)" arbitrary: now logs rule: less_induct)
  case less
  show ?case
  proof (cases "stop \<le> now")
    case True
    then show ?thesis using assms by (subst SimpleWorker_Run.simps) (simp add: work_sleep_def)
  next
    case False
    then have "nat (stop - (now + work_sleep)) < nat (stop - now)" by (simp add: work_sleep_def)
    from less[OF this, of "logs @ [''doing work'']"] obtain logs' t where
      t: "SimpleWorker_Run ctx (now + work_sleep) (logs @ [''doing work'']) = Some (cause, logs', t)"
      "max (now + work_sleep) stop \<le> t" "t < max (now + work_sleep + 1) (stop + work_sleep)" by blast
    have "SimpleWorker_Run ctx now logs = Some (cause, logs', t)"
      using t(1) False assms by (subst SimpleWorker_Run.simps) simp
    then show ?thesis using t(2,3) False by (intro exI[of _ logs'] exI[of _ t]) (auto simp: work_sleep_def)
  qed
qed

lemma simple_worker_returns: "SimpleWorker_Run ctx now logs = Some (cause, logs', t) \<Longrightarrow> ctx t = Some cause"
proof (rule SimpleWorker_Run.raw_induct[of "\<lambda>ctx now logs r. ctx (snd (snd r)) = Some (fst r)" ctx now logs "(cause, logs', t)", simplified], goal_cases)
  case (1 rec ctx now logs r)
  then show ?case by (cases "ctx now") auto
qed

text \<open>So it never returns on a context that is never done.\<close>

lemma simple_worker_runs_on: "(\<And>t. ctx t = None) \<Longrightarrow> SimpleWorker_Run ctx now logs = None"
  using simple_worker_returns[of ctx now logs] by (cases "SimpleWorker_Run ctx now logs") auto

end
