(* ===== verification/Spec2Isabelle.thy ===== *)
theory Spec2Isabelle
  imports ExecutorApi Wakeup RedisLock PostgresLock LocalLock Functional SyncMap Errors ErrorHandler Middleware PartiQL
    DynamoDB TimeCodec Config ConfigLoad Context Database Worker Logging LogAdapters RequestLog Slack Router Tags Rest Probes Cache Connections
    Fleet HttpServer Commands Wiring TestSupport Examples
begin

text \<open>
  A verification development of the Go framework \<^verbatim>\<open>go-fw\<close>: an executor of tasks with a priority queue, distributed
  locks, long running workers, transactions, an error type with its HTTP answers, middlewares of a REST server,
  a client for DynamoDB with its PartiQL encoder, configuration, logging and helpers. Names and paths are those of the
  repository. Each theory models the files that it names at its start: structs are records, enumerations and
  tagged values are datatypes, each operation is one executable function with its early returns, an error is a value
  of the result, and a panic is the constructor \<open>Panic\<close> of the type \<open>go\<close>.

  \<^bold>\<open>Parts and theories\<close>

  \<^item> \<open>Prelude\<close>: calls that return or panic, the part of \<^verbatim>\<open>strings\<close> and \<^verbatim>\<open>strconv\<close> that the code uses, and the collections of
    facts that proofs share.
  \<^item> \<open>PriorityQueue\<close> (\<^verbatim>\<open>queue\<close>), \<open>Task\<close> and \<open>Executor\<close> (\<^verbatim>\<open>executors\<close>): a binary heap of pointers with the index of every
    element and 64-bit sequence numbers, futures with their channels, and the loop of the executor with its clients and
    goroutines as the step relation \<open>sys_step\<close>. The locale \<open>prio_queue\<close> says what the executor needs of a queue; it
    is interpreted by the heap. Shown: the heap invariant, the stable order of draining, cancelling once, the
    bound on running tasks, that events do not panic, and how the executor ends.
  \<^item> \<open>Progress\<close> (histories of \<^verbatim>\<open>executors\<close>): where every task is, that it is in one place at a time, that no slot is left idle while a
    task is ready as long as no task is cancelled, and the instants of periodic tasks. \<open>Wakeup\<close>: that the timer of the loop covers the
    scheduled tasks, so that no wake-up is lost unless two tasks are due at the same instant. \<open>ExecutorApi\<close> (\<^verbatim>\<open>executors/executors.go\<close>): the
    interfaces as calls that are answered or block; the locale \<open>executor_contract\<close> is the contract of submission and
    cancellation, interpreted by the default executor.
  \<^item> \<open>LeaseLock\<close>, \<open>RedisLock\<close>, \<open>PostgresLock\<close>, \<open>LocalLock\<close> (\<^verbatim>\<open>distributedlock\<close>): the three Lua scripts, the SQL statements and the
    file lock. The locale \<open>lease_lock\<close> is the contract of a lock with a time to live, with exclusion proved once from
    it; both servers interpret it. Time is an integer, messages may be lost and statements may fail.
  \<^item> \<open>Functional\<close>, \<open>SyncMap\<close>, \<open>Tags\<close> (\<^verbatim>\<open>functional\<close>, \<^verbatim>\<open>ptr\<close>, \<^verbatim>\<open>sync\<close>, \<^verbatim>\<open>tag\<close>): loops over slices and maps against list functions; the map whose
    \<open>LoadOrStoreFunc\<close> is a step relation over interleaved calls. The locale \<open>memo\<close> says when a map may be used as
    a cache; the exclusions of authentication and the names of fields interpret it.
  \<^item> \<open>Errors\<close>, \<open>ErrorHandler\<close> (\<^verbatim>\<open>errors\<close>, \<^verbatim>\<open>rest/middleware/error_handler.go\<close>, \<^verbatim>\<open>panic_recovery.go\<close>): trees of wrapped errors, their search,
    encodings and stack traces; which response a list of errors gets.
  \<^item> \<open>Middleware\<close>, \<open>Router\<close>, \<open>Probes\<close>, \<open>RequestLog\<close>, \<open>Rest\<close> (\<^verbatim>\<open>rest\<close>): the order of middlewares, authentication and authorization,
    probes and where they are registered, metadata of routes, records of requests, binding, health checks and tokens. What is
    done to the Gin context is the list of calls on it.
  \<^item> \<open>PartiQL\<close>, \<open>DynamoDB\<close>, \<open>TimeCodec\<close> (\<^verbatim>\<open>aws\<close>): the encoder against a structural printer, statements and their parameters, the
    test for scans with its regular expressions, increments at 64 bits, times stored as IEEE 754 numbers.
  \<^item> \<open>Config\<close>, \<open>ConfigLoad\<close> (\<^verbatim>\<open>config\<close>, \<^verbatim>\<open>secrets\<close>, \<^verbatim>\<open>version\<close>): texts of levels, the search for files, environment and secrets, and
    a load as a whole. The locale \<open>key_transforming\<close> is the contract of a secrets manager, interpreted by that of AWS.
  \<^item> \<open>Database\<close> (\<^verbatim>\<open>database/database.go\<close>, \<^verbatim>\<open>rest/middleware/db_trx.go\<close>): transactions with savepoints over a model of the server,
    shown to mean nested blocks.
  \<^item> \<open>Context\<close>, \<open>Worker\<close> (\<^verbatim>\<open>context\<close>, \<^verbatim>\<open>worker\<close>, \<^verbatim>\<open>panics\<close>): contexts with values and cancellation, the runners of workers and
    their handler; which contexts end when the handler is stopped.
  \<^item> \<open>Logging\<close>, \<open>LogAdapters\<close>, \<open>Slack\<close> (\<^verbatim>\<open>log\<close>, \<^verbatim>\<open>database/logger_gorm.go\<close>, \<^verbatim>\<open>logger_goose.go\<close>, \<^verbatim>\<open>rest/logger_gin.go\<close>, \<^verbatim>\<open>di/fx_logger.go\<close>,
    \<^verbatim>\<open>slack\<close>): loggers that share levels by path, the loggers of other packages on top, and the messages of an
    application that starts and stops.
  \<^item> \<open>Connections\<close> (\<^verbatim>\<open>database/database.go\<close>, \<^verbatim>\<open>redis\<close>): opening connections, and which secrets failures and logs show.
  \<^item> \<open>Fleet\<close> (\<^verbatim>\<open>worker/worker.go\<close> over \<^verbatim>\<open>distributedlock\<close>): several instances of an application that run one single worker over one
    lock, as the step relation \<open>fleet_step\<close> over the calls on the server, lost answers and clocks. Proved in the locale \<open>lease_lock\<close>
    and instantiated with both servers: at most one worker runs with a live context while answers are in time; each
    instance follows the loop of \<open>Worker\<close>. Counterexamples show what a late extension and a failed release lead to.
  \<^item> \<open>HttpServer\<close> (\<^verbatim>\<open>rest/http_handler.go\<close>, \<^verbatim>\<open>rest/rest.go\<close>, \<^verbatim>\<open>rest/middleware/middleware.go\<close>): the handler, its hooks and the set-up of middlewares and
    resources; which handlers each route is behind. \<open>Commands\<close> (\<^verbatim>\<open>di\<close>, \<^verbatim>\<open>cmd\<close>, \<^verbatim>\<open>bootstrap\<close>, \<^verbatim>\<open>aws/config.go\<close>): the options of the injector as a tree,
    the commands and the order in which they set the server up, and which dependencies are missing. \<open>Wiring\<close>: the modules that
    applications add, the parameters of all constructors and which of them nothing provides, and when the order of error mappers matters.
  \<^item> \<open>TestSupport\<close> (\<^verbatim>\<open>test\<close>): the name of the database of a test with its bounds, the life of the databases, the configuration, the
    application under test and the client of its server.
  \<^item> \<open>Cache\<close> (\<^verbatim>\<open>cache\<close>): the cache over a store of bytes and a codec, which are arguments.
  \<^item> \<open>Examples\<close> (\<^verbatim>\<open>examples\<close>): the two example applications, with the metadata of the documented routes and the loop of their worker.
  \<^item> This theory: a request through the recovery of panics, the middleware of transactions and the error handler.

  \<^bold>\<open>Bounds and loops\<close>

  Loops that end by their data are total functions. Three may go on for ever and are partial functions into \<open>option\<close>: the
  search for a configuration file, for which the theory shows exactly when it returns, and the loops of a single
  worker and of the worker of the examples, of which the same is shown. Waiting for a lock takes
  a list of rounds with what the world does in each, and is \<open>None\<close> while it still waits after the last. Sequence numbers of
  the queue and increments of DynamoDB are 64-bit words, and the theorems name the wrap-around; other integers of
  the code are counts and instants that stay far below that bound and are mathematical integers.

  \<^bold>\<open>Code of other packages\<close>

  Redis, Postgres, Gin, gorm, the AWS SDK, YAML and JSON codecs, the JWT library and the injector fx are arguments of
  the definitions. What a theorem needs of them is a hypothesis, with a witness for a concrete instance.

  \<^bold>\<open>Not modelled\<close>

  What fx, cobra and Gin do with the values they are given, beyond the order of options and handlers;
  and the mocks under \<^verbatim>\<open>rest/middleware/mocks/\<close>, which mockery generates over the testify package.
\<close>

section \<open>A request through the middlewares\<close>

text \<open>The middlewares that this section follows, by their priorities.\<close>

lemma middleware_nesting:
  "mw_compare request_logger_mw panic_recovery_mw < 0 \<and> mw_compare panic_recovery_mw database_trx_mw < 0 \<and>
   mw_compare database_trx_mw error_handler_mw < 0"
  by (simp add: mw_defs mw_compare_def)

text \<open>The error handler runs inside the middleware of transactions: a panic of the handler is turned into an error
  response before that middleware sees the end of the request.\<close>

type_synonym 'd handler = "'d dbst \<Rightarrow> (gin_error option list \<times> panic_value option) \<times> 'd dbst"

definition inner_request ::
  "error_mapper list \<Rightarrow> bool \<Rightarrow> (gin_call list \<Rightarrow> int) \<Rightarrow> bool \<Rightarrow> 'd handler \<Rightarrow> 'd dbst \<Rightarrow> gin_call list \<times> handled option go" where
  "inner_request ms isProd writerStatus written handler st =
     ErrorHandler_Run ms isProd writerStatus written (fst (fst (handler st))) (snd (fst (handler st)))"

text \<open>The calls of the error handler on the context and what it answered, the calls of the recovery of panics around the
  middleware of transactions, and the state of the database.\<close>

definition serve_request ::
  "(db_op \<Rightarrow> bool) \<Rightarrow> error_mapper list \<Rightarrow> bool \<Rightarrow> (gin_call list \<Rightarrow> int) \<Rightarrow> bool \<Rightarrow> 'd handler \<Rightarrow> 'd dbst \<Rightarrow>
     (gin_call list \<times> handled option go) \<times> gin_call list \<times> 'd dbst go" where
  "serve_request ok ms isProd writerStatus written handler st =
     (case DatabaseTrx_Run ok (\<lambda>s. (case snd (inner_request ms isProd writerStatus written handler s) of Panic p \<Rightarrow> Some p | Ret _ \<Rightarrow> None,
                                     snd (handler s))) st of
        (panicked, st') \<Rightarrow>
          (inner_request ms isProd writerStatus written handler (st\<lparr>st_hasDB := True\<rparr>),
           PanicRecovery_Run (map_option PanicValue panicked), st'))"

lemma map_errors_left:
  assumes "map_errors errs isProd w ms (gs @ [Some g]) None = (None, os, cs)"
  shows "os \<noteq> []"
proof -
  have "os = map ge_Err (List.map_filter id (gs @ [Some g]))"
    using map_errors_calls[of errs isProd w ms "gs @ [Some g]"] assms by simp
  then show ?thesis by (simp add: List.map_filter_def)
qed

lemma handleErrors_returns: "\<exists>h. handleErrors ms isProd ws written broken (errs @ [Some g]) = Ret (Some h)"
proof -
  let ?es = "errs @ [Some g]" and ?w = "\<not> broken \<and> \<not> written"
  obtain m os cs where e: "map_errors ?es isProd ?w ms ?es None = (m, os, cs)" using prod_cases3 by blast
  show ?thesis
  proof (cases m)
    case None
    then have "os \<noteq> []" using map_errors_left[of ?es isProd ?w ms errs g os cs] e by simp
    then show ?thesis using e None by (cases os) (auto simp: handleErrors_def Let_def)
  next
    case (Some x)
    then show ?thesis using e by (simp add: handleErrors_def Let_def)
  qed
qed



end
